(* ===== verification/Net_Prelude.thy ===== *)
theory Net_Prelude
  imports Main "HOL-Library.Word" "HOL-Library.Multiset" "HOL-Library.Char_ord"
begin

text \<open>
  Shared vocabulary of the development: the machine integers of the C++ sources
  (\<open>u16\<close>, \<open>u32\<close>, \<open>u64\<close>), exceptions as values, the operations of \<^verbatim>\<open>std::string\<close>
  that can fail or truncate, decimal printing as \<^verbatim>\<open>std::to_string\<close> does it, and the
  generic facts on words and lists that the component theories use.

  Collections: \<open>net_simps\<close> holds the characteristic equations of helpers,
  \<open>net_defs\<close> the definitions that a component's proofs unfold together.
\<close>

named_theorems net_simps "characteristic equations of the shared helpers"
named_theorems net_defs "definitions unfolded together"

type_synonym u8 = "8 word"
type_synonym u16 = "16 word"
type_synonym u32 = "32 word"
type_synonym u64 = "64 word"

text \<open>
  The exceptions the sources throw, catch by type, or let pass. The constructors keep
  the C++ exception class where a handler of the sources distinguishes it; everything
  else is \<open>StdException\<close> with its message.
\<close>

datatype exn =
    OutOfRange
  | InvalidArgument string
  | RuntimeError string
  | ArchiveException string
  | NonHexInput string
  | StdException string

fun what :: "exn \<Rightarrow> string" where
  "what OutOfRange = ''out_of_range''"
| "what (InvalidArgument m) = m"
| "what (RuntimeError m) = m"
| "what (ArchiveException m) = m"
| "what (NonHexInput m) = m"
| "what (StdException m) = m"

type_synonym 'a res = "exn + 'a"

text \<open>
  Some of the code has undefined behaviour on some inputs. Where that can happen the
  result is a \<open>'a beh\<close>: undefined, an exception that leaves the function, or a value.
\<close>

datatype 'a beh = UB | Throws exn | Returns 'a

fun bind_beh :: "'a beh \<Rightarrow> ('a \<Rightarrow> 'b beh) \<Rightarrow> 'b beh" where
  "bind_beh UB f = UB"
| "bind_beh (Throws e) f = Throws e"
| "bind_beh (Returns x) f = f x"

lemma bind_beh_Returns [simp]: "bind_beh m f = Returns y \<longleftrightarrow> (\<exists>x. m = Returns x \<and> f x = Returns y)"
  by (cases m) auto

subsection \<open>Strings\<close>

text \<open>\<^verbatim>\<open>std::string::erase(pos, n)\<close> and \<^verbatim>\<open>insert(pos, t)\<close> throw past the end.\<close>

definition str_erase :: "nat \<Rightarrow> nat \<Rightarrow> string \<Rightarrow> string res" where
  "str_erase pos n s =
     (if length s < pos then Inl OutOfRange else Inr (take pos s @ drop (pos + n) s))"

definition str_insert :: "nat \<Rightarrow> string \<Rightarrow> string \<Rightarrow> string res" where
  "str_insert pos t s =
     (if length s < pos then Inl OutOfRange else Inr (take pos s @ t @ drop pos s))"

definition nul :: char where
  "nul = CHR 0x00"

text \<open>
  Conversion of a \<^verbatim>\<open>const char*\<close> into a string stops at the first NUL. A
  \<^verbatim>\<open>std::string\<close> always has a terminating NUL (\<open>c_str\<close>); a raw array may have none,
  and then the conversion reads past its end (\<open>cstr_of_array\<close> is \<open>None\<close>).
\<close>

definition c_str :: "string \<Rightarrow> string" where
  "c_str s = takeWhile (\<lambda>c. c \<noteq> nul) s"

definition cstr_of_array :: "char list \<Rightarrow> string option" where
  "cstr_of_array a = (if nul \<in> set a then Some (c_str a) else None)"

lemma c_str_id [net_simps]: "nul \<notin> set s \<Longrightarrow> c_str s = s"
  unfolding c_str_def by (rule takeWhile_eq_all_conv[THEN iffD2]) auto

lemma c_str_append_nul [net_simps]: "nul \<notin> set s \<Longrightarrow> c_str (s @ nul # t) = s"
  unfolding c_str_def by (induction s) auto

lemma cstr_of_array_nul [net_simps]: "nul \<notin> set s \<Longrightarrow> cstr_of_array (s @ nul # t) = Some s"
  by (simp add: cstr_of_array_def c_str_append_nul)

lemma cstr_of_array_append:
  "nul \<notin> set s \<Longrightarrow> cstr_of_array (s @ t) = map_option (\<lambda>u. s @ u) (cstr_of_array t)"
  by (auto simp: cstr_of_array_def c_str_def intro!: takeWhile_append2)

text \<open>\<^verbatim>\<open>std::to_string\<close> of an unsigned value, and its inverse.\<close>

definition digit :: "nat \<Rightarrow> char" where
  "digit d = char_of (48 + d)"

fun to_dec :: "nat \<Rightarrow> string" where
  "to_dec n = (if n < 10 then [digit n] else to_dec (n div 10) @ [digit (n mod 10)])"

declare to_dec.simps [simp del]

definition dec_value :: "string \<Rightarrow> nat" where
  "dec_value s = foldl (\<lambda>a c. 10 * a + (of_char c - 48)) 0 s"

lemma of_char_digit: "d < 10 \<Longrightarrow> (of_char (digit d) :: nat) = 48 + d"
  by (simp add: digit_def)

lemma dec_value_to_dec [net_simps]: "dec_value (to_dec n) = n"
proof (induction n rule: to_dec.induct)
  case (1 n)
  show ?case
  proof (cases "n < 10")
    case True
    then show ?thesis by (subst to_dec.simps) (simp add: dec_value_def of_char_digit)
  next
    case False
    have "dec_value (to_dec (n div 10)) = n div 10" using 1 False by blast
    then show ?thesis using False
      by (subst to_dec.simps) (simp add: dec_value_def of_char_digit)
  qed
qed

lemma to_dec_inject [net_simps]: "to_dec m = to_dec n \<longleftrightarrow> m = n"
  by (metis dec_value_to_dec)

subsection \<open>Buffers\<close>

text \<open>
  A receive into a fixed array overwrites a prefix and leaves the rest as it was.
\<close>

definition overwrite :: "'a list \<Rightarrow> 'a list \<Rightarrow> 'a list" where
  "overwrite xs buf = take (length buf) xs @ drop (length xs) buf"

lemma length_overwrite [net_simps, simp]: "length (overwrite xs buf) = length buf"
  by (simp add: overwrite_def)

lemma overwrite_fits: "length xs \<le> length buf \<Longrightarrow> overwrite xs buf = xs @ drop (length xs) buf"
  by (simp add: overwrite_def)

subsection \<open>Generic list and word facts\<close>

text \<open>\<open>cut ns s\<close> cuts consecutive pieces of the lengths \<open>ns\<close> off \<open>s\<close>.\<close>

fun cut :: "nat list \<Rightarrow> 'a list \<Rightarrow> 'a list list" where
  "cut [] s = []"
| "cut (n # ns) s = take n s # cut ns (drop n s)"

lemma length_cut [simp, net_simps]: "length (cut ns s) = length ns"
  by (induction ns s rule: cut.induct) auto

lemma concat_cut: "concat (cut ns s) = take (sum_list ns) s"
  by (induction ns s rule: cut.induct) (auto simp: take_add)

lemma map_length_cut: "sum_list ns \<le> length s \<Longrightarrow> map length (cut ns s) = ns"
  by (induction ns s rule: cut.induct) auto

lemma cut_pieces_bounded:
  "\<forall>n \<in> set ns. n \<le> m \<Longrightarrow> c \<in> set (cut ns s) \<Longrightarrow> length c \<le> m"
  by (induction ns s rule: cut.induct) auto

lemma filter_snoc [net_simps]:
  "filter P (xs @ [x]) = (if P x then filter P xs @ [x] else filter P xs)"
  by simp

lemma sorted_map_unique:
  fixes f :: "'a \<Rightarrow> 'b::linorder"
  assumes "mset xs = mset ys" and "sorted (map f xs)" and "sorted (map f ys)"
    and "distinct (map f xs)"
  shows "xs = ys"
proof -
  have inj: "inj_on f (set xs)" using assms(4) by (simp add: distinct_map)
  have "set ys = set xs" using assms(1) by (metis set_mset_mset)
  moreover have "map f xs = map f ys"
    using assms(1-3) by (metis mset_map sorted_sort_id sorted_list_of_multiset_mset)
  ultimately show ?thesis using inj by (metis Un_absorb inj_on_map_eq_map)
qed

lemma unat_inc_u64 [net_simps]:
  fixes i t :: u64
  assumes "i < t"
  shows "unat (i + 1) = Suc (unat i)"
proof -
  have "unat i < unat t" using assms by (simp add: word_less_nat_alt)
  moreover have "unat t < 2 ^ 64" using unsigned_less[of t, where ?'a = nat] by simp
  ultimately have "unat i + 1 < 2 ^ 64" by linarith
  then show ?thesis by (simp add: unat_word_ariths)
qed

lemma unat_of_nat_u64 [net_simps]: "n < 2 ^ 64 \<Longrightarrow> unat (of_nat n :: u64) = n"
  by (simp add: unat_of_nat take_bit_nat_eq_self)

end
