(* ===== verification/Transport_Packet.thy ===== *)
theory Transport_Packet
  imports Net_Prelude
begin

text \<open>
  The transport packet of \<^verbatim>\<open>Legacy/Transport/TransportPacket\<close>: its fields, its
  serialised form, the GUID generator, and the splitting of a large packet into
  numbered subpackets with the reassembly on the other side.

  The hex codec, AES-256, the key generator, the Boost text archive and \<^verbatim>\<open>std::sort\<close>
  (whose order on ties is unspecified) are not part of the repository. They are the
  fields of \<open>lib\<close>, an argument of the definitions; \<open>lib_ok\<close> states what their
  documentation promises.
\<close>

subsection \<open>Data\<close>

definition MAX_PACKET_SIZE_B :: u64 where
  "MAX_PACKET_SIZE_B = 8000"

definition DEFAULT_ENCRYPTION_KEY :: string where
  "DEFAULT_ENCRYPTION_KEY = ''H1#32%2$67h*0H@E3453H&2hk$hK7^6&''"

datatype TPacketType = TP_Invalid | TP_ToClient | TP_ToServer | TP_Error

record TransportPacket =
  tp_token :: string
  tp_guid :: string
  tp_type :: TPacketType
  tp_subPacketNo :: u64
  tp_subPacketTotalCount :: u64
  tp_payload :: string

definition new_packet :: TransportPacket where
  "new_packet = \<lparr>tp_token = [], tp_guid = [], tp_type = TP_Invalid, tp_subPacketNo = 0,
     tp_subPacketTotalCount = 0, tp_payload = []\<rparr>"

text \<open>\<open>serialize\<close> lists the archived members, in order; \<open>token\<close> is not one of them.\<close>

type_synonym tp_fields = "string \<times> TPacketType \<times> u64 \<times> u64 \<times> string"

definition serialize :: "TransportPacket \<Rightarrow> tp_fields" where
  "serialize p = (tp_guid p, tp_type p, tp_subPacketNo p, tp_subPacketTotalCount p, tp_payload p)"

fun load_fields :: "tp_fields \<Rightarrow> TransportPacket \<Rightarrow> TransportPacket" where
  "load_fields (g, t, n, c, b) p =
     p\<lparr>tp_guid := g, tp_type := t, tp_subPacketNo := n, tp_subPacketTotalCount := c,
       tp_payload := b\<rparr>"

definition packet_eq :: "TransportPacket \<Rightarrow> TransportPacket \<Rightarrow> bool" where
  "packet_eq p otp \<longleftrightarrow> tp_type otp = tp_type p \<and> tp_guid otp = tp_guid p \<and>
     tp_subPacketNo otp = tp_subPacketNo p \<and>
     tp_subPacketTotalCount otp = tp_subPacketTotalCount p \<and> tp_payload otp = tp_payload p"

text \<open>
  What is used of libraries outside the repository. Loading an archive may throw after
  it has filled some of the fields, so it returns the fields either way.
\<close>

record lib =
  encodeHex :: "string \<Rightarrow> string"
  decodeHex :: "string \<Rightarrow> string res"
  aes256encrypt :: "string \<Rightarrow> string \<Rightarrow> string"
  aes256decrypt :: "string \<Rightarrow> string \<Rightarrow> string res"
  archive_save :: "tp_fields \<Rightarrow> string"
  archive_load :: "string \<Rightarrow> tp_fields \<Rightarrow> exn option \<times> tp_fields"
  std_sort :: "TransportPacket list \<Rightarrow> TransportPacket list"

definition lib_ok :: "lib \<Rightarrow> bool" where
  "lib_ok L \<longleftrightarrow>
     (\<forall>s. decodeHex L (encodeHex L s) = Inr s) \<and>
     (\<forall>s k. aes256decrypt L (aes256encrypt L s k) k = Inr s) \<and>
     (\<forall>f g. archive_load L (archive_save L f) g = (None, f)) \<and>
     (\<forall>v. mset (std_sort L v) = mset v \<and> sorted (map tp_subPacketNo (std_sort L v)))"

lemma lib_okD:
  assumes "lib_ok L"
  shows "decodeHex L (encodeHex L s) = Inr s"
    and "aes256decrypt L (aes256encrypt L s k) k = Inr s"
    and "archive_load L (archive_save L f) g = (None, f)"
    and "mset (std_sort L v) = mset v"
    and "sorted (map tp_subPacketNo (std_sort L v))"
  using assms by (simp_all add: lib_ok_def del: split_paired_All)

subsection \<open>Operations\<close>

definition generateGuid :: "lib \<Rightarrow> string \<Rightarrow> string res" where
  "generateGuid L key =
     (let hashedStr = encodeHex L key in
      case str_erase 32 (length hashedStr) hashedStr of Inl e \<Rightarrow> Inl e | Inr h0 \<Rightarrow>
      (case str_insert 8 ''-'' h0 of Inl e \<Rightarrow> Inl e | Inr h1 \<Rightarrow>
      (case str_insert 13 ''-'' h1 of Inl e \<Rightarrow> Inl e | Inr h2 \<Rightarrow>
      (case str_insert 18 ''-'' h2 of Inl e \<Rightarrow> Inl e | Inr h3 \<Rightarrow>
       str_insert 23 ''-'' h3))))"

definition mustBeSeparated :: "TransportPacket \<Rightarrow> bool" where
  "mustBeSeparated p \<longleftrightarrow> unat MAX_PACKET_SIZE_B < length (tp_payload p)"

definition toString :: "lib \<Rightarrow> string \<Rightarrow> TransportPacket \<Rightarrow> string" where
  "toString L key p = encodeHex L (aes256encrypt L (archive_save L (serialize p)) key)"

text \<open>
  The loop of \<open>toSubpackets\<close>. \<open>s\<close> is the serialised packet, \<open>pos\<close> the distance of
  \<^verbatim>\<open>currentItPos\<close> from its begin, \<open>sub\<close> the reused \<^verbatim>\<open>subPacket\<close> object. The counter and
  the sizes are \<^verbatim>\<open>uint64_t\<close>.
\<close>

definition currentPacketSize :: "u64 \<Rightarrow> u64 \<Rightarrow> u64" where
  "currentPacketSize i packetSize =
     (if i * MAX_PACKET_SIZE_B + MAX_PACKET_SIZE_B < packetSize then MAX_PACKET_SIZE_B
      else packetSize mod MAX_PACKET_SIZE_B)"

function toSubpackets_loop ::
  "lib \<Rightarrow> string \<Rightarrow> string \<Rightarrow> u64 \<Rightarrow> nat \<Rightarrow> TransportPacket \<Rightarrow> string list" where
  "toSubpackets_loop L key s i pos sub =
     (if i < tp_subPacketTotalCount sub then
        let n = unat (currentPacketSize i (of_nat (length s)));
            sub' = sub\<lparr>tp_subPacketNo := i, tp_payload := take n (drop pos s)\<rparr>
        in toString L key sub' # toSubpackets_loop L key s (i + 1) (pos + n) sub'
      else [])"
  by pat_completeness auto
termination
proof (relation "measure (\<lambda>(L, key, s, i, pos, sub). unat (tp_subPacketTotalCount sub) - unat i)")
  fix L :: lib and key s :: string and i :: u64 and pos :: nat and sub n sub'
  assume i: "i < tp_subPacketTotalCount sub" and "n = unat (currentPacketSize i (of_nat (length s)))"
    and sub': "sub' = sub\<lparr>tp_subPacketNo := i, tp_payload := take n (drop pos s)\<rparr>"
  from i sub' show "((L, key, s, i + 1, pos + n, sub'), (L, key, s, i, pos, sub))
      \<in> measure (\<lambda>(L, key, s, i, pos, sub). unat (tp_subPacketTotalCount sub) - unat i)"
    by (simp add: unat_inc_u64 word_less_nat_alt)
qed simp

declare toSubpackets_loop.simps [simp del]

definition toSubpackets :: "lib \<Rightarrow> string \<Rightarrow> TransportPacket \<Rightarrow> string list" where
  "toSubpackets L key p =
     (let serializedPacket = toString L key p;
          subPacket = new_packet\<lparr>tp_guid := tp_guid p, tp_type := tp_type p,
            tp_subPacketTotalCount := of_nat (length serializedPacket) div MAX_PACKET_SIZE_B + 1\<rparr>
      in toSubpackets_loop L key serializedPacket 0 0 subPacket)"

text \<open>
  \<open>fromString\<close> overwrites the archived members of the object it is called on. An
  archive exception and a non-hex input are caught, logged and reported as \<^verbatim>\<open>false\<close>;
  any other exception leaves the function.
\<close>

fun fromString_catch :: "exn \<Rightarrow> bool res" where
  "fromString_catch (ArchiveException m) = Inr False"
| "fromString_catch (NonHexInput m) = Inr False"
| "fromString_catch e = Inl e"

definition fromString ::
  "lib \<Rightarrow> string \<Rightarrow> string \<Rightarrow> TransportPacket \<Rightarrow> bool res \<times> TransportPacket" where
  "fromString L key input p =
     (case decodeHex L input of Inl e \<Rightarrow> (fromString_catch e, p) | Inr h \<Rightarrow>
      (case aes256decrypt L h key of Inl e \<Rightarrow> (fromString_catch e, p) | Inr d \<Rightarrow>
       (case archive_load L d (serialize p) of
          (Some e, f) \<Rightarrow> (fromString_catch e, load_fields f p)
        | (None, f) \<Rightarrow> (Inr True, load_fields f p))))"

definition fromSubpackets ::
  "lib \<Rightarrow> string \<Rightarrow> TransportPacket list \<Rightarrow> TransportPacket \<Rightarrow>
     bool res \<times> TransportPacket \<times> TransportPacket list" where
  "fromSubpackets L key subpacketsVect p =
     (let v = std_sort L subpacketsVect;
          resultPacketSerialized = concat (map tp_payload v);
          (r, p') = fromString L key resultPacketSerialized p
      in (r, p', v))"


subsection \<open>The codec\<close>

lemma load_fields_serialize: "load_fields (serialize p) q = p\<lparr>tp_token := tp_token q\<rparr>"
  by (simp add: serialize_def)

lemma load_fields_self: "serialize q = f \<Longrightarrow> load_fields f q = q"
  by (auto simp: serialize_def)

lemma serialize_load_fields [simp]: "serialize (load_fields f q) = f"
  by (cases f) (simp add: serialize_def)

lemma load_fields_token [simp]: "tp_token (load_fields f q) = tp_token q"
  by (cases f) simp

lemma fromString_toString:
  "lib_ok L \<Longrightarrow> fromString L key (toString L key p) q = (Inr True, p\<lparr>tp_token := tp_token q\<rparr>)"
  by (simp add: fromString_def toString_def lib_okD load_fields_serialize)

lemma fromString_token: "tp_token (snd (fromString L key x q)) = tp_token q"
  by (auto simp: fromString_def split: sum.splits prod.splits option.splits)

subsection \<open>Splitting\<close>

text \<open>
  The specification of the splitting, over natural numbers: \<open>chunk_len n i\<close> is the
  length of piece \<open>i\<close> of a string of length \<open>n\<close>, \<open>subpackets_spec\<close> the packets whose
  serialised forms \<open>toSubpackets\<close> returns.
\<close>

definition chunk_len :: "nat \<Rightarrow> nat \<Rightarrow> nat" where
  "chunk_len n i = (if i * 8000 + 8000 < n then 8000 else n mod 8000)"

definition chunk_count :: "nat \<Rightarrow> nat" where
  "chunk_count n = n div 8000 + 1"

definition nth_subpacket :: "TransportPacket \<Rightarrow> nat \<Rightarrow> nat \<Rightarrow> string \<Rightarrow> TransportPacket" where
  "nth_subpacket p cnt k c = new_packet\<lparr>tp_guid := tp_guid p, tp_type := tp_type p,
     tp_subPacketNo := of_nat k, tp_subPacketTotalCount := of_nat cnt, tp_payload := c\<rparr>"

definition subpackets_spec :: "TransportPacket \<Rightarrow> string \<Rightarrow> TransportPacket list" where
  "subpackets_spec p s =
     (let T = chunk_count (length s)
      in map (\<lambda>(k, c). nth_subpacket p T k c) (zip [0..<T] (cut (map (chunk_len (length s)) [0..<T]) s)))"

lemma unat_currentPacketSize:
  assumes "unat i * 8000 + 8000 < 2 ^ 64" and "n < 2 ^ 64"
  shows "unat (currentPacketSize i (of_nat n)) = chunk_len n (unat i)"
proof -
  have i: "unat (i * 8000 + 8000) = unat i * 8000 + 8000"
    using assms(1) by (simp add: unat_word_ariths)
  have n: "unat (of_nat n :: u64) = n" using assms(2) by (rule unat_of_nat_u64)
  show ?thesis
    by (simp add: currentPacketSize_def MAX_PACKET_SIZE_B_def chunk_len_def word_less_nat_alt i n
        unat_mod del: of_nat_mod)
qed

lemma unat_chunk_count:
  assumes "n < 2 ^ 63"
  shows "unat (of_nat n div MAX_PACKET_SIZE_B + 1 :: u64) = chunk_count n"
proof -
  have n: "unat (of_nat n :: u64) = n" using assms by (intro unat_of_nat_u64) simp
  have "unat (of_nat n div 8000 :: u64) = n div 8000" by (simp add: unat_div n del: of_nat_div)
  moreover have "n div 8000 + 1 < 2 ^ 64" using assms by simp
  ultimately show ?thesis
    by (simp add: MAX_PACKET_SIZE_B_def chunk_count_def unat_word_ariths)
qed

lemma toSubpackets_loop_eq:
  assumes "length s < 2 ^ 63" and "unat (tp_subPacketTotalCount sub) = chunk_count (length s)"
    and "unat i \<le> chunk_count (length s)"
  shows "toSubpackets_loop L key s i pos sub =
    map (\<lambda>(k, c). toString L key (sub\<lparr>tp_subPacketNo := of_nat k, tp_payload := c\<rparr>))
      (zip [unat i..<chunk_count (length s)]
        (cut (map (chunk_len (length s)) [unat i..<chunk_count (length s)]) (drop pos s)))"
  using assms
proof (induction L key s i pos sub rule: toSubpackets_loop.induct)
  case (1 L key s i pos sub)
  let ?T = "chunk_count (length s)"
  show ?case
  proof (cases "i < tp_subPacketTotalCount sub")
    case False
    with 1 show ?thesis
      by (subst toSubpackets_loop.simps) (simp add: word_less_nat_alt)
  next
    case True
    then have iT: "unat i < ?T" using 1(3) by (simp add: word_less_nat_alt)
    then have "unat i * 8000 + 8000 < 2 ^ 64"
      using 1(2) by (simp add: chunk_count_def)
    moreover have "length s < 2 ^ 64" using 1(2) by simp
    ultimately have size: "unat (currentPacketSize i (of_nat (length s))) = chunk_len (length s) (unat i)"
      by (rule unat_currentPacketSize)
    have inc: "unat (i + 1) = Suc (unat i)" using True by (rule unat_inc_u64)
    have upt: "[unat i..<?T] = unat i # [Suc (unat i)..<?T]" using iT by (rule upt_conv_Cons)
    have IH: "toSubpackets_loop L key s (i + 1) (pos + chunk_len (length s) (unat i))
        (sub\<lparr>tp_subPacketNo := i, tp_payload := take (chunk_len (length s) (unat i)) (drop pos s)\<rparr>) =
      map (\<lambda>(k, c). toString L key (sub\<lparr>tp_subPacketNo := of_nat k, tp_payload := c\<rparr>))
        (zip [Suc (unat i)..<?T] (cut (map (chunk_len (length s)) [Suc (unat i)..<?T])
          (drop (pos + chunk_len (length s) (unat i)) s)))"
      using 1(1)[OF True refl refl] 1(2,3) iT by (simp add: size inc cong: map_cong)
    show ?thesis
      using True by (subst toSubpackets_loop.simps) (simp add: Let_def size IH upt
          add.commute[of "chunk_len (length s) (unat i)" pos])
  qed
qed

lemma toSubpackets_refines:
  assumes "length (toString L key p) < 2 ^ 63"
  shows "toSubpackets L key p = map (toString L key) (subpackets_spec p (toString L key p))"
proof -
  let ?s = "toString L key p"
  let ?T = "of_nat (length ?s) div MAX_PACKET_SIZE_B + 1 :: u64"
  have T: "unat ?T = chunk_count (length ?s)" using assms by (rule unat_chunk_count)
  have "?T = of_nat (unat ?T)" by simp
  then have "?T = of_nat (chunk_count (length ?s))" by (simp only: T)
  then show ?thesis
    unfolding toSubpackets_def Let_def
    by (subst toSubpackets_loop_eq[OF assms]) (use T in
      \<open>auto simp: subpackets_spec_def nth_subpacket_def new_packet_def Let_def\<close>)
qed


subsection \<open>Facts about the pieces\<close>

lemma sum_constant_prefix:
  assumes "\<And>i. i < k \<Longrightarrow> f i = (c :: nat)"
  shows "sum_list (map f [0..<k]) = k * c"
proof -
  have "map f [0..<k] = map (\<lambda>_. c) [0..<k]" using assms by (intro map_cong) auto
  then show ?thesis by (simp only: sum_list_triv) simp
qed

lemma sum_chunks:
  "sum_list (map (chunk_len n) [0..<chunk_count n]) =
     (if n mod 8000 = 0 \<and> 0 < n then n - 8000 else n)"
proof (cases "n mod 8000 = 0 \<and> 0 < n")
  case True
  define m where "m = n div 8000 - 1"
  have m: "n = 8000 * m + 8000" using True unfolding m_def by (auto elim!: dvdE simp: mod_0_imp_dvd)
  have "sum_list (map (chunk_len n) [0..<m]) = m * 8000"
    by (rule sum_constant_prefix) (simp add: chunk_len_def m)
  moreover have "chunk_count n = Suc (Suc m)" by (simp add: chunk_count_def m)
  moreover have "chunk_len n m = 0" and "chunk_len n (Suc m) = 0" by (simp_all add: chunk_len_def m)
  ultimately show ?thesis using True m by simp
next
  case False
  have "sum_list (map (chunk_len n) [0..<n div 8000]) = n div 8000 * 8000"
  proof (rule sum_constant_prefix)
    fix i assume i: "i < n div 8000"
    then have "Suc i * 8000 \<le> n div 8000 * 8000" by (intro mult_le_mono1) simp
    moreover have "n div 8000 * 8000 < n"
      using False i by (metis div_mult_mod_eq less_add_same_cancel1 neq0_conv div_0 not_less_zero)
    ultimately show "chunk_len n i = 8000" by (simp add: chunk_len_def)
  qed
  with False show ?thesis by (auto simp: chunk_count_def chunk_len_def)
qed

lemma chunk_len_bounded: "chunk_len n i \<le> 8000"
  by (simp add: chunk_len_def less_imp_le)

lemma length_subpackets_spec [simp]: "length (subpackets_spec p s) = chunk_count (length s)"
  by (simp add: subpackets_spec_def Let_def)

lemma payloads_subpackets_spec:
  "map tp_payload (subpackets_spec p s) = cut (map (chunk_len (length s)) [0..<chunk_count (length s)]) s"
  unfolding subpackets_spec_def Let_def
  by (rule nth_equalityI) (auto simp: nth_subpacket_def)

lemma subpackets_spec_single: "length s < 8000 \<Longrightarrow> subpackets_spec p s = [nth_subpacket p 1 0 s]"
  by (simp add: subpackets_spec_def chunk_count_def chunk_len_def Let_def)

lemma concat_payloads_subpackets_spec:
  "concat (map tp_payload (subpackets_spec p s)) =
     (if length s mod 8000 = 0 \<and> 0 < length s then take (length s - 8000) s else s)"
  by (simp add: payloads_subpackets_spec concat_cut sum_chunks)

lemma payload_lengths_subpackets_spec:
  "map (length \<circ> tp_payload) (subpackets_spec p s) = map (chunk_len (length s)) [0..<chunk_count (length s)]"
proof -
  have "sum_list (map (chunk_len (length s)) [0..<chunk_count (length s)]) \<le> length s"
    by (simp add: sum_chunks)
  then have "map length (map tp_payload (subpackets_spec p s)) =
      map (chunk_len (length s)) [0..<chunk_count (length s)]"
    unfolding payloads_subpackets_spec by (rule map_length_cut)
  then show ?thesis by simp
qed

lemma numbers_subpackets_spec:
  "map tp_subPacketNo (subpackets_spec p s) = map of_nat [0..<chunk_count (length s)]"
  unfolding subpackets_spec_def Let_def
  by (rule nth_equalityI) (auto simp: nth_subpacket_def)

lemma subpackets_spec_member:
  assumes "sp \<in> set (subpackets_spec p s)"
  shows "tp_guid sp = tp_guid p" and "tp_type sp = tp_type p" and "tp_token sp = []"
    and "tp_subPacketTotalCount sp = of_nat (chunk_count (length s))"
    and "length (tp_payload sp) \<le> 8000"
proof -
  obtain k c where kc: "(k, c) \<in> set (zip [0..<chunk_count (length s)]
      (cut (map (chunk_len (length s)) [0..<chunk_count (length s)]) s))"
    and sp: "sp = nth_subpacket p (chunk_count (length s)) k c"
    using assms by (auto simp: subpackets_spec_def Let_def)
  from kc have "c \<in> set (cut (map (chunk_len (length s)) [0..<chunk_count (length s)]) s)"
    by (rule set_zip_rightD)
  then have "length c \<le> 8000" by (rule cut_pieces_bounded[rotated]) (auto intro: chunk_len_bounded)
  with sp show "tp_guid sp = tp_guid p" "tp_type sp = tp_type p" "tp_token sp = []"
    "tp_subPacketTotalCount sp = of_nat (chunk_count (length s))" "length (tp_payload sp) \<le> 8000"
    by (simp_all add: nth_subpacket_def new_packet_def)
qed

lemma sorted_distinct_numbers:
  assumes "length s < 2 ^ 63"
  shows "sorted (map tp_subPacketNo (subpackets_spec p s))"
    and "distinct (map tp_subPacketNo (subpackets_spec p s))"
proof -
  have "chunk_count (length s) < 2 ^ 64" using assms by (simp add: chunk_count_def)
  then have u: "\<And>k. k < chunk_count (length s) \<Longrightarrow> unat (of_nat k :: u64) = k"
    by (intro unat_of_nat_u64) simp
  have mono: "\<And>i j. i \<le> j \<Longrightarrow> j < chunk_count (length s) \<Longrightarrow> (of_nat i :: u64) \<le> of_nat j"
    by (simp add: word_le_nat_alt u)
  then show "sorted (map tp_subPacketNo (subpackets_spec p s))"
    unfolding numbers_subpackets_spec by (simp add: sorted_iff_nth_mono)
  show "distinct (map tp_subPacketNo (subpackets_spec p s))"
    unfolding numbers_subpackets_spec
    unfolding distinct_map inj_on_def by (auto dest: arg_cong[where f = unat] simp: u)
qed

text \<open>
  Whatever order the subpackets arrive in, and whichever order the sort gives ties, the
  reassembly decodes the concatenation of the pieces in their original order.
\<close>

lemma fromSubpackets_permuted:
  assumes "lib_ok L" and "length s < 2 ^ 63" and "mset v = mset (subpackets_spec p s)"
  shows "fromSubpackets L key v q =
    (let (r, q') = fromString L key (concat (map tp_payload (subpackets_spec p s))) q
     in (r, q', subpackets_spec p s))"
proof -
  have "std_sort L v = subpackets_spec p s"
  proof (rule sorted_map_unique[where f = tp_subPacketNo])
    show "mset (std_sort L v) = mset (subpackets_spec p s)" using assms(1,3) by (simp add: lib_okD)
    show "sorted (map tp_subPacketNo (std_sort L v))" using assms(1) by (rule lib_okD)
    show "sorted (map tp_subPacketNo (subpackets_spec p s))"
      using assms(2) by (rule sorted_distinct_numbers)
    show "distinct (map tp_subPacketNo (std_sort L v))"
      using sorted_distinct_numbers(2)[OF assms(2), of p] assms(3)
      by (metis lib_okD(4)[OF assms(1)] mset_map mset_eq_imp_distinct_iff)
  qed
  then show ?thesis by (simp add: fromSubpackets_def Let_def)
qed


lemma received_subpackets:
  assumes "lib_ok L" and "length (toString L key p) < 2 ^ 63"
    and "mset xs = mset (toSubpackets L key p)"
  shows "mset (map (\<lambda>x. snd (fromString L key x new_packet)) xs) =
      mset (subpackets_spec p (toString L key p))"
    and "\<forall>x \<in> set xs. fst (fromString L key x new_packet) = Inr True"
proof -
  let ?recv = "\<lambda>x. snd (fromString L key x new_packet)"
  have eq: "toSubpackets L key p = map (toString L key) (subpackets_spec p (toString L key p))"
    using assms(2) by (rule toSubpackets_refines)
  have "map ?recv (toSubpackets L key p) = subpackets_spec p (toString L key p)"
    unfolding eq map_map
    by (rule map_idI) (simp add: fromString_toString[OF assms(1)] subpackets_spec_member new_packet_def)
  then show "mset (map ?recv xs) = mset (subpackets_spec p (toString L key p))"
    using assms(3) by (metis mset_map)
  show "\<forall>x \<in> set xs. fst (fromString L key x new_packet) = Inr True"
    using assms(3) by (metis (no_types, lifting) eq ex_map_conv fromString_toString[OF assms(1)]
        fst_conv set_mset_mset)
qed

subsection \<open>A concrete library\<close>

text \<open>
  An instance of \<open>lib\<close> that satisfies \<open>lib_ok\<close>, on which the witnesses evaluate: two hex
  digits per character, no encryption, a length-prefixed archive with unary numbers, and
  the stable sort.
\<close>

definition hex_digit :: "nat \<Rightarrow> char" where
  "hex_digit d = char_of (if d < 10 then 48 + d else 55 + d)"

definition hex_value :: "char \<Rightarrow> nat option" where
  "hex_value c = (let n = of_char c in
     if 48 \<le> n \<and> n < 58 then Some (n - 48) else if 65 \<le> n \<and> n < 71 then Some (n - 55) else None)"

fun sample_hex :: "string \<Rightarrow> string" where
  "sample_hex [] = []"
| "sample_hex (c # cs) = hex_digit (of_char c div 16) # hex_digit (of_char c mod 16) # sample_hex cs"

fun sample_unhex :: "string \<Rightarrow> string res" where
  "sample_unhex [] = Inr []"
| "sample_unhex [c] = Inl (NonHexInput ''not enough input'')"
| "sample_unhex (a # b # cs) =
     (case (hex_value a, hex_value b) of
        (Some x, Some y) \<Rightarrow>
          (case sample_unhex cs of Inl e \<Rightarrow> Inl e | Inr s \<Rightarrow> Inr (char_of (16 * x + y) # s))
      | _ \<Rightarrow> Inl (NonHexInput ''non-hex character''))"

lemma hex_value_digit: "d < 16 \<Longrightarrow> hex_value (hex_digit d) = Some d"
  by (simp add: hex_value_def hex_digit_def Let_def)

lemma of_char_bound: "(of_char (c :: char) :: nat) < 256"
  by (metis of_char_mod_256 mod_less_divisor zero_less_numeral)

lemma sample_unhex_hex: "sample_unhex (sample_hex s) = Inr s"
proof (induction s)
  case (Cons c s)
  have "of_char c div 16 < (16 :: nat)" using of_char_bound[of c] by linarith
  then show ?case using Cons by (simp add: hex_value_digit)
qed simp

lemma length_sample_hex [simp]: "length (sample_hex s) = 2 * length s"
  by (induction s) simp_all

lemma hex_digit_not_nul: "d < 16 \<Longrightarrow> hex_digit d \<noteq> nul"
proof
  assume "d < 16" and "hex_digit d = nul"
  then have "hex_value nul = Some d" using hex_value_digit by metis
  then show False by (simp add: hex_value_def nul_def)
qed

lemma sample_hex_no_nul: "nul \<notin> set (sample_hex s)"
proof (induction s)
  case (Cons c s)
  have "of_char c div 16 < (16 :: nat)" using of_char_bound[of c] by linarith
  then show ?case using Cons hex_digit_not_nul[of "of_char c div 16"] hex_digit_not_nul[of "of_char c mod 16"]
    by auto
qed simp

definition unary :: "nat \<Rightarrow> string" where
  "unary n = replicate n CHR ''1'' @ ''0''"

definition parse_unary :: "string \<Rightarrow> nat \<times> string" where
  "parse_unary s = (length (takeWhile (\<lambda>c. c = CHR ''1'') s), tl (dropWhile (\<lambda>c. c = CHR ''1'') s))"

fun type_code :: "TPacketType \<Rightarrow> nat" where
  "type_code TP_Invalid = 0" | "type_code TP_ToClient = 1"
| "type_code TP_ToServer = 2" | "type_code TP_Error = 3"

definition code_type :: "nat \<Rightarrow> TPacketType" where
  "code_type n = (if n = 0 then TP_Invalid else if n = 1 then TP_ToClient
     else if n = 2 then TP_ToServer else TP_Error)"

fun sample_save :: "tp_fields \<Rightarrow> string" where
  "sample_save (g, t, n, c, b) = unary (length g) @ g @ unary (type_code t) @
     unary (unat n) @ unary (unat c) @ unary (length b) @ b"

definition sample_parse :: "string \<Rightarrow> tp_fields" where
  "sample_parse s =
     (let (lg, s1) = parse_unary s; (t, s2) = parse_unary (drop lg s1);
          (n, s3) = parse_unary s2; (c, s4) = parse_unary s3; (lb, s5) = parse_unary s4
      in (take lg s1, code_type t, of_nat n, of_nat c, take lb s5))"

definition sample_load :: "string \<Rightarrow> tp_fields \<Rightarrow> exn option \<times> tp_fields" where
  "sample_load s f = (let f' = sample_parse s in
     if sample_save f' = s then (None, f') else (Some (ArchiveException ''input stream error''), f))"

definition sample_lib :: lib where
  "sample_lib = \<lparr>encodeHex = sample_hex, decodeHex = sample_unhex, aes256encrypt = (\<lambda>s k. s),
     aes256decrypt = (\<lambda>s k. Inr s), archive_save = sample_save, archive_load = sample_load,
     std_sort = sort_key tp_subPacketNo\<rparr>"

lemma parse_unary_unary [simp]: "parse_unary (unary n @ s) = (n, s)"
  by (induction n) (simp_all add: parse_unary_def unary_def)

lemma code_type_code [simp]: "code_type (type_code t) = t"
  by (cases t) (simp_all add: code_type_def)

lemma sample_parse_save: "sample_parse (sample_save f) = f"
  by (cases f) (simp add: sample_parse_def)

lemma sample_lib_ok: "lib_ok sample_lib"
  by (simp add: lib_ok_def sample_lib_def sample_load_def sample_parse_save sample_unhex_hex
      del: split_paired_All sample_save.simps)

lemma sample_toString: "toString sample_lib key p = sample_hex (sample_save (serialize p))"
  by (simp add: toString_def sample_lib_def)

lemma sample_no_nul: "nul \<notin> set (toString sample_lib key p)"
  by (simp add: sample_toString sample_hex_no_nul)

subsection \<open>Properties\<close>

text \<open>
  C1. Splitting a packet and reassembling it restores it. Every subpacket string that
  \<open>toSubpackets\<close> returns deserialises; and when the resulting subpackets are handed to
  \<open>fromSubpackets\<close> in any order (\<open>xs\<close> is any permutation of the strings), the call
  succeeds and the receiving object holds the original packet, but for the token,
  which is not transmitted. This needs a serialised length that is not a multiple of
  8000 (see the next property).
\<close>

theorem subpackets_roundtrip:
  assumes "lib_ok L" and "length (toString L key p) < 2 ^ 63"
    and "length (toString L key p) mod 8000 \<noteq> 0"
    and "mset xs = mset (toSubpackets L key p)"
  shows "(\<forall>x \<in> set xs. fst (fromString L key x new_packet) = Inr True) \<and>
    (\<exists>v. fromSubpackets L key (map (\<lambda>x. snd (fromString L key x new_packet)) xs) q =
      (Inr True, p\<lparr>tp_token := tp_token q\<rparr>, v))"
  using received_subpackets[OF assms(1,2,4)] assms(3)
  by (simp add: fromSubpackets_permuted[OF assms(1,2)] concat_payloads_subpackets_spec
      fromString_toString[OF assms(1)])

definition sample_packet :: "nat \<Rightarrow> TransportPacket" where
  "sample_packet k = new_packet\<lparr>tp_guid := ''g'', tp_type := TP_ToServer,
     tp_payload := replicate k CHR ''x''\<rparr>"

lemma length_sample_packet: "length (toString sample_lib key (sample_packet k)) = 4 * k + 18"
  by (simp add: sample_toString sample_packet_def serialize_def new_packet_def unary_def)

lemma subpackets_roundtrip_witness:
  "\<exists>v. fromSubpackets sample_lib ''key''
      (map (\<lambda>x. snd (fromString sample_lib ''key'' x new_packet))
        (rev (toSubpackets sample_lib ''key'' (sample_packet 5000)))) new_packet =
    (Inr True, sample_packet 5000, v)"
  using subpackets_roundtrip[of sample_lib "''key''" "sample_packet 5000"
      "rev (toSubpackets sample_lib ''key'' (sample_packet 5000))" new_packet]
  by (simp add: sample_lib_ok length_sample_packet) (simp add: sample_packet_def new_packet_def)

text \<open>
  C23. A packet whose serialised form has a length that is a positive multiple of 8000
  loses its last 8000 bytes on the way: the size of its last full piece is computed as
  0. In every arrival order, \<open>fromSubpackets\<close> decodes the serialised form without its
  last 8000 bytes.
\<close>

theorem subpackets_lose_tail:
  assumes "lib_ok L" and "length (toString L key p) < 2 ^ 63"
    and "length (toString L key p) mod 8000 = 0" and "0 < length (toString L key p)"
    and "mset xs = mset (toSubpackets L key p)"
  shows "\<exists>v. fromSubpackets L key (map (\<lambda>x. snd (fromString L key x new_packet)) xs) q =
    (let (r, q') = fromString L key
        (take (length (toString L key p) - 8000) (toString L key p)) q in (r, q', v))"
  using received_subpackets(1)[OF assms(1,2,5)] assms(3,4)
  by (auto simp: fromSubpackets_permuted[OF assms(1,2)] concat_payloads_subpackets_spec)

text \<open>A packet of serialised length 8000: both pieces are empty, and decoding fails.\<close>

definition lossy_packet :: TransportPacket where
  "lossy_packet = (sample_packet 1995)\<lparr>tp_subPacketNo := 1\<rparr>"

lemma length_lossy_packet: "length (toString sample_lib key lossy_packet) = 8000"
  by (simp add: sample_toString lossy_packet_def sample_packet_def serialize_def new_packet_def
      unary_def)

lemma subpackets_lose_tail_witness:
  "\<exists>v. fromSubpackets sample_lib ''key''
      (map (\<lambda>x. snd (fromString sample_lib ''key'' x new_packet))
        (toSubpackets sample_lib ''key'' lossy_packet)) new_packet = (Inr False, new_packet, v)"
proof -
  have "fromString sample_lib ''key'' [] new_packet = (Inr False, new_packet)"
    by (simp add: fromString_def sample_lib_def sample_load_def sample_parse_def parse_unary_def
        code_type_def unary_def serialize_def new_packet_def)
  then show ?thesis
    using subpackets_lose_tail[of sample_lib "''key''" lossy_packet
        "toSubpackets sample_lib ''key'' lossy_packet" new_packet]
    by (simp add: sample_lib_ok length_lossy_packet)
qed

text \<open>
  The subpackets of a packet are numbered 0, 1, ... up to their count; the count is
  the serialised length divided by 8000, plus one; each carries the count, the GUID and
  the type of the packet, no token, and at most 8000 bytes. No counter of the loop wraps,
  and each piece has the computed size: the iterators never run past the end.
\<close>

theorem subpackets_numbered:
  assumes "lib_ok L" and "length (toString L key p) < 2 ^ 63"
  shows "\<exists>ps. toSubpackets L key p = map (toString L key) ps \<and>
    length ps = length (toString L key p) div 8000 + 1 \<and>
    (\<forall>k < length ps. unat (tp_subPacketNo (ps ! k)) = k \<and>
       unat (tp_subPacketTotalCount (ps ! k)) = length ps \<and>
       tp_guid (ps ! k) = tp_guid p \<and> tp_type (ps ! k) = tp_type p \<and>
       tp_token (ps ! k) = [] \<and> length (tp_payload (ps ! k)) \<le> 8000 \<and>
       length (tp_payload (ps ! k)) =
         unat (currentPacketSize (of_nat k) (of_nat (length (toString L key p)))))"
proof (intro exI conjI allI impI)
  let ?s = "toString L key p"
  let ?ps = "subpackets_spec p ?s"
  show "toSubpackets L key p = map (toString L key) ?ps" using assms(2) by (rule toSubpackets_refines)
  show "length ?ps = length ?s div 8000 + 1" by (simp add: chunk_count_def)
  fix k assume k: "k < length ?ps"
  have c: "chunk_count (length ?s) < 2 ^ 64" using assms(2) by (simp add: chunk_count_def)
  have "tp_subPacketNo (?ps ! k) = map tp_subPacketNo ?ps ! k" using k by simp
  also have "\<dots> = of_nat k" using k unfolding numbers_subpackets_spec by simp
  finally show "unat (tp_subPacketNo (?ps ! k)) = k" using k c by (simp add: unat_of_nat_u64)
  have m: "?ps ! k \<in> set ?ps" using k by (rule nth_mem)
  show "unat (tp_subPacketTotalCount (?ps ! k)) = length ?ps"
    using c by (simp add: subpackets_spec_member[OF m] unat_of_nat_u64)
  show "tp_guid (?ps ! k) = tp_guid p" "tp_type (?ps ! k) = tp_type p"
    "tp_token (?ps ! k) = []" "length (tp_payload (?ps ! k)) \<le> 8000"
    by (rule subpackets_spec_member[OF m])+
  have "length (tp_payload (?ps ! k)) = map (length \<circ> tp_payload) ?ps ! k" using k by simp
  also have "\<dots> = chunk_len (length ?s) k" using k unfolding payload_lengths_subpackets_spec by simp
  also have "\<dots> = unat (currentPacketSize (of_nat k) (of_nat (length ?s)))"
    using unat_currentPacketSize[of "of_nat k" "length ?s"] k c assms(2)
    by (simp add: unat_of_nat_u64 chunk_count_def)
  finally show "length (tp_payload (?ps ! k)) =
      unat (currentPacketSize (of_nat k) (of_nat (length ?s)))" .
qed

lemma subpackets_numbered_witness:
  "length (toSubpackets sample_lib ''key'' (sample_packet 5000)) = 3"
  using subpackets_numbered[of sample_lib "''key''" "sample_packet 5000"]
  by (auto simp: sample_lib_ok length_sample_packet)

text \<open>
  C29. \<open>fromString\<close> inverts \<open>toString\<close> under the same key in every archived member; the
  token of the receiving object stays what it was, for every input, also on failure.
\<close>

theorem fromString_inverts_toString:
  assumes "lib_ok L"
  shows "fromString L key (toString L key p) q = (Inr True, p\<lparr>tp_token := tp_token q\<rparr>) \<and>
    (\<forall>x. tp_token (snd (fromString L key x q)) = tp_token q)"
  using assms by (simp add: fromString_toString fromString_token)

lemma fromString_inverts_toString_witness:
  "fromString sample_lib ''key'' (toString sample_lib ''key'' (sample_packet 2)) new_packet =
    (Inr True, sample_packet 2)"
  using fromString_inverts_toString[OF sample_lib_ok, of "''key''" "sample_packet 2" new_packet]
  by (simp add: sample_packet_def new_packet_def)

text \<open>
  C5. The outcome of \<open>generateGuid\<close>: with at least 32 hex digits it is the first 32 of
  them with dashes after 8, 12, 16 and 20 digits, 36 characters in all; with fewer,
  \<^verbatim>\<open>std::string::erase\<close> or \<^verbatim>\<open>insert\<close> throws \<open>OutOfRange\<close>.
\<close>

theorem generateGuid_format:
  "generateGuid L key =
    (let h = encodeHex L key in
     if 32 \<le> length h
     then Inr (take 8 h @ ''-'' @ take 4 (drop 8 h) @ ''-'' @ take 4 (drop 12 h) @ ''-'' @
       take 4 (drop 16 h) @ ''-'' @ take 12 (drop 20 h))
     else Inl OutOfRange)"
proof (cases "32 \<le> length (encodeHex L key)")
  case False
  then show ?thesis by (simp add: generateGuid_def str_erase_def Let_def)
next
  case True
  let ?h = "encodeHex L key"
  have parts: "take 32 ?h = take 8 ?h @ take 4 (drop 8 ?h) @ take 4 (drop 12 ?h) @
      take 4 (drop 16 ?h) @ take 12 (drop 20 ?h)"
    using take_add[of 8 24 ?h] take_add[of 4 20 "drop 8 ?h"] take_add[of 4 16 "drop 12 ?h"]
      take_add[of 4 12 "drop 16 ?h"] by (simp add: add.commute)
  have "length (take 8 ?h) = 8" "length (take 4 (drop 8 ?h)) = 4" "length (take 4 (drop 12 ?h)) = 4"
    "length (take 4 (drop 16 ?h)) = 4" "length (take 12 (drop 20 ?h)) = 12" using True by simp_all
  then show ?thesis
    using True by (simp add: generateGuid_def str_erase_def str_insert_def Let_def parts del: length_take)
qed

text \<open>
  How deserialisation fails: unless the archive itself was reached, the object keeps all
  its members.
\<close>

lemma fromString_failure:
  assumes "fst (fromString L key x q) \<noteq> Inr True"
  shows "(\<exists>e. decodeHex L x = Inl e \<and> fromString L key x q = (fromString_catch e, q)) \<or>
    (\<exists>h e. decodeHex L x = Inr h \<and> aes256decrypt L h key = Inl e \<and>
       fromString L key x q = (fromString_catch e, q)) \<or>
    (\<exists>h d e f. decodeHex L x = Inr h \<and> aes256decrypt L h key = Inr d \<and>
       archive_load L d (serialize q) = (Some e, f) \<and>
       fromString L key x q = (fromString_catch e, load_fields f q))"
  using assms by (auto simp: fromString_def split: sum.splits prod.splits option.splits)

end
