(* ===== verification/Subpacket_Store.thy ===== *)
theory Subpacket_Store
  imports Transport_Packet
begin

text \<open>
  The contract that the two receivers of subpackets share: the transport client keeps a
  vector of subpackets per GUID, the server session a closure per GUID that holds such a
  vector. \<open>pending s g\<close> is the vector of GUID \<open>g\<close>, \<open>deliver p s\<close> the state after
  subpacket \<open>p\<close>, \<open>completes p s\<close> whether \<open>p\<close> is the one that triggers the reassembly.
  The client's and the server's theories interpret the locale on their own definitions.
\<close>

locale subpacket_store =
  fixes pending :: "'s \<Rightarrow> string \<Rightarrow> TransportPacket list"
    and deliver :: "TransportPacket \<Rightarrow> 's \<Rightarrow> 's"
    and completes :: "TransportPacket \<Rightarrow> 's \<Rightarrow> bool"
  assumes pending_other: "g \<noteq> tp_guid p \<Longrightarrow> pending (deliver p s) g = pending s g"
    and pending_same: "\<not> completes p s \<Longrightarrow>
      pending (deliver p s) (tp_guid p) = pending s (tp_guid p) @ [p]"
    and not_yet: "length (pending s (tp_guid p)) + 1 < unat (tp_subPacketTotalCount p) \<Longrightarrow>
      \<not> completes p s"
    and complete: "length (pending s (tp_guid p)) + 1 = unat (tp_subPacketTotalCount p) \<Longrightarrow>
      completes p s"
begin

lemma pending_fold:
  assumes "\<forall>p \<in> set ps. tp_guid p = g \<longrightarrow> unat (tp_subPacketTotalCount p) = n"
    and "length (pending s g) + length (filter (\<lambda>p. tp_guid p = g) ps) < n"
  shows "pending (fold deliver ps s) g = pending s g @ filter (\<lambda>p. tp_guid p = g) ps"
  using assms
proof (induction ps arbitrary: s)
  case Nil
  then show ?case by simp
next
  case (Cons p ps)
  show ?case
  proof (cases "tp_guid p = g")
    case False
    then show ?thesis using Cons.IH[of "deliver p s"] Cons.prems pending_other[of g p s] by simp
  next
    case True
    then have "\<not> completes p s" using Cons.prems not_yet[of s p] by simp
    then have "pending (deliver p s) g = pending s g @ [p]" using True pending_same by blast
    then show ?thesis using True Cons.IH[of "deliver p s"] Cons.prems by simp
  qed
qed

lemma early_not_complete:
  assumes "\<forall>p \<in> set ps. tp_guid p = g \<longrightarrow> unat (tp_subPacketTotalCount p) = n"
    and "pending s g = []" and "tp_guid r = g" and "unat (tp_subPacketTotalCount r) = n"
    and "length (filter (\<lambda>p. tp_guid p = g) ps) + 1 < n"
  shows "\<not> completes r (fold deliver ps s)"
  using assms pending_fold[OF assms(1), of s] by (intro not_yet) simp

lemma last_completes:
  assumes "\<forall>p \<in> set ps. tp_guid p = g \<longrightarrow> unat (tp_subPacketTotalCount p) = n"
    and "pending s g = []" and "tp_guid r = g" and "unat (tp_subPacketTotalCount r) = n"
    and "length (filter (\<lambda>p. tp_guid p = g) ps) + 1 = n"
  shows "completes r (fold deliver ps s) \<and>
    pending (fold deliver ps s) g = filter (\<lambda>p. tp_guid p = g) ps"
  using assms pending_fold[OF assms(1), of s] complete[of "fold deliver ps s" r] by simp

text \<open>
  All subpackets of a packet, in any order and interleaved with others: the last of them,
  and none before it, completes, and then exactly they are collected.
\<close>

lemma interleaved_completion:
  assumes "length s0 < 2 ^ 63" and "pending s (tp_guid p) = []" and "tp_guid r = tp_guid p"
    and "mset (filter (\<lambda>x. tp_guid x = tp_guid p) (ps @ [r])) = mset (subpackets_spec p s0)"
  shows "completes r (fold deliver ps s)"
    and "mset (pending (fold deliver ps s) (tp_guid p) @ [r]) = mset (subpackets_spec p s0)"
    and "qs @ q # rs = ps \<Longrightarrow> tp_guid q = tp_guid p \<Longrightarrow> \<not> completes q (fold deliver qs s)"
proof -
  let ?g = "tp_guid p" and ?n = "chunk_count (length s0)"
  have n: "?n < 2 ^ 64" using assms(1) by (simp add: chunk_count_def)
  have all: "\<forall>x \<in> set (ps @ [r]). tp_guid x = ?g \<longrightarrow> unat (tp_subPacketTotalCount x) = ?n"
  proof (intro ballI impI)
    fix x assume "x \<in> set (ps @ [r])" and "tp_guid x = ?g"
    then have "x \<in> set (filter (\<lambda>x. tp_guid x = ?g) (ps @ [r]))" by auto
    then have "x \<in> set (subpackets_spec p s0)" using assms(4) by (metis set_mset_mset)
    then show "unat (tp_subPacketTotalCount x) = ?n"
      by (simp only: subpackets_spec_member unat_of_nat_u64[OF n])
  qed
  have "length (filter (\<lambda>x. tp_guid x = ?g) (ps @ [r])) = ?n"
    using assms(4) by (metis size_mset length_subpackets_spec)
  then have len: "length (filter (\<lambda>x. tp_guid x = ?g) ps) + 1 = ?n" using assms(3) by simp
  have last: "completes r (fold deliver ps s) \<and>
      pending (fold deliver ps s) ?g = filter (\<lambda>x. tp_guid x = ?g) ps"
    by (rule last_completes[OF _ assms(2,3) _ len]) (use all assms(3) in auto)
  then show "completes r (fold deliver ps s)" by blast
  show "mset (pending (fold deliver ps s) ?g @ [r]) = mset (subpackets_spec p s0)"
    using last assms(3,4) by simp
  assume qs: "qs @ q # rs = ps" and q: "tp_guid q = ?g"
  show "\<not> completes q (fold deliver qs s)"
    by (rule early_not_complete[where g = ?g and n = ?n]) (use all qs q assms(2) len in auto)
qed

end

end
