(* ===== verification/Transport_Client.thy ===== *)
theory Transport_Client
  imports Subpacket_Store
begin

text \<open>
  The transport client (\<^verbatim>\<open>Legacy/Transport/TransportClient/transportclient.cpp\<close>): its
  configuration, the guarded connection, requests (split when the payload is large) and
  the handler of responses.

  \<^verbatim>\<open>QTcpSocket\<close> is outside the repository. The outcome of a connection attempt is the
  argument \<open>conn\<close> (whether the socket is in the connected state after the wait), the
  key of a generated GUID the argument \<open>rnd\<close>. \<open>tc_sent\<close> records the byte arrays
  given to \<^verbatim>\<open>write\<close>; what \<^verbatim>\<open>write\<close> returns only decides about a log line.
\<close>

record tclient =
  tc_connected :: bool
  tc_token :: string
  tc_serverAddress :: string
  tc_serverPort :: u16
  tc_subpacketVectors :: "string \<rightharpoonup> TransportPacket list"
  tc_processorCallback :: "(string \<Rightarrow> bool \<times> string) option"
  tc_errorCallback :: bool
  tc_errors :: "string list"
  tc_sent :: "string list"
  tc_calls :: "string list"

definition new_tclient :: tclient where
  "new_tclient = \<lparr>tc_connected = False, tc_token = [], tc_serverAddress = ''127.0.0.1'',
     tc_serverPort = 0, tc_subpacketVectors = Map.empty, tc_processorCallback = None,
     tc_errorCallback = False, tc_errors = [], tc_sent = [], tc_calls = []\<rparr>"

definition error :: "string \<Rightarrow> tclient \<Rightarrow> tclient" where
  "error errorMsg c = (if tc_errorCallback c then c\<lparr>tc_errors := tc_errors c @ [errorMsg]\<rparr> else c)"

definition isConnected :: "tclient \<Rightarrow> bool" where
  "isConnected c = tc_connected c"

definition connectToHost :: "bool \<Rightarrow> tclient \<Rightarrow> bool \<times> tclient" where
  "connectToHost conn c =
     (if tc_token c = [] then (False, error ''Token not set'' c)
      else if tc_serverPort c = 0 then (False, error ''Port not set'' c)
      else if tc_processorCallback c = None
        then (False, error ''Callback for response packets not set'' c)
      else let c' = c\<lparr>tc_connected := conn\<rparr> in (isConnected c', c'))"

text \<open>\<open>left\<close>: whether the socket has left the connected state after the wait.\<close>

definition disconnectFromHost :: "bool \<Rightarrow> tclient \<Rightarrow> tclient" where
  "disconnectFromHost left c = (if isConnected c then c\<lparr>tc_connected := \<not> left\<rparr> else c)"

definition setToken :: "string \<Rightarrow> tclient \<Rightarrow> tclient" where
  "setToken token c = c\<lparr>tc_token := token\<rparr>"

definition setAddress :: "string \<Rightarrow> u16 \<Rightarrow> tclient \<Rightarrow> tclient" where
  "setAddress hostname port c =
     (if isConnected c then error ''Can not set address: in connected state'' c
      else c\<lparr>tc_serverAddress := hostname, tc_serverPort := port\<rparr>)"

definition setProcessor :: "(string \<Rightarrow> bool \<times> string) option \<Rightarrow> tclient \<Rightarrow> tclient" where
  "setProcessor pc c =
     (if isConnected c then error ''Can not set processor: in connected state'' c
      else c\<lparr>tc_processorCallback := pc\<rparr>)"

definition setErrorCallback :: "bool \<Rightarrow> tclient \<Rightarrow> tclient" where
  "setErrorCallback ect c = c\<lparr>tc_errorCallback := ect\<rparr>"

text \<open>
  Every call of \<open>send\<close> converts a C string, so a byte array ends at the first NUL.
\<close>

definition send :: "string \<Rightarrow> tclient \<Rightarrow> tclient" where
  "send reqp c = c\<lparr>tc_sent := tc_sent c @ [c_str reqp]\<rparr>"

definition call_processor :: "string \<Rightarrow> tclient \<Rightarrow> (bool \<times> string) res \<times> tclient" where
  "call_processor payload c =
     (case tc_processorCallback c of None \<Rightarrow> (Inl (StdException ''bad_function_call''), c)
      | Some cb \<Rightarrow> (Inr (cb payload), c\<lparr>tc_calls := tc_calls c @ [payload]\<rparr>))"

definition processSubpacket :: "lib \<Rightarrow> string \<Rightarrow> TransportPacket \<Rightarrow> tclient \<Rightarrow> unit res \<times> tclient" where
  "processSubpacket L key subp c =
     (let v = (case tc_subpacketVectors c (tp_guid subp) of None \<Rightarrow> [] | Some v \<Rightarrow> v) @ [subp];
          c1 = c\<lparr>tc_subpacketVectors := (tc_subpacketVectors c)(tp_guid subp \<mapsto> v)\<rparr>
      in if (of_nat (length v) :: u64) = tp_subPacketTotalCount subp
         then (case fromSubpackets L key v subp of (r, subp', v') \<Rightarrow>
           let c2 = c1\<lparr>tc_subpacketVectors := (tc_subpacketVectors c1)(tp_guid subp \<mapsto> v')\<rparr>
           in (case r of Inl e \<Rightarrow> (Inl e, c2)
               | Inr _ \<Rightarrow>
                 (case call_processor (tp_payload subp') c2 of
                    (Inl e, c3) \<Rightarrow> (Inl e, c3)
                  | (Inr (ok, out), c3) \<Rightarrow>
                      (Inr (), if ok then send (toString L key (new_packet\<lparr>tp_payload := out\<rparr>)) c3
                               else c3))))
         else (Inr (), c1))"

definition request :: "lib \<Rightarrow> string \<Rightarrow> bool \<Rightarrow> string \<Rightarrow> string \<Rightarrow> tclient \<Rightarrow> unit res \<times> tclient" where
  "request L key conn rnd requestData c =
     (case connectToHost conn c of
        (False, c1) \<Rightarrow> (Inr (), error ''Cannot request: connection error'' c1)
      | (True, c1) \<Rightarrow>
         (case generateGuid L rnd of Inl e \<Rightarrow> (Inl e, c1) | Inr g \<Rightarrow>
           let reqp = new_packet\<lparr>tp_token := tc_token c1, tp_guid := g, tp_payload := requestData\<rparr>
           in (Inr (), if mustBeSeparated reqp then fold send (toSubpackets L key reqp) c1
                       else send (toString L key reqp) c1)))"

definition gotResponse :: "lib \<Rightarrow> string \<Rightarrow> string \<Rightarrow> tclient \<Rightarrow> unit res \<times> tclient" where
  "gotResponse L key responseData c =
     (case fromString L key responseData new_packet of
        (Inl e, _) \<Rightarrow> (Inl e, c)
      | (Inr False, _) \<Rightarrow> (Inr (), error ''Failed to deserialize response'' c)
      | (Inr True, respp) \<Rightarrow>
          if tp_subPacketTotalCount respp \<noteq> 0 then processSubpacket L key respp c
          else (case call_processor (tp_payload respp) c of
              (Inl e, c1) \<Rightarrow> (Inl e, c1)
            | (Inr (ok, out), c1) \<Rightarrow> (Inr (), if ok then send out c1 else c1)))"

subsection \<open>The subpacket store of a client\<close>

definition client_pending :: "tclient \<Rightarrow> string \<Rightarrow> TransportPacket list" where
  "client_pending c g = (case tc_subpacketVectors c g of None \<Rightarrow> [] | Some v \<Rightarrow> v)"

definition client_completes :: "TransportPacket \<Rightarrow> tclient \<Rightarrow> bool" where
  "client_completes p c \<longleftrightarrow>
     (of_nat (length (client_pending c (tp_guid p)) + 1) :: u64) = tp_subPacketTotalCount p"

definition client_deliver :: "lib \<Rightarrow> string \<Rightarrow> TransportPacket \<Rightarrow> tclient \<Rightarrow> tclient" where
  "client_deliver L key p c = snd (processSubpacket L key p c)"

lemma client_incomplete:
  "\<not> client_completes p c \<Longrightarrow> processSubpacket L key p c = (Inr (),
     c\<lparr>tc_subpacketVectors := (tc_subpacketVectors c)(tp_guid p \<mapsto> client_pending c (tp_guid p) @ [p])\<rparr>)"
  by (simp add: processSubpacket_def client_completes_def client_pending_def Let_def)

lemma send_frame [simp]:
  "tc_subpacketVectors (send x c) = tc_subpacketVectors c"
  "tc_processorCallback (send x c) = tc_processorCallback c"
  "tc_calls (send x c) = tc_calls c"
  by (simp_all add: send_def)

lemma call_processor_vectors [simp]:
  "tc_subpacketVectors (snd (call_processor x c)) = tc_subpacketVectors c"
  by (simp add: call_processor_def split: option.split)

lemma processSubpacket_vectors:
  "tc_subpacketVectors (snd (processSubpacket L key p c)) = (tc_subpacketVectors c)(tp_guid p \<mapsto>
     (if client_completes p c then snd (snd (fromSubpackets L key (client_pending c (tp_guid p) @ [p]) p))
      else client_pending c (tp_guid p) @ [p]))"
  by (auto simp: processSubpacket_def client_completes_def client_pending_def Let_def call_processor_def
      split: prod.splits sum.splits option.splits)

lemma of_nat_eq_u64_iff:
  "n \<le> unat (t :: u64) \<Longrightarrow> (of_nat n :: u64) = t \<longleftrightarrow> n = unat t"
  using unsigned_less[of t, where ?'a = nat] by (auto simp: unat_of_nat_u64)

interpretation client_store: subpacket_store client_pending "client_deliver L key" client_completes
  for L key
proof unfold_locales
  fix g :: string and p :: TransportPacket and c :: tclient
  assume "g \<noteq> tp_guid p"
  then show "client_pending (client_deliver L key p c) g = client_pending c g"
    by (simp add: client_pending_def client_deliver_def processSubpacket_vectors)
next
  fix p :: TransportPacket and c :: tclient
  assume "\<not> client_completes p c"
  then show "client_pending (client_deliver L key p c) (tp_guid p) = client_pending c (tp_guid p) @ [p]"
    by (simp add: client_deliver_def client_incomplete client_pending_def)
next
  fix p :: TransportPacket and c :: tclient
  assume "length (client_pending c (tp_guid p)) + 1 < unat (tp_subPacketTotalCount p)"
  then show "\<not> client_completes p c"
    by (simp only: client_completes_def of_nat_eq_u64_iff less_imp_le)
next
  fix p :: TransportPacket and c :: tclient
  assume "length (client_pending c (tp_guid p)) + 1 = unat (tp_subPacketTotalCount p)"
  then show "client_completes p c"
    by (simp only: client_completes_def of_nat_eq_u64_iff)
qed

subsection \<open>Properties\<close>

lemma connectToHost_cases:
  "connectToHost conn c = (False, c') \<or> connectToHost conn c = (True, c') \<Longrightarrow>
     tc_sent c' = tc_sent c \<and> tc_calls c' = tc_calls c \<and> tc_token c' = tc_token c"
  by (auto simp: connectToHost_def error_def isConnected_def Let_def split: if_splits)



text \<open>
  A request on a client that lacks its token, its port or its processor sends nothing
  and changes nothing but the error reports: first what is missing (in this order of
  precedence), then the failed connection.
\<close>

theorem request_unconfigured:
  assumes "tc_token c = [] \<or> tc_serverPort c = 0 \<or> tc_processorCallback c = None"
    and "tc_errorCallback c"
  shows "request L key conn rnd d c = (Inr (), c\<lparr>tc_errors := tc_errors c @
    [if tc_token c = [] then ''Token not set'' else if tc_serverPort c = 0 then ''Port not set''
     else ''Callback for response packets not set'', ''Cannot request: connection error'']\<rparr>)"
  using assms by (auto simp: request_def connectToHost_def error_def)

lemma request_unconfigured_witness:
  "tc_errors (snd (request sample_lib ''key'' True [] ''data''
      (setErrorCallback True (setToken ''T'' new_tclient)))) =
    [''Port not set'', ''Cannot request: connection error'']"
  using request_unconfigured[of "setErrorCallback True (setToken ''T'' new_tclient)" sample_lib
      "''key''" True "[]" "''data''"]
  by (simp add: setErrorCallback_def setToken_def new_tclient_def)

text \<open>
  The two ways a client answers a response disagree. The answer to an undivided
  response is the processor's output as it is (up to the first NUL), not a serialised
  packet; the answer to a reassembled one is a serialised packet with that payload.
\<close>

theorem client_reply_forms:
  assumes "fromString L key x new_packet = (Inr True, r)" and "tc_processorCallback c = Some cb"
  shows "(tp_subPacketTotalCount r = 0 \<and> cb (tp_payload r) = (True, out) \<longrightarrow>
      tc_sent (snd (gotResponse L key x c)) = tc_sent c @ [c_str out]) \<and>
    (tp_subPacketTotalCount r \<noteq> 0 \<and> client_completes r c \<and>
      fromSubpackets L key (client_pending c (tp_guid r) @ [r]) r = (Inr b, r', v) \<and>
      cb (tp_payload r') = (True, out) \<longrightarrow>
      tc_sent (snd (gotResponse L key x c)) =
        tc_sent c @ [c_str (toString L key (new_packet\<lparr>tp_payload := out\<rparr>))])"
  using assms
  by (auto simp: gotResponse_def processSubpacket_def call_processor_def send_def client_completes_def
      client_pending_def Let_def)

lemma client_reply_forms_witness:
  "tc_sent (snd (gotResponse sample_lib ''key'' (toString sample_lib ''key'' (sample_packet 2))
      (new_tclient\<lparr>tc_processorCallback := Some (\<lambda>x. (True, ''ok''))\<rparr>))) = [''ok'']"
proof -
  have "fromString sample_lib ''key'' (toString sample_lib ''key'' (sample_packet 2)) new_packet =
      (Inr True, sample_packet 2)"
    by (simp add: fromString_toString[OF sample_lib_ok]) (simp add: sample_packet_def new_packet_def)
  from client_reply_forms[OF this, of "new_tclient\<lparr>tc_processorCallback := Some (\<lambda>x. (True, ''ok''))\<rparr>"
      "\<lambda>x. (True, ''ok'')" "''ok''"]
  show ?thesis by (simp add: sample_packet_def new_packet_def new_tclient_def c_str_def nul_def)
qed

end
