(* ===== verification/Transport_Session.thy ===== *)
theory Transport_Session
  imports Subpacket_Store
begin

text \<open>
  The server side of a transport connection
  (\<^verbatim>\<open>Legacy/Transport/TransportServer/connectionsession.cpp\<close>): the read loop over one
  fixed buffer, the posted request handler, the token check, the reassembly of
  subpackets and the response.

  Arguments of the definitions: \<open>L\<close> and \<open>key\<close> (see \<open>Transport_Packet\<close>); \<open>cb\<close>, the
  user's packet callback, from the request payload to its verdict and the response
  payload; \<open>wr\<close>, what \<^verbatim>\<open>write_some\<close> throws, if anything, on the data it is given.
\<close>

subsection \<open>State\<close>

text \<open>
  \<open>ss_data\<close> is the buffer \<^verbatim>\<open>data_\<close>. \<open>ss_subPacketsMap\<close> holds, for each GUID, the vector
  captured by the closure of that GUID. \<open>ss_reading\<close>: an \<^verbatim>\<open>async_read_some\<close> is
  outstanding. \<open>ss_posted\<close>: the number of posted handlers that have not run. The
  capture \<^verbatim>\<open>tmpBuffer = data_\<close> copies the decayed pointer, not the array, so all posted
  handlers are alike: each reads \<^verbatim>\<open>data_\<close> when it runs. \<open>ss_written\<close> and \<open>ss_calls\<close>
  record the data given to \<^verbatim>\<open>write_some\<close> and the payloads given to the callback.
\<close>

record session =
  ss_data :: "char list"
  ss_subPacketsMap :: "string \<rightharpoonup> TransportPacket list"
  ss_tokenList :: "string list"
  ss_reading :: bool
  ss_posted :: nat
  ss_written :: "string list"
  ss_calls :: "string list"

type_synonym packet_callback = "string \<Rightarrow> bool \<times> string"
type_synonym write_fault = "string \<Rightarrow> exn option"

definition dataBufferSize :: nat where
  "dataBufferSize = 65535"

text \<open>
  A new session: the buffer is not initialised, so its content \<open>junk\<close> is an argument.
\<close>

definition new_session :: "char list \<Rightarrow> string list \<Rightarrow> session" where
  "new_session junk tokenList = \<lparr>ss_data = junk, ss_subPacketsMap = Map.empty,
     ss_tokenList = tokenList, ss_reading = False, ss_posted = 0, ss_written = [], ss_calls = []\<rparr>"

subsection \<open>Operations\<close>

text \<open>
  Completion of the read started by \<open>readSocket\<close>, with error code \<open>ec\<close> and the bytes
  read. Error value 2 (end of file) ends the loop; any other error is logged, and the
  handler posts a task and reads on in both remaining cases.
\<close>

definition readSocket :: "session \<Rightarrow> session" where
  "readSocket s = s\<lparr>ss_reading := True\<rparr>"

definition on_read :: "int \<Rightarrow> char list \<Rightarrow> session \<Rightarrow> session" where
  "on_read ec bytes s =
     (let s1 = s\<lparr>ss_data := overwrite bytes (ss_data s), ss_reading := False\<rparr> in
      if ec = 2 then s1 else readSocket (s1\<lparr>ss_posted := Suc (ss_posted s1)\<rparr>))"

definition writeSocket :: "write_fault \<Rightarrow> string \<Rightarrow> session \<Rightarrow> unit res \<times> session" where
  "writeSocket wr dataStr s =
     ((case wr dataStr of None \<Rightarrow> Inr () | Some e \<Rightarrow> Inl e),
      s\<lparr>ss_written := ss_written s @ [dataStr]\<rparr>)"

fun writeAll :: "write_fault \<Rightarrow> string list \<Rightarrow> session \<Rightarrow> unit res \<times> session" where
  "writeAll wr [] s = (Inr (), s)"
| "writeAll wr (d # ds) s =
     (case writeSocket wr d s of
        (Inl e, s') \<Rightarrow> (Inl e, s')
      | (Inr _, s') \<Rightarrow> writeAll wr ds s')"

text \<open>
  \<open>processSubpacket\<close> returns whether all subpackets are there, the packet (which the
  reassembly overwrites) and the state. The result of \<open>fromSubpackets\<close> is discarded;
  an exception it throws leaves the function.
\<close>

definition processSubpacket ::
  "lib \<Rightarrow> string \<Rightarrow> TransportPacket \<Rightarrow> session \<Rightarrow> bool res \<times> TransportPacket \<times> session" where
  "processSubpacket L key p s =
     (let captured = (case ss_subPacketsMap s (tp_guid p) of None \<Rightarrow> [] | Some v \<Rightarrow> v);
          subpackets = captured @ [p]
      in if (of_nat (length subpackets) :: u64) < tp_subPacketTotalCount p
         then (Inr False, p, s\<lparr>ss_subPacketsMap := (ss_subPacketsMap s)(tp_guid p \<mapsto> subpackets)\<rparr>)
         else (case fromSubpackets L key subpackets p of (r, p', subpackets') \<Rightarrow>
           let s' = s\<lparr>ss_subPacketsMap := (ss_subPacketsMap s)(tp_guid p \<mapsto> subpackets')\<rparr>
           in (case r of Inl e \<Rightarrow> (Inl e, p', s') | Inr _ \<Rightarrow> (Inr True, p', s'))))"

definition respond ::
  "lib \<Rightarrow> string \<Rightarrow> packet_callback \<Rightarrow> write_fault \<Rightarrow> TransportPacket \<Rightarrow> session \<Rightarrow>
     unit res \<times> session" where
  "respond L key cb wr requestPacket s =
     (let s1 = s\<lparr>ss_calls := ss_calls s @ [tp_payload requestPacket]\<rparr>;
          (ok, out) = cb (tp_payload requestPacket);
          responsePacket = new_packet\<lparr>tp_payload := out\<rparr>
      in if \<not> ok then (Inr (), s1)
         else if mustBeSeparated responsePacket
         then writeAll wr (toSubpackets L key responsePacket) s1
         else writeSocket wr (toString L key responsePacket) s1)"

definition lift_beh :: "unit res \<times> session \<Rightarrow> unit beh \<times> session" where
  "lift_beh rs = (case rs of (Inl e, s) \<Rightarrow> (Throws e, s) | (Inr u, s) \<Rightarrow> (Returns u, s))"

text \<open>
  The posted handler. The buffer is converted as a C string: undefined without a NUL.
\<close>

definition handle_posted ::
  "lib \<Rightarrow> string \<Rightarrow> packet_callback \<Rightarrow> write_fault \<Rightarrow> session \<Rightarrow> unit beh \<times> session" where
  "handle_posted L key cb wr s =
     (case cstr_of_array (ss_data s) of None \<Rightarrow> (UB, s) | Some tmpBuffer \<Rightarrow>
      (case fromString L key tmpBuffer new_packet of
         (Inl e, _) \<Rightarrow> (Throws e, s)
       | (Inr False, _) \<Rightarrow> (Returns (), s)
       | (Inr True, requestPacket) \<Rightarrow>
           if tp_token requestPacket \<notin> set (ss_tokenList s)
           then lift_beh (writeSocket wr (toString L key (requestPacket\<lparr>tp_token := []\<rparr>)) s)
           else if 0 < tp_subPacketTotalCount requestPacket
           then (case processSubpacket L key requestPacket s of
               (Inl e, _, s1) \<Rightarrow> (Throws e, s1)
             | (Inr False, _, s1) \<Rightarrow> (Returns (), s1)
             | (Inr True, p, s1) \<Rightarrow>
                 lift_beh (respond L key cb wr p
                   (s1\<lparr>ss_subPacketsMap := (ss_subPacketsMap s1)(tp_guid p := None)\<rparr>)))
           else lift_beh (respond L key cb wr requestPacket s)))"

text \<open>
  The steps of a session on a single processing thread: a read completes, or a posted
  handler runs.
\<close>

inductive session_step ::
  "lib \<Rightarrow> string \<Rightarrow> packet_callback \<Rightarrow> write_fault \<Rightarrow> session \<Rightarrow> session \<Rightarrow> bool"
  for L key cb wr where
  read: "ss_reading s \<Longrightarrow> length bytes \<le> length (ss_data s) \<Longrightarrow>
     session_step L key cb wr s (on_read ec bytes s)"
| run: "0 < ss_posted s \<Longrightarrow>
     session_step L key cb wr s (snd (handle_posted L key cb wr (s\<lparr>ss_posted := ss_posted s - 1\<rparr>)))"

inductive session_reachable ::
  "lib \<Rightarrow> string \<Rightarrow> packet_callback \<Rightarrow> write_fault \<Rightarrow> session \<Rightarrow> session \<Rightarrow> bool"
  for L key cb wr s0 where
  start: "session_reachable L key cb wr s0 s0"
| step: "session_reachable L key cb wr s0 s \<Longrightarrow> session_step L key cb wr s t \<Longrightarrow>
     session_reachable L key cb wr s0 t"

inductive_cases session_stepE: "session_step L key cb wr s t"


subsection \<open>The subpacket store of a session\<close>

definition server_pending :: "session \<Rightarrow> string \<Rightarrow> TransportPacket list" where
  "server_pending s g = (case ss_subPacketsMap s g of None \<Rightarrow> [] | Some v \<Rightarrow> v)"

definition server_completes :: "TransportPacket \<Rightarrow> session \<Rightarrow> bool" where
  "server_completes p s \<longleftrightarrow>
     \<not> (of_nat (length (server_pending s (tp_guid p)) + 1) :: u64) < tp_subPacketTotalCount p"

definition server_deliver :: "lib \<Rightarrow> string \<Rightarrow> TransportPacket \<Rightarrow> session \<Rightarrow> session" where
  "server_deliver L key p s = snd (snd (processSubpacket L key p s))"

lemma of_nat_less_u64_iff:
  "n \<le> unat (t :: u64) \<Longrightarrow> (of_nat n :: u64) < t \<longleftrightarrow> n < unat t"
  using unsigned_less[of t, where ?'a = nat] by (simp add: word_less_nat_alt unat_of_nat_u64)

lemma processSubpacket_incomplete:
  "\<not> server_completes p s \<Longrightarrow> processSubpacket L key p s = (Inr False, p,
     s\<lparr>ss_subPacketsMap := (ss_subPacketsMap s)(tp_guid p \<mapsto> server_pending s (tp_guid p) @ [p])\<rparr>)"
  by (simp add: processSubpacket_def server_completes_def server_pending_def Let_def)

lemma processSubpacket_complete:
  assumes "server_completes p s"
  shows "processSubpacket L key p s =
    (case fromSubpackets L key (server_pending s (tp_guid p) @ [p]) p of (r, p', v) \<Rightarrow>
       (case r of Inl e \<Rightarrow> Inl e | Inr _ \<Rightarrow> Inr True, p',
        s\<lparr>ss_subPacketsMap := (ss_subPacketsMap s)(tp_guid p \<mapsto> v)\<rparr>))"
  using assms
  by (simp add: processSubpacket_def server_completes_def server_pending_def Let_def
      split: prod.split sum.split)

interpretation server_store: subpacket_store server_pending "server_deliver L key" server_completes
  for L key
proof unfold_locales
  fix g :: string and p :: TransportPacket and s :: session
  assume "g \<noteq> tp_guid p"
  then show "server_pending (server_deliver L key p s) g = server_pending s g"
    by (cases "server_completes p s")
      (auto simp: server_deliver_def processSubpacket_incomplete processSubpacket_complete
        server_pending_def split: prod.split)
next
  fix p :: TransportPacket and s :: session
  assume "\<not> server_completes p s"
  then show "server_pending (server_deliver L key p s) (tp_guid p) = server_pending s (tp_guid p) @ [p]"
    by (simp add: server_deliver_def processSubpacket_incomplete server_pending_def)
next
  fix p :: TransportPacket and s :: session
  assume "length (server_pending s (tp_guid p)) + 1 < unat (tp_subPacketTotalCount p)"
  then show "\<not> server_completes p s"
    by (simp only: server_completes_def of_nat_less_u64_iff less_imp_le not_not)
next
  fix p :: TransportPacket and s :: session
  assume "length (server_pending s (tp_guid p)) + 1 = unat (tp_subPacketTotalCount p)"
  then show "server_completes p s"
    by (simp only: server_completes_def of_nat_less_u64_iff)
qed

text \<open>What the operations leave alone.\<close>

lemma writeSocket_frame [simp]:
  "ss_tokenList (snd (writeSocket wr d s)) = ss_tokenList s"
  "ss_calls (snd (writeSocket wr d s)) = ss_calls s"
  "ss_data (snd (writeSocket wr d s)) = ss_data s"
  "ss_subPacketsMap (snd (writeSocket wr d s)) = ss_subPacketsMap s"
  by (simp_all add: writeSocket_def)

lemma writeAll_frame [simp]:
  "ss_tokenList (snd (writeAll wr ds s)) = ss_tokenList s"
  "ss_calls (snd (writeAll wr ds s)) = ss_calls s"
  "ss_subPacketsMap (snd (writeAll wr ds s)) = ss_subPacketsMap s"
  by (induction wr ds s rule: writeAll.induct) (auto simp: writeSocket_def split: option.splits)

lemma respond_frame [simp]:
  "ss_calls (snd (respond L key cb wr p s)) = ss_calls s @ [tp_payload p]"
  "ss_subPacketsMap (snd (respond L key cb wr p s)) = ss_subPacketsMap s"
  "ss_tokenList (snd (respond L key cb wr p s)) = ss_tokenList s"
  by (simp_all add: respond_def Let_def split: prod.split)

lemma lift_beh_snd [simp]: "snd (lift_beh rs) = snd rs"
  by (auto simp: lift_beh_def split: prod.splits sum.splits)

lemma processSubpacket_frame [simp]:
  "ss_data (snd (snd (processSubpacket L key p s))) = ss_data s"
  "ss_tokenList (snd (snd (processSubpacket L key p s))) = ss_tokenList s"
  "ss_calls (snd (snd (processSubpacket L key p s))) = ss_calls s"
  by (cases "server_completes p s";
      simp add: processSubpacket_incomplete processSubpacket_complete split: prod.split)+

lemma deliver_all_frame [simp]:
  "ss_data (fold (server_deliver L key) ps s) = ss_data s"
  "ss_tokenList (fold (server_deliver L key) ps s) = ss_tokenList s"
  "ss_calls (fold (server_deliver L key) ps s) = ss_calls s"
  by (induction ps arbitrary: s) (simp_all add: server_deliver_def)

subsection \<open>Properties\<close>

text \<open>The last subpacket of \<open>p\<close> to arrive completes it.\<close>

lemma server_completion:
  assumes "lib_ok L" and "length (toString L key p) < 2 ^ 63"
    and "length (toString L key p) mod 8000 \<noteq> 0"
    and "ss_subPacketsMap s (tp_guid p) = None" and "tp_guid r = tp_guid p"
    and "mset (filter (\<lambda>x. tp_guid x = tp_guid p) (ps @ [r])) =
      mset (subpackets_spec p (toString L key p))"
  shows "\<exists>s'. processSubpacket L key r (fold (server_deliver L key) ps s) =
      (Inr True, p\<lparr>tp_token := tp_token r\<rparr>, s')"
proof -
  let ?s = "fold (server_deliver L key) ps s"
  have none: "server_pending s (tp_guid p) = []" using assms(4) by (simp add: server_pending_def)
  note fin = server_store.interleaved_completion[OF assms(2) none assms(5,6)]
  have "fromSubpackets L key (server_pending ?s (tp_guid r) @ [r]) r =
      (Inr True, p\<lparr>tp_token := tp_token r\<rparr>, subpackets_spec p (toString L key p))"
    using fromSubpackets_permuted[OF assms(1,2) fin(2)] assms(3,5)
    by (simp add: concat_payloads_subpackets_spec fromString_toString[OF assms(1)])
  then show ?thesis by (simp add: processSubpacket_complete[OF fin(1)])
qed



text \<open>
  The whole handler on the last subpacket, for a server that accepts the empty token:
  the callback is called exactly once, with the payload of the original packet, and the
  buffer of its GUID is dropped.
\<close>

theorem server_handles_reassembled:
  assumes "lib_ok L" and "length (toString L key p) < 2 ^ 63"
    and "length (toString L key p) mod 8000 \<noteq> 0"
    and "ss_subPacketsMap s (tp_guid p) = None" and "tp_guid r = tp_guid p"
    and "mset (filter (\<lambda>x. tp_guid x = tp_guid p) (ps @ [r])) =
      mset (subpackets_spec p (toString L key p))"
    and "[] \<in> set (ss_tokenList s)"
    and "ss_data s = toString L key r @ nul # rest" and "nul \<notin> set (toString L key r)"
  shows "ss_calls (snd (handle_posted L key cb wr (fold (server_deliver L key) ps s))) =
      ss_calls s @ [tp_payload p] \<and>
    ss_subPacketsMap (snd (handle_posted L key cb wr (fold (server_deliver L key) ps s))) (tp_guid p) =
      None"
proof -
  let ?s = "fold (server_deliver L key) ps s"
  let ?r = "r\<lparr>tp_token := []\<rparr>"
  have "mset (filter (\<lambda>x. tp_guid x = tp_guid p) (ps @ [r])) =
      add_mset r (mset (filter (\<lambda>x. tp_guid x = tp_guid p) ps))" using assms(5) by simp
  then have rm: "r \<in> set (subpackets_spec p (toString L key p))"
    using assms(6) by (metis set_mset_mset union_single_eq_member add_mset_add_single union_commute)
  then have r: "?r = r" by (simp add: subpackets_spec_member)
  have "chunk_count (length (toString L key p)) < 2 ^ 64" using assms(2) by (simp add: chunk_count_def)
  then have "0 < unat (tp_subPacketTotalCount r)"
    by (simp add: subpackets_spec_member[OF rm] unat_of_nat_u64) (simp add: chunk_count_def)
  then have "0 < tp_subPacketTotalCount r" by (simp add: word_less_nat_alt)
  moreover obtain s' where s': "processSubpacket L key r ?s = (Inr True, p\<lparr>tp_token := tp_token r\<rparr>, s')"
    using server_completion[OF assms(1-6)] by blast
  moreover have "ss_calls s' = ss_calls s"
    using processSubpacket_frame(3)[of L key r ?s] s' by simp
  moreover have "fromString L key (toString L key r) new_packet = (Inr True, r)"
    using fromString_toString[OF assms(1), of key r new_packet] r by (simp add: new_packet_def)
  moreover have "tp_token r = []" using rm by (simp add: subpackets_spec_member)
  ultimately show ?thesis
    using assms(7) by (simp add: handle_posted_def assms(8) cstr_of_array_nul[OF assms(9)])
qed

lemma server_handles_reassembled_witness:
  "let p = sample_packet 2; r = nth_subpacket p 1 0 (toString sample_lib ''key'' p);
       s = (new_session [] [[]])\<lparr>ss_data := toString sample_lib ''key'' r @ [nul]\<rparr>
   in ss_calls (snd (handle_posted sample_lib ''key'' (\<lambda>x. (False, x)) (\<lambda>_. None) s)) = [''xx'']"
proof -
  let ?p = "sample_packet 2"
  let ?r = "nth_subpacket ?p 1 0 (toString sample_lib ''key'' ?p)"
  have "nul \<notin> set (toString sample_lib ''key'' ?r)" by (rule sample_no_nul)
  then show ?thesis
    using server_handles_reassembled[OF sample_lib_ok, where key = "''key''" and p = ?p and r = ?r
        and ps = "[]" and s = "(new_session [] [[]])\<lparr>ss_data := toString sample_lib ''key'' ?r @ [nul]\<rparr>"
        and rest = "[]" and cb = "\<lambda>x. (False, x)" and wr = "\<lambda>_. None"]
    by (simp add: length_sample_packet subpackets_spec_single new_session_def Let_def)
      (simp add: nth_subpacket_def sample_packet_def new_packet_def numeral_2_eq_2)
qed

lemma handle_posted_rejects:
  assumes "[] \<notin> set (ss_tokenList s)"
  shows "ss_calls (snd (handle_posted L key cb wr s)) = ss_calls s"
    and "ss_subPacketsMap (snd (handle_posted L key cb wr s)) = ss_subPacketsMap s"
    and "ss_tokenList (snd (handle_posted L key cb wr s)) = ss_tokenList s"
proof -
  have "tp_token (snd (fromString L key x new_packet)) = []" for x
    by (simp add: fromString_token) (simp add: new_packet_def)
  then have "\<And>x r q. fromString L key x new_packet = (r, q) \<Longrightarrow> tp_token q \<notin> set (ss_tokenList s)"
    using assms by (metis snd_conv)
  then show "ss_calls (snd (handle_posted L key cb wr s)) = ss_calls s"
    "ss_subPacketsMap (snd (handle_posted L key cb wr s)) = ss_subPacketsMap s"
    "ss_tokenList (snd (handle_posted L key cb wr s)) = ss_tokenList s"
    by (auto simp: handle_posted_def split: option.split sum.split prod.split bool.split)
qed

lemma session_step_quiet:
  assumes "session_step L key cb wr s t" and "[] \<notin> set (ss_tokenList s)"
  shows "ss_calls t = ss_calls s" and "ss_subPacketsMap t = ss_subPacketsMap s"
    and "ss_tokenList t = ss_tokenList s"
  using assms(1)
  by (cases rule: session_step.cases;
      use assms(2) in \<open>simp add: on_read_def readSocket_def Let_def handle_posted_rejects\<close>)+

text \<open>
  The token is not transmitted, so a deserialised request has the empty token. A
  session whose token list does not contain the empty string therefore never calls the
  packet callback and never stores a subpacket, whatever it receives, in any order.
\<close>

theorem no_request_reaches_callback:
  assumes "session_reachable L key cb wr (readSocket (new_session junk tokenList)) s" and "[] \<notin> set tokenList"
  shows "ss_calls s = [] \<and> ss_subPacketsMap s = Map.empty"
proof -
  have "ss_calls s = [] \<and> ss_subPacketsMap s = Map.empty \<and> ss_tokenList s = tokenList"
    using assms(1)
  proof (induction rule: session_reachable.induct)
    case start
    then show ?case by (simp add: new_session_def readSocket_def)
  next
    case (step s t)
    then show ?case using session_step_quiet[OF step.hyps(2)] assms(2) by simp
  qed
  then show ?thesis by blast
qed

lemma no_request_reaches_callback_witness:
  "let m = toString sample_lib ''key'' (sample_packet 2) @ [nul];
       s1 = on_read 0 m (readSocket (new_session (replicate 40 nul) [''DEVELOP_TOKEN'']));
       s2 = snd (handle_posted sample_lib ''key'' (\<lambda>x. (True, x)) (\<lambda>_. None)
         (s1\<lparr>ss_posted := ss_posted s1 - 1\<rparr>))
   in ss_calls s2 = [] \<and> ss_subPacketsMap s2 = Map.empty"
proof -
  let ?s0 = "readSocket (new_session (replicate 40 nul) [''DEVELOP_TOKEN''])"
  let ?m = "toString sample_lib ''key'' (sample_packet 2) @ [nul]"
  let ?step = "session_step sample_lib ''key'' (\<lambda>x. (True, x)) (\<lambda>_. None)"
  have 1: "?step ?s0 (on_read 0 ?m ?s0)"
    by (rule session_step.read) (simp_all add: readSocket_def new_session_def length_sample_packet)
  have 2: "?step (on_read 0 ?m ?s0) (snd (handle_posted sample_lib ''key'' (\<lambda>x. (True, x)) (\<lambda>_. None)
      ((on_read 0 ?m ?s0)\<lparr>ss_posted := ss_posted (on_read 0 ?m ?s0) - 1\<rparr>)))"
    by (rule session_step.run) (simp add: on_read_def readSocket_def Let_def)
  show ?thesis
    unfolding Let_def
    by (rule no_request_reaches_callback[OF session_reachable.step[OF session_reachable.step[OF
          session_reachable.start 1] 2]]) simp
qed

text \<open>
  A posted handler does not see the message it was posted for, but the buffer at the
  time it runs. When a second message, at least as long, arrives before the first
  handler runs, the session is as if the first had never been received, except that two
  handlers are posted: the first request is lost and the second is handled twice.
\<close>

theorem unhandled_request_overwritten:
  assumes "ec1 \<noteq> 2" and "ec2 \<noteq> 2" and "length m1 \<le> length m2"
    and "length m2 \<le> length (ss_data s)"
  shows "on_read ec2 m2 (on_read ec1 m1 s) =
      (on_read ec2 m2 s)\<lparr>ss_posted := ss_posted s + 2\<rparr> \<and>
    handle_posted L key cb wr (on_read ec2 m2 (on_read ec1 m1 s)) =
      handle_posted L key cb wr ((on_read ec2 m2 s)\<lparr>ss_posted := ss_posted s + 2\<rparr>)"
proof -
  have "overwrite m2 (overwrite m1 (ss_data s)) = overwrite m2 (ss_data s)"
    using assms(3,4) by (simp add: overwrite_def)
  then have "on_read ec2 m2 (on_read ec1 m1 s) = (on_read ec2 m2 s)\<lparr>ss_posted := ss_posted s + 2\<rparr>"
    using assms(1,2) by (simp add: on_read_def readSocket_def Let_def)
  then show ?thesis by simp
qed

lemma unhandled_request_overwritten_witness:
  "ss_data (on_read 0 [CHR ''c'', nul] (on_read 0 [CHR ''a'', nul] (new_session (replicate 9 nul) []))) =
    ss_data (on_read 0 [CHR ''c'', nul] (new_session (replicate 9 nul) []))"
  using unhandled_request_overwritten[of 0 0 "[CHR ''a'', nul]" "[CHR ''c'', nul]"
      "new_session (replicate 9 nul) []"] by (simp add: new_session_def)

text \<open>
  C19. What a posted handler parses. The peer sends no NUL, and the buffer is not cleared:
  after a message without NUL, the string handed to \<open>fromString\<close> is the message followed
  by the tail that earlier messages (or the uninitialised array) left behind it, up to
  the first NUL; without one, the conversion reads past the array.
\<close>

theorem request_has_stale_tail:
  assumes "nul \<notin> set m" and "length m \<le> length (ss_data s)"
  shows "cstr_of_array (ss_data (on_read ec m s)) =
      map_option (\<lambda>t. m @ t) (cstr_of_array (drop (length m) (ss_data s))) \<and>
    (nul \<in> set (drop (length m) (ss_data s)) \<or>
      handle_posted L key cb wr (on_read ec m s) = (UB, on_read ec m s))"
proof -
  have "ss_data (on_read ec m s) = m @ drop (length m) (ss_data s)"
    using assms(2) by (simp add: on_read_def readSocket_def overwrite_fits Let_def)
  with assms(1) show ?thesis
    by (simp add: cstr_of_array_append handle_posted_def) (simp add: cstr_of_array_def)
qed

lemma request_has_stale_tail_witness:
  "cstr_of_array (ss_data (on_read 0 ''AB'' (on_read 0 ''wxyz'' (new_session (replicate 9 nul) [])))) =
    Some ''AByz''"
  using request_has_stale_tail[of "''AB''" "on_read 0 ''wxyz'' (new_session (replicate 9 nul) [])" 0]
  by (simp add: on_read_def readSocket_def overwrite_def new_session_def numeral_eq_Suc nul_def
      cstr_of_array_def c_str_def Let_def)

text \<open>
  C11. A failed reassembly is not noticed: \<open>processSubpacket\<close> discards the result of
  \<open>fromSubpackets\<close>, so the callback is called with the payload the packet object holds
  then, which is the fragment's own when the decoding stopped before the archive.
\<close>

theorem failed_reassembly_handled:
  assumes "fromString L key x new_packet = (Inr True, r)" and "cstr_of_array (ss_data s) = Some x"
    and "tp_token r \<in> set (ss_tokenList s)" and "0 < tp_subPacketTotalCount r"
    and "server_completes r s"
    and "fromSubpackets L key (server_pending s (tp_guid r) @ [r]) r = (Inr False, r', v)"
  shows "ss_calls (snd (handle_posted L key cb wr s)) = ss_calls s @ [tp_payload r']"
  using assms by (simp add: handle_posted_def processSubpacket_complete)

lemma failed_reassembly_handled_witness:
  "let r = nth_subpacket (sample_packet 2) 1 0 ''?'';
       s = (new_session [] [[]])\<lparr>ss_data := toString sample_lib ''key'' r @ [nul]\<rparr>
   in ss_calls (snd (handle_posted sample_lib ''key'' (\<lambda>x. (False, x)) (\<lambda>_. None) s)) = [''?'']"
proof -
  let ?r = "nth_subpacket (sample_packet 2) 1 0 ''?''"
  let ?x = "toString sample_lib ''key'' ?r"
  have r: "fromString sample_lib ''key'' ?x new_packet = (Inr True, ?r)"
    by (simp add: fromString_toString[OF sample_lib_ok]) (simp add: nth_subpacket_def new_packet_def)
  have x: "nul \<notin> set ?x" by (rule sample_no_nul)
  have "fromSubpackets sample_lib ''key'' [?r] ?r = (Inr False, ?r, [?r])"
    by (simp add: fromSubpackets_def fromString_def sample_lib_def load_fields_self[OF refl]
        nth_subpacket_def new_packet_def del: load_fields.simps)
  then show ?thesis
    using failed_reassembly_handled[OF r, where wr = "\<lambda>_. None" and cb = "\<lambda>x. (False, x)"
        and s = "(new_session [] [[]])\<lparr>ss_data := ?x @ [nul]\<rparr>" and r' = ?r and v = "[?r]"] x
    by (simp add: new_session_def cstr_of_array_nul server_completes_def server_pending_def Let_def
        nth_subpacket_def new_packet_def)
qed

subsection \<open>Asynchronous writes\<close>

text \<open>
  \<open>writeSocketAsync\<close> hands the operating system a view of the caller's string, not a copy:
  a pending write is the address of that string. When the write is made, the string is read
  at its address in the \<open>store\<close> of live strings, and \<open>n\<close> bytes of it at most are sent; the
  rest is not sent by anyone, and an error is only logged. Nothing calls the function.
\<close>

definition writeSocketAsync :: "nat \<Rightarrow> nat list \<Rightarrow> nat list" where
  "writeSocketAsync dataStr pending = pending @ [dataStr]"

definition on_async_written :: "(nat \<rightharpoonup> string) \<Rightarrow> nat \<Rightarrow> nat list \<Rightarrow> session \<Rightarrow> (nat list \<times> session) beh" where
  "on_async_written store n pending s =
     (case pending of
        [] \<Rightarrow> Returns ([], s)
      | a # rest \<Rightarrow> (case store a of None \<Rightarrow> UB
          | Some d \<Rightarrow> Returns (rest, s\<lparr>ss_written := ss_written s @ [take n d]\<rparr>)))"

lemma async_write_order:
  "on_async_written store n (writeSocketAsync a []) s =
     (case store a of None \<Rightarrow> UB | Some d \<Rightarrow> Returns ([], s\<lparr>ss_written := ss_written s @ [take n d]\<rparr>))"
  "on_async_written store n (writeSocketAsync a (b # bs)) s =
     (case store b of None \<Rightarrow> UB
      | Some d \<Rightarrow> Returns (writeSocketAsync a bs, s\<lparr>ss_written := ss_written s @ [take n d]\<rparr>))"
  by (simp_all add: on_async_written_def writeSocketAsync_def split: option.split)

text \<open>A string that is gone when its write is made, as a temporary is, makes it undefined.\<close>

lemma async_write_of_temporary:
  "store a = None \<Longrightarrow> on_async_written store n (writeSocketAsync a []) s = UB"
  by (simp add: async_write_order)

end
