(* ===== verification/Transport_Server.thy ===== *)
theory Transport_Server
  imports Transport_Session
begin

text \<open>
  The transport server (\<^verbatim>\<open>Legacy/Transport/TransportServer/transportserver.cpp\<close>): its
  configuration, the token list, the accept loop that creates sessions, and the threads
  that run them. Sessions hold a reference to the server's token list, so a later
  \<open>loadTokens\<close> is seen by all of them.
\<close>

record tserver =
  ts_port :: u16
  ts_callbackSet :: bool
  ts_tokenList :: "string list"
  ts_threadCount :: u64
  ts_threadPool :: nat
  ts_acceptor :: "u16 option"
  ts_accepting :: bool
  ts_sessions :: "session list"

definition new_tserver :: tserver where
  "new_tserver = \<lparr>ts_port = 9020, ts_callbackSet = False, ts_tokenList = [], ts_threadCount = 1,
     ts_threadPool = 0, ts_acceptor = None, ts_accepting = False, ts_sessions = []\<rparr>"

definition setPort :: "u16 \<Rightarrow> tserver \<Rightarrow> tserver" where
  "setPort portNo s = s\<lparr>ts_port := portNo\<rparr>"

definition setThreadCount :: "u64 \<Rightarrow> tserver \<Rightarrow> tserver" where
  "setThreadCount threadCount s = s\<lparr>ts_threadCount := threadCount\<rparr>"

definition loadTokens :: "string \<Rightarrow> tserver \<Rightarrow> tserver" where
  "loadTokens filePath s =
     (let tokens = ts_tokenList s @ [''DEVELOP_TOKEN'']
      in s\<lparr>ts_tokenList := tokens,
           ts_sessions := map (\<lambda>x. x\<lparr>ss_tokenList := tokens\<rparr>) (ts_sessions s)\<rparr>)"

text \<open>
  The accept loop. \<open>accept_error\<close> is the error code's truth value, \<open>junk\<close> the
  uninitialised buffer of the new session.
\<close>

definition handleConnections :: "tserver \<Rightarrow> tserver" where
  "handleConnections s = s\<lparr>ts_accepting := True\<rparr>"

definition on_accept :: "bool \<Rightarrow> char list \<Rightarrow> tserver \<Rightarrow> tserver" where
  "on_accept accept_error junk s =
     (let s1 = s\<lparr>ts_accepting := False\<rparr>;
          s2 = (if \<not> accept_error
                then s1\<lparr>ts_sessions := ts_sessions s1 @ [readSocket (new_session junk (ts_tokenList s1))]\<rparr>
                else s1)
      in handleConnections s2)"

text \<open>\<open>bind_fault\<close> is what the acceptor's constructor or \<^verbatim>\<open>set_option\<close> throws, if anything.\<close>

definition init :: "exn option \<Rightarrow> tserver \<Rightarrow> int res \<times> tserver" where
  "init bind_fault s =
     (let s1 = s\<lparr>ts_callbackSet := True\<rparr>
      in case bind_fault of
           Some e \<Rightarrow> (Inl e, s1)
         | None \<Rightarrow> (Inr 0, handleConnections (s1\<lparr>ts_acceptor := Some (ts_port s1)\<rparr>)))"

definition start :: "tserver \<Rightarrow> tserver" where
  "start s = s\<lparr>ts_threadPool := ts_threadPool s + unat (ts_threadCount s)\<rparr>"

text \<open>Everything that can happen to a server, on one processing thread.\<close>

inductive tserver_step ::
  "lib \<Rightarrow> string \<Rightarrow> packet_callback \<Rightarrow> write_fault \<Rightarrow> tserver \<Rightarrow> tserver \<Rightarrow> bool"
  for L key cb wr where
  set_port: "tserver_step L key cb wr s (setPort p s)"
| set_threads: "tserver_step L key cb wr s (setThreadCount n s)"
| load: "tserver_step L key cb wr s (loadTokens f s)"
| initialise: "tserver_step L key cb wr s (snd (init e s))"
| run: "tserver_step L key cb wr s (start s)"
| accept: "ts_accepting s \<Longrightarrow> length junk = dataBufferSize \<Longrightarrow>
     tserver_step L key cb wr s (on_accept e junk s)"
| session: "i < length (ts_sessions s) \<Longrightarrow> session_step L key cb wr (ts_sessions s ! i) t \<Longrightarrow>
     tserver_step L key cb wr s (s\<lparr>ts_sessions := (ts_sessions s)[i := t]\<rparr>)"

inductive tserver_reachable ::
  "lib \<Rightarrow> string \<Rightarrow> packet_callback \<Rightarrow> write_fault \<Rightarrow> tserver \<Rightarrow> bool"
  for L key cb wr where
  new: "tserver_reachable L key cb wr new_tserver"
| step: "tserver_reachable L key cb wr s \<Longrightarrow> tserver_step L key cb wr s t \<Longrightarrow>
     tserver_reachable L key cb wr t"

text \<open>
  The invariant: only the development token is ever loaded, all sessions see the server's
  list, none has called the callback or stored a subpacket.
\<close>

definition tserver_inv :: "tserver \<Rightarrow> bool" where
  "tserver_inv s \<longleftrightarrow> set (ts_tokenList s) \<subseteq> {''DEVELOP_TOKEN''} \<and>
     (\<forall>x \<in> set (ts_sessions s). ss_tokenList x = ts_tokenList s \<and> ss_calls x = [] \<and>
        ss_subPacketsMap x = Map.empty)"

lemma tserver_step_inv:
  assumes "tserver_step L key cb wr s t" and "tserver_inv s"
  shows "tserver_inv t"
  using assms
proof (induction rule: tserver_step.induct)
  case (session i s t)
  let ?x = "ts_sessions s ! i"
  have "?x \<in> set (ts_sessions s)" using session(1) by simp
  with session(3) have x: "ss_tokenList ?x = ts_tokenList s" "ss_calls ?x = []"
    "ss_subPacketsMap ?x = Map.empty" and tk: "[] \<notin> set (ss_tokenList ?x)"
    by (auto simp: tserver_inv_def)
  from session_step_quiet[OF session(2) tk] x session(3) show ?case
    by (auto simp: tserver_inv_def dest: set_update_subset_insert[THEN subsetD])
qed (auto simp: tserver_inv_def setPort_def setThreadCount_def loadTokens_def init_def start_def
    handleConnections_def on_accept_def readSocket_def new_session_def Let_def split: option.split)

lemma tserver_reachable_inv: "tserver_reachable L key cb wr s \<Longrightarrow> tserver_inv s"
proof (induction rule: tserver_reachable.induct)
  case new
  show ?case by (simp add: tserver_inv_def new_tserver_def)
next
  case (step s t)
  then show ?case by (blast intro: tserver_step_inv)
qed

text \<open>
  No request ever reaches the packet callback of a transport server: in every state
  reachable by configuring, initialising and running it, accepting connections and
  receiving anything on them, no session has called it. (The only token the server ever
  loads is not the empty one a request arrives with.)
\<close>

theorem tserver_never_calls_back:
  assumes "tserver_reachable L key cb wr s"
  shows "\<forall>x \<in> set (ts_sessions s). ss_calls x = []"
  using tserver_reachable_inv[OF assms] by (simp add: tserver_inv_def)

lemma tserver_never_calls_back_witness:
  "let s = on_accept False (replicate dataBufferSize nul) (snd (init None (loadTokens [] new_tserver)))
   in ts_sessions s \<noteq> [] \<and> (\<forall>x \<in> set (ts_sessions s). ss_calls x = [])"
proof -
  let ?s1 = "snd (init None (loadTokens [] new_tserver))"
  let ?s2 = "on_accept False (replicate dataBufferSize nul) ?s1"
  let ?step = "tserver_step sample_lib [] (\<lambda>x. (True, x)) (\<lambda>_. None)"
  have "?step new_tserver (loadTokens [] new_tserver)" by (rule tserver_step.load)
  moreover have "?step (loadTokens [] new_tserver) ?s1" by (rule tserver_step.initialise)
  moreover have "?step ?s1 ?s2"
    by (rule tserver_step.accept) (simp_all add: init_def handleConnections_def Let_def)
  ultimately have "tserver_reachable sample_lib [] (\<lambda>x. (True, x)) (\<lambda>_. None) ?s2"
    by (meson tserver_reachable.intros)
  from tserver_never_calls_back[OF this] show ?thesis by (simp add: on_accept_def handleConnections_def Let_def)
qed

end
