(* ===== verification/Transport_System.thy ===== *)
theory Transport_System
  imports Transport_Client Transport_Server
begin

text \<open>
  Client and server of the transport layer together: what a client's request puts on the
  wire is what a server session turns back into the request data.
\<close>

lemma fold_send: "tc_sent (fold send xs c) = tc_sent c @ map c_str xs"
  by (induction xs arbitrary: c) (simp_all add: send_def)

definition decoded :: "lib \<Rightarrow> string \<Rightarrow> string \<Rightarrow> TransportPacket" where
  "decoded L key x = snd (fromString L key x new_packet)"



end
