(* ===== verification/Transport_Client_Calls.thy ===== *)
theory Transport_Client_Calls
  imports Transport_Client
begin

text \<open>
  The transport client as its users see it
  (\<^verbatim>\<open>Legacy/Transport/TransportClient/transportclient.h\<close>): its methods as a type of calls,
  the events of its socket, and what holds of the client however the two are interleaved. The
  operations are those of \<open>Transport_Client\<close>.
\<close>

subsection \<open>Calls and events\<close>

datatype tclient_call =
    Connect_to_host
  | Is_connected
  | Disconnect_from_host
  | Set_token string
  | Set_address string u16
  | Set_processor "(string \<Rightarrow> bool \<times> string) option"
  | Set_error_callback bool
  | Request string

text \<open>The answers of the socket, and the key of the next GUID.\<close>

record tclient_env =
  tce_conn :: bool
  tce_left :: bool
  tce_rnd :: string

datatype tclient_answer = Nothing | Answer bool | Threw exn

definition of_res :: "unit res \<times> tclient \<Rightarrow> tclient_answer \<times> tclient" where
  "of_res r = (case fst r of Inl e \<Rightarrow> Threw e | Inr u \<Rightarrow> Nothing, snd r)"

fun do_tclient_call :: "lib \<Rightarrow> string \<Rightarrow> tclient_env \<Rightarrow> tclient_call \<Rightarrow> tclient \<Rightarrow> tclient_answer \<times> tclient" where
  "do_tclient_call L key env Connect_to_host c = (case connectToHost (tce_conn env) c of (b, d) \<Rightarrow> (Answer b, d))"
| "do_tclient_call L key env Is_connected c = (Answer (isConnected c), c)"
| "do_tclient_call L key env Disconnect_from_host c = (Nothing, disconnectFromHost (tce_left env) c)"
| "do_tclient_call L key env (Set_token t) c = (Nothing, setToken t c)"
| "do_tclient_call L key env (Set_address h p) c = (Nothing, setAddress h p c)"
| "do_tclient_call L key env (Set_processor f) c = (Nothing, setProcessor f c)"
| "do_tclient_call L key env (Set_error_callback b) c = (Nothing, setErrorCallback b c)"
| "do_tclient_call L key env (Request d) c = of_res (request L key (tce_conn env) (tce_rnd env) d c)"

text \<open>A call, a response, or the loss of the connection.\<close>

datatype tclient_act = Call tclient_call | Response string | Lost

fun do_tclient_act :: "lib \<Rightarrow> string \<Rightarrow> tclient_env \<Rightarrow> tclient_act \<Rightarrow> tclient \<Rightarrow> tclient_answer \<times> tclient" where
  "do_tclient_act L key env (Call x) c = do_tclient_call L key env x c"
| "do_tclient_act L key env (Response d) c =
     (if isConnected c then of_res (gotResponse L key d c) else (Nothing, c))"
| "do_tclient_act L key env Lost c = (Nothing, c\<lparr>tc_connected := False\<rparr>)"

fun tclient_acts :: "lib \<Rightarrow> string \<Rightarrow> (tclient_env \<times> tclient_act) list \<Rightarrow> tclient \<Rightarrow> tclient_answer list \<times> tclient" where
  "tclient_acts L key [] c = ([], c)"
| "tclient_acts L key ((env, x) # xs) c =
     (case do_tclient_act L key env x c of (a, d) \<Rightarrow> case tclient_acts L key xs d of (as, e) \<Rightarrow> (a # as, e))"

subsection \<open>Configuration of a connected client\<close>

definition configured :: "tclient \<Rightarrow> bool" where
  "configured c \<longleftrightarrow> tc_serverPort c \<noteq> 0 \<and> tc_processorCallback c \<noteq> None"

definition tclient_inv :: "tclient \<Rightarrow> bool" where
  "tclient_inv c \<longleftrightarrow> (tc_connected c \<longrightarrow> configured c)"

text \<open>What the client keeps while it handles a request or a response.\<close>

definition same_config :: "tclient \<Rightarrow> tclient \<Rightarrow> bool" where
  "same_config c d \<longleftrightarrow> tc_serverPort d = tc_serverPort c \<and> tc_processorCallback d = tc_processorCallback c \<and>
     tc_connected d = tc_connected c"

lemma same_config_inv: "same_config c d \<Longrightarrow> tclient_inv c \<Longrightarrow> tclient_inv d"
  by (simp add: same_config_def tclient_inv_def configured_def)

lemma same_config_trans: "same_config c d \<Longrightarrow> same_config d e \<Longrightarrow> same_config c e"
  by (simp add: same_config_def)

lemma same_config_simps [simp]:
  "same_config c c" "same_config c (send x c)" "same_config c (error m c)"
  "same_config c (c\<lparr>tc_subpacketVectors := v\<rparr>)" "same_config c (snd (call_processor x c))"
  by (simp_all add: same_config_def send_def error_def call_processor_def split: option.split)

lemma fold_send_config: "same_config c (fold send xs c)"
  by (induction xs arbitrary: c) (auto intro: same_config_trans[OF same_config_simps(2)])

lemma processSubpacket_config: "same_config c (snd (processSubpacket L key p c))"
  by (auto simp: processSubpacket_def same_config_def call_processor_def send_def Let_def
      split: prod.split sum.split option.split)

lemma call_processor_config: "call_processor x c = (r, d) \<Longrightarrow> same_config c d \<and> same_config c (send y d)"
  by (auto simp: same_config_def call_processor_def send_def split: option.splits)

lemma gotResponse_config: "same_config c (snd (gotResponse L key d c))"
  using processSubpacket_config
  by (auto simp: gotResponse_def dest: call_processor_config split: prod.split sum.split bool.split)

lemma connectToHost_inv: "tclient_inv c \<Longrightarrow> tclient_inv (snd (connectToHost b c))"
  by (auto simp: connectToHost_def tclient_inv_def configured_def error_def Let_def)

lemma request_inv:
  assumes "tclient_inv c"
  shows "tclient_inv (snd (request L key b rnd d c))"
proof -
  obtain ok c1 where c1: "connectToHost b c = (ok, c1)" by fastforce
  then have inv: "tclient_inv c1" using connectToHost_inv[OF assms, of b] by simp
  have "same_config c1 (snd (request L key b rnd d c))"
    using fold_send_config by (auto simp: request_def c1 Let_def split: sum.split bool.split)
  then show ?thesis using inv by (rule same_config_inv)
qed

lemma tclient_act_inv:
  assumes "tclient_inv c"
  shows "tclient_inv (snd (do_tclient_act L key env x c))"
proof (cases x)
  case (Call y)
  show ?thesis
  proof (cases y)
    case Connect_to_host
    then show ?thesis using Call connectToHost_inv[OF assms] by (simp add: case_prod_beta)
  next
    case (Request d)
    then show ?thesis using Call request_inv[OF assms] by (simp add: of_res_def)
  qed (use Call assms in \<open>auto simp: tclient_inv_def configured_def disconnectFromHost_def setToken_def setAddress_def
      setProcessor_def setErrorCallback_def error_def isConnected_def\<close>)
next
  case (Response d)
  then show ?thesis using assms same_config_inv[OF gotResponse_config] by (simp add: of_res_def)
next
  case Lost
  then show ?thesis by (simp add: tclient_inv_def)
qed

lemma tclient_acts_inv: "tclient_inv c \<Longrightarrow> tclient_inv (snd (tclient_acts L key xs c))"
proof (induction xs arbitrary: c)
  case (Cons ex xs)
  obtain env x where ex: "ex = (env, x)" by fastforce
  show ?case using Cons.IH[OF tclient_act_inv[OF Cons.prems]] ex by (simp add: case_prod_beta)
qed simp

subsection \<open>Properties\<close>

text \<open>
  A connected client is configured. However calls, responses and losses of the connection are
  interleaved, a client that is connected has a port and a processor, and for every response
  it gets then the processor it calls is one that was set: no response ends in a call of an
  empty function.
\<close>

theorem connected_client_is_configured:
  assumes "isConnected (snd (tclient_acts L key xs new_tclient))"
  shows "tc_serverPort (snd (tclient_acts L key xs new_tclient)) \<noteq> 0 \<and>
    (\<exists>f. tc_processorCallback (snd (tclient_acts L key xs new_tclient)) = Some f \<and>
      (\<forall>payload. fst (call_processor payload (snd (tclient_acts L key xs new_tclient))) = Inr (f payload)))"
proof -
  have "tclient_inv (snd (tclient_acts L key xs new_tclient))"
    by (rule tclient_acts_inv) (simp add: tclient_inv_def new_tclient_def)
  then show ?thesis using assms
    by (auto simp: tclient_inv_def configured_def isConnected_def call_processor_def)
qed

lemma connected_client_is_configured_witness:
  "let env = \<lparr>tce_conn = True, tce_left = True, tce_rnd = []\<rparr>;
       c = snd (tclient_acts sample_lib ''key'' [(env, Call (Set_token ''T'')), (env, Call (Set_address ''h'' 7)),
         (env, Call (Set_processor (Some (\<lambda>x. (False, x))))), (env, Call Connect_to_host),
         (env, Call (Set_processor None))] new_tclient)
   in isConnected c \<and> tc_serverPort c = 7 \<and> fst (call_processor ''x'' c) = Inr (False, ''x'')"
proof -
  let ?env = "\<lparr>tce_conn = True, tce_left = True, tce_rnd = []\<rparr>"
  let ?xs = "[(?env, Call (Set_token ''T'')), (?env, Call (Set_address ''h'' 7)),
         (?env, Call (Set_processor (Some (\<lambda>x. (False, x))))), (?env, Call Connect_to_host),
         (?env, Call (Set_processor None))]"
  let ?c = "snd (tclient_acts sample_lib ''key'' ?xs new_tclient)"
  have c: "isConnected ?c" "tc_serverPort ?c = 7" "tc_processorCallback ?c = Some (\<lambda>x. (False, x))"
    by (simp_all add: new_tclient_def setToken_def setAddress_def setProcessor_def connectToHost_def isConnected_def
        error_def Let_def)
  from connected_client_is_configured[OF c(1)] have "fst (call_processor ''x'' ?c) = Inr (False, ''x'')"
    using c(3) by auto
  then show ?thesis using c(1,2) unfolding Let_def by blast
qed

end
