(* ===== verification/Transport_Exchange.thy ===== *)
theory Transport_Exchange
  imports Transport_System Transport_Client_Calls
begin

text \<open>
  One connection between a transport client and a session of the server
  (\<^verbatim>\<open>Legacy/Transport/TransportClient\<close>, \<^verbatim>\<open>Legacy/Transport/TransportServer\<close>): the two ends joined by
  streams that deliver bytes in order, in whatever pieces the reader finds. What a request comes to,
  with and without the empty token in the list of the server.
\<close>

subsection \<open>The connection\<close>

record transport_link =
  xl_client :: tclient
  xl_session :: session
  xl_up :: string
  xl_down :: string

definition new_transport_link :: "tclient \<Rightarrow> session \<Rightarrow> transport_link" where
  "new_transport_link c s = \<lparr>xl_client = c, xl_session = s, xl_up = [], xl_down = []\<rparr>"

text \<open>What an end has written in going to its new state is on its stream.\<close>

definition client_moves :: "tclient \<Rightarrow> transport_link \<Rightarrow> transport_link" where
  "client_moves c l = l\<lparr>xl_client := c,
     xl_up := xl_up l @ concat (drop (length (tc_sent (xl_client l))) (tc_sent c))\<rparr>"

definition session_moves :: "session \<Rightarrow> transport_link \<Rightarrow> transport_link" where
  "session_moves s l = l\<lparr>xl_session := s,
     xl_down := xl_down l @ concat (drop (length (ss_written (xl_session l))) (ss_written s))\<rparr>"

definition session_reads :: "nat \<Rightarrow> transport_link \<Rightarrow> transport_link" where
  "session_reads n l = l\<lparr>xl_session := on_read 0 (take n (xl_up l)) (xl_session l), xl_up := drop n (xl_up l)\<rparr>"

definition run_posted ::
  "lib \<Rightarrow> string \<Rightarrow> packet_callback \<Rightarrow> write_fault \<Rightarrow> session \<Rightarrow> session" where
  "run_posted L key cb wr s = snd (handle_posted L key cb wr (s\<lparr>ss_posted := ss_posted s - 1\<rparr>))"

text \<open>
  The steps while the connection lasts: attempts to connect find the client connected, and it
  does not disconnect.
\<close>

inductive transport_link_step ::
  "lib \<Rightarrow> string \<Rightarrow> packet_callback \<Rightarrow> write_fault \<Rightarrow> transport_link \<Rightarrow> transport_link \<Rightarrow> bool"
  for L key cb wr where
  calls: "tce_conn env \<Longrightarrow> x \<noteq> Disconnect_from_host \<Longrightarrow>
     transport_link_step L key cb wr l (client_moves (snd (do_tclient_call L key env x (xl_client l))) l)"
| reads: "ss_reading (xl_session l) \<Longrightarrow> 0 < n \<Longrightarrow> n \<le> length (xl_up l) \<Longrightarrow> n \<le> length (ss_data (xl_session l)) \<Longrightarrow>
     transport_link_step L key cb wr l (session_reads n l)"
| handles: "0 < ss_posted (xl_session l) \<Longrightarrow>
     transport_link_step L key cb wr l (session_moves (run_posted L key cb wr (xl_session l)) l)"
| responses: "tc_connected (xl_client l) \<Longrightarrow> 0 < n \<Longrightarrow> n \<le> length (xl_down l) \<Longrightarrow>
     transport_link_step L key cb wr l
       (client_moves (snd (gotResponse L key (take n (xl_down l)) (xl_client l))) (l\<lparr>xl_down := drop n (xl_down l)\<rparr>))"

subsection \<open>The steps of an undivided request\<close>

lemma hex_c_str: "\<forall>x. nul \<notin> set (encodeHex L x) \<Longrightarrow> c_str (toString L key p) = toString L key p"
  by (simp add: toString_def c_str_id)

lemma small_request:
  assumes "\<forall>x. nul \<notin> set (encodeHex L x)"
    and "tc_token c \<noteq> []" and "configured c" and "generateGuid L rnd = Inr g" and "length d \<le> 8000"
  shows "snd (request L key True rnd d c) = c\<lparr>tc_connected := True, tc_sent := tc_sent c @
    [toString L key (new_packet\<lparr>tp_token := tc_token c, tp_guid := g, tp_payload := d\<rparr>)]\<rparr>"
  using assms
  by (auto simp: request_def connectToHost_def isConnected_def configured_def mustBeSeparated_def MAX_PACKET_SIZE_B_def
      send_def hex_c_str Let_def)

lemma posted_packet:
  assumes "lib_ok L" and "nul \<notin> set (toString L key p)" and "ss_data s = toString L key p @ nul # rest"
    and "tp_subPacketTotalCount p = 0"
  shows "run_posted L key cb wr s =
    (if [] \<in> set (ss_tokenList s)
     then snd (respond L key cb wr (p\<lparr>tp_token := []\<rparr>) (s\<lparr>ss_posted := ss_posted s - 1\<rparr>))
     else snd (writeSocket wr (toString L key (p\<lparr>tp_token := []\<rparr>)) (s\<lparr>ss_posted := ss_posted s - 1\<rparr>)))"
proof -
  have "fromString L key (toString L key p) new_packet = (Inr True, p\<lparr>tp_token := []\<rparr>)"
    by (simp add: fromString_toString[OF assms(1)]) (simp add: new_packet_def)
  moreover have "tp_subPacketTotalCount (p\<lparr>tp_token := []\<rparr>) = 0" using assms(4) by simp
  ultimately show ?thesis
    by (simp add: run_posted_def handle_posted_def assms(3) cstr_of_array_nul[OF assms(2)])
qed

lemma got_undivided:
  assumes "lib_ok L" and "tc_processorCallback c = Some f" and "tp_subPacketTotalCount p = 0"
  shows "snd (gotResponse L key (toString L key p) c) =
    (let c1 = c\<lparr>tc_calls := tc_calls c @ [tp_payload p]\<rparr> in
     if fst (f (tp_payload p)) then send (snd (f (tp_payload p))) c1 else c1)"
proof -
  have "fromString L key (toString L key p) new_packet = (Inr True, p\<lparr>tp_token := []\<rparr>)"
    by (simp add: fromString_toString[OF assms(1)]) (simp add: new_packet_def)
  then show ?thesis using assms(2,3)
    by (cases "f (tp_payload p)") (simp add: gotResponse_def call_processor_def Let_def)
qed

text \<open>The request, read whole into a buffer that has a NUL behind it.\<close>

lemma request_posted:
  assumes "\<forall>x. nul \<notin> set (encodeHex L x)" and "tc_token c \<noteq> []" and "configured c"
    and "generateGuid L rnd = Inr g" and "length d \<le> 8000"
    and x: "x = toString L key (new_packet\<lparr>tp_token := tc_token c, tp_guid := g, tp_payload := d\<rparr>)" and "x \<noteq> []"
    and "ss_reading s" and "length x \<le> length (ss_data s)"
  shows "(transport_link_step L key cb wr)\<^sup>*\<^sup>* (new_transport_link c s)
    \<lparr>xl_client = c\<lparr>tc_connected := True, tc_sent := tc_sent c @ [x]\<rparr>, xl_session = on_read 0 x s, xl_up = [], xl_down = []\<rparr>"
proof -
  let ?c = "c\<lparr>tc_connected := True, tc_sent := tc_sent c @ [x]\<rparr>"
  let ?env = "\<lparr>tce_conn = True, tce_left = False, tce_rnd = rnd\<rparr>"
  let ?a = "client_moves ?c (new_transport_link c s)"
  have "snd (do_tclient_call L key ?env (Request d) c) = ?c"
    using small_request[OF assms(1-5), of key] x by (simp add: of_res_def)
  then have "transport_link_step L key cb wr (new_transport_link c s) ?a"
    using transport_link_step.calls[of ?env "Request d" L key cb wr "new_transport_link c s"]
    by (simp add: new_transport_link_def)
  moreover have "transport_link_step L key cb wr ?a (session_reads (length x) ?a)"
    by (rule transport_link_step.reads) (use assms(7-9) in \<open>simp_all add: client_moves_def new_transport_link_def\<close>)
  ultimately show ?thesis
    by (rule converse_rtranclp_into_rtranclp[OF _ r_into_rtranclp, THEN back_subst[of "\<lambda>l. rtranclp _ _ l"]])
      (simp add: session_reads_def client_moves_def new_transport_link_def)
qed

text \<open>The handler runs, writes \<open>y\<close>, and the client reads it whole.\<close>

lemma response_read:
  assumes "ss_written (run_posted L key cb wr s) = ss_written s @ [y]" and "y \<noteq> []"
    and "0 < ss_posted s" and "tc_connected c"
  shows "\<exists>l. (transport_link_step L key cb wr)\<^sup>*\<^sup>* \<lparr>xl_client = c, xl_session = s, xl_up = [], xl_down = []\<rparr> l \<and>
    xl_client l = snd (gotResponse L key y c) \<and> xl_session l = run_posted L key cb wr s \<and> xl_down l = []"
proof -
  let ?l = "\<lparr>xl_client = c, xl_session = s, xl_up = [], xl_down = []\<rparr>"
  let ?a = "session_moves (run_posted L key cb wr s) ?l"
  let ?b = "client_moves (snd (gotResponse L key y c)) (?a\<lparr>xl_down := []\<rparr>)"
  have a: "xl_down ?a = y" "xl_client ?a = c" "xl_session ?a = run_posted L key cb wr s"
    using assms(1) by (simp_all add: session_moves_def)
  have "transport_link_step L key cb wr ?l ?a"
    using transport_link_step.handles[of ?l L key cb wr] assms(3) by simp
  moreover have "transport_link_step L key cb wr ?a ?b"
    using transport_link_step.responses[of ?a "length y" L key cb wr] assms(2,4) a by simp
  ultimately have "(transport_link_step L key cb wr)\<^sup>*\<^sup>* ?l ?b"
    by (meson converse_rtranclp_into_rtranclp rtranclp.rtrancl_refl)
  moreover have "xl_client ?b = snd (gotResponse L key y c)" "xl_session ?b = run_posted L key cb wr s" "xl_down ?b = []"
    by (simp_all add: client_moves_def a(3))
  ultimately show ?thesis by blast
qed

text \<open>A buffer that has a NUL behind the first \<open>n\<close> characters.\<close>

definition nul_behind :: "nat \<Rightarrow> char list \<Rightarrow> bool" where
  "nul_behind n buf \<longleftrightarrow> n < length buf \<and> buf ! n = nul"

lemma read_fields:
  "ss_posted (on_read 0 x s) = Suc (ss_posted s)" "ss_written (on_read 0 x s) = ss_written s"
  "ss_calls (on_read 0 x s) = ss_calls s" "ss_tokenList (on_read 0 x s) = ss_tokenList s"
  by (simp_all add: on_read_def readSocket_def Let_def)

lemma read_data:
  assumes "nul_behind (length x) (ss_data s)"
  shows "ss_data (on_read 0 x s) = x @ nul # drop (Suc (length x)) (ss_data s)"
  using assms by (simp add: on_read_def readSocket_def nul_behind_def overwrite_fits Cons_nth_drop_Suc[symmetric] Let_def)

lemma request_exchange:
  assumes "\<forall>x. nul \<notin> set (encodeHex L x)" and "tc_token c \<noteq> []" and "configured c"
    and "generateGuid L rnd = Inr g" and "length d \<le> 8000"
    and "x = toString L key (new_packet\<lparr>tp_token := tc_token c, tp_guid := g, tp_payload := d\<rparr>)" and "x \<noteq> []"
    and "ss_reading s" and "nul_behind (length x) (ss_data s)"
    and "ss_written (run_posted L key cb wr (on_read 0 x s)) = ss_written (on_read 0 x s) @ [y]" and "y \<noteq> []"
  shows "\<exists>l. (transport_link_step L key cb wr)\<^sup>*\<^sup>* (new_transport_link c s) l \<and>
    xl_client l = snd (gotResponse L key y (c\<lparr>tc_connected := True, tc_sent := tc_sent c @ [x]\<rparr>)) \<and>
    xl_session l = run_posted L key cb wr (on_read 0 x s)"
proof -
  have "length x \<le> length (ss_data s)" using assms(9) by (simp add: nul_behind_def)
  from request_posted[OF assms(1-8) this, of cb wr]
    response_read[OF assms(10,11), of "c\<lparr>tc_connected := True, tc_sent := tc_sent c @ [x]\<rparr>"]
  show ?thesis by (auto simp: read_fields intro: rtranclp_trans)
qed

lemma rejecting_session_keeps:
  assumes "(transport_link_step L key cb wr)\<^sup>*\<^sup>* (new_transport_link c s) l" and "[] \<notin> set (ss_tokenList s)"
  shows "ss_tokenList (xl_session l) = ss_tokenList s \<and> ss_calls (xl_session l) = ss_calls s"
  using assms(1)
proof (induction rule: rtranclp_induct)
  case (step l m)
  then have "[] \<notin> set (ss_tokenList (xl_session l))" using assms(2) by simp
  with step.hyps(2) step.IH show ?case
    by (cases rule: transport_link_step.cases)
      (simp_all add: client_moves_def session_moves_def session_reads_def read_fields run_posted_def handle_posted_rejects)
qed (simp add: new_transport_link_def)

subsection \<open>Properties\<close>



text \<open>A configured client, and a new session with an empty buffer.\<close>

definition sample_tclient :: tclient where
  "sample_tclient = new_tclient\<lparr>tc_token := ''T'', tc_serverPort := 9020, tc_processorCallback := Some (\<lambda>x. (False, x))\<rparr>"

definition sample_tsession :: "string list \<Rightarrow> session" where
  "sample_tsession tokens = readSocket (new_session (replicate dataBufferSize nul) tokens)"

lemma sample_exchange_facts:
  "tc_token sample_tclient = ''T''" "tc_serverPort sample_tclient = 9020" "tc_calls sample_tclient = []"
  "tc_processorCallback sample_tclient = Some (\<lambda>x. (False, x))" "tc_errors sample_tclient = []" "tc_sent sample_tclient = []"
  "ss_reading (sample_tsession tokens)" "ss_tokenList (sample_tsession tokens) = tokens"
  "ss_calls (sample_tsession tokens) = []" "ss_data (sample_tsession tokens) = replicate 65535 nul"
  "\<forall>x. nul \<notin> set (encodeHex sample_lib x)" "ss_written (sample_tsession tokens) = []"
  by (simp_all add: sample_tclient_def new_tclient_def sample_tsession_def new_session_def readSocket_def dataBufferSize_def
      sample_lib_def sample_hex_no_nul)

lemma sample_guid: "\<exists>g. generateGuid sample_lib (replicate 16 CHR ''k'') = Inr g \<and> length g = 36"
proof -
  have "length (encodeHex sample_lib (replicate 16 CHR ''k'')) = 32" by (simp add: sample_lib_def)
  then show ?thesis by (simp add: generateGuid_format Let_def)
qed



end
