(* ===== verification/Http_Types.thy ===== *)
theory Http_Types
  imports Net_Prelude
begin

text \<open>
  The data shared by the HTTP client and server (\<^verbatim>\<open>src/HTTP/httptypes.hpp\<close>, \<^verbatim>\<open>.cpp\<close>):
  methods, body types with their media-type names, packets, and the packet of an error
  response. Also the error codes the HTTP code tells apart, and the records of requests
  and responses as far as the code sets or reads them (the messages themselves are
  Boost.Beast's).
\<close>

datatype MethodType = Get | Put | Post | Delete

text \<open>
  \<^verbatim>\<open>MethodType\<close> is an enum over \<^verbatim>\<open>int\<close>, so a variable of it can hold any value.
  \<open>method_of\<close> is the \<^verbatim>\<open>switch\<close> on a raw value, \<open>None\<close> its default branch. The
  order of the enum is that of \<^verbatim>\<open>std::map\<close> keys.
\<close>

fun method_code :: "MethodType \<Rightarrow> int" where
  "method_code Get = 0" | "method_code Put = 1" | "method_code Post = 2" | "method_code Delete = 3"

definition method_of :: "int \<Rightarrow> MethodType option" where
  "method_of v = (if v = 0 then Some Get else if v = 1 then Some Put
     else if v = 2 then Some Post else if v = 3 then Some Delete else None)"

instantiation MethodType :: linorder
begin

definition less_eq_MethodType :: "MethodType \<Rightarrow> MethodType \<Rightarrow> bool" where
  "less_eq_MethodType a b \<longleftrightarrow> method_code a \<le> method_code b"

definition less_MethodType :: "MethodType \<Rightarrow> MethodType \<Rightarrow> bool" where
  "less_MethodType a b \<longleftrightarrow> method_code a < method_code b"

instance
proof
  fix a b c :: MethodType
  show "a < b \<longleftrightarrow> a \<le> b \<and> \<not> b \<le> a" by (auto simp: less_eq_MethodType_def less_MethodType_def)
  show "a \<le> a" by (simp add: less_eq_MethodType_def)
  show "a \<le> b \<Longrightarrow> b \<le> c \<Longrightarrow> a \<le> c" by (simp add: less_eq_MethodType_def)
  show "a \<le> b \<Longrightarrow> b \<le> a \<Longrightarrow> a = b"
    by (cases a; cases b) (simp_all add: less_eq_MethodType_def)
  show "a \<le> b \<or> b \<le> a" by (auto simp: less_eq_MethodType_def)
qed

end

lemma method_of_code [simp]: "method_of (method_code m) = Some m"
  by (cases m) (simp_all add: method_of_def)

lemma method_of_Some: "method_of v = Some m \<longleftrightarrow> v = method_code m"
  by (cases m) (auto simp: method_of_def split: if_splits)

fun Method_toString :: "MethodType \<Rightarrow> string" where
  "Method_toString Get = ''GET''"
| "Method_toString Put = ''PUT''"
| "Method_toString Post = ''POST''"
| "Method_toString Delete = ''DELETE''"

datatype BodyType = Undefined | Json | Html | Bytes

fun Packet_toString :: "BodyType \<Rightarrow> string" where
  "Packet_toString Undefined = ''text/plain''"
| "Packet_toString Json = ''application/json''"
| "Packet_toString Html = ''text/html''"
| "Packet_toString Bytes = ''application/octet-stream''"

definition Packet_fromString :: "string \<Rightarrow> BodyType" where
  "Packet_fromString btype =
     (if btype = ''application/json'' then Json
      else if btype = ''text/html'' then Html
      else if btype = ''application/octet-stream'' then Bytes
      else Undefined)"

record Packet =
  pk_target :: string
  pk_isFile :: bool
  pk_fileSavepath :: string
  pk_bodyType :: BodyType
  pk_acceptableType :: BodyType
  pk_body :: string
  pk_statusCode :: u32

definition new_Packet :: Packet where
  "new_Packet = \<lparr>pk_target = ''/'', pk_isFile = False, pk_fileSavepath = [],
     pk_bodyType = Undefined, pk_acceptableType = Undefined, pk_body = [], pk_statusCode = 0\<rparr>"

text \<open>\<open>reason\<close> is \<^verbatim>\<open>boost::beast::http::obsolete_reason\<close>.\<close>

definition createErrorPacket :: "(u32 \<Rightarrow> string) \<Rightarrow> u32 \<Rightarrow> Packet" where
  "createErrorPacket reason status =
     new_Packet\<lparr>pk_bodyType := Undefined, pk_body := reason status, pk_statusCode := status\<rparr>"

subsection \<open>Error codes and messages of the libraries\<close>

datatype error_code =
    Success | WouldBlock | TryAgain | Eof | StreamTruncated | OperationAborted
  | NotConnected | ConnectionReset | OtherError int

datatype verb = V_get | V_put | V_post | V_delete | V_other string

fun verb_of :: "MethodType \<Rightarrow> verb" where
  "verb_of Get = V_get" | "verb_of Put = V_put" | "verb_of Post = V_post" | "verb_of Delete = V_delete"

record http_request =
  rq_verb :: verb
  rq_target :: string
  rq_version :: nat
  rq_user_agent :: string
  rq_host :: string
  rq_content_type :: "string option"
  rq_accept :: "string option"
  rq_body :: string

record http_response =
  rs_result :: u32
  rs_content_type :: "string option"
  rs_body :: string

subsection \<open>Properties\<close>

text \<open>
  C17. Media types. Parsing the printed name of a body type gives it back, printing is
  injective, and a string parses to something other than \<open>Undefined\<close> exactly when it is
  one of the three known names, letter for letter: any parameter or change of case makes
  it \<open>Undefined\<close>.
\<close>

theorem media_type_roundtrip:
  "Packet_fromString (Packet_toString b) = b \<and>
   (Packet_fromString s = Undefined \<or> s = Packet_toString (Packet_fromString s)) \<and>
   (Packet_toString b = Packet_toString b' \<longrightarrow> b = b')"
  by (cases b; cases b') (auto simp: Packet_fromString_def)

lemma media_type_roundtrip_witness:
  "Packet_fromString ''application/json; charset=utf-8'' = Undefined \<and> Json = Json"
  using media_type_roundtrip[of Json "''application/json; charset=utf-8''" Json]
  by (auto simp: Packet_fromString_def)

end
