(* ===== verification/Http_Client.thy ===== *)
theory Http_Client
  imports Http_Types
begin

text \<open>
  The HTTP client (\<^verbatim>\<open>src/HTTP/client.cpp\<close>): connection management over a plain or a TLS
  stream, synchronous and asynchronous requests, download and upload.

  What Boost and the operating system answer during one operation is the argument
  \<open>env\<close>; the operations on the network and on files are recorded, in order, in
  \<open>hc_ops\<close>, and the log lines in \<open>hc_log\<close>.
\<close>

subsection \<open>State and environment\<close>

datatype level = Info | Warning | Error | Ok

datatype net_op =
    Op_peek
  | Op_resolve string string
  | Op_connect "nat list"
  | Op_sni string
  | Op_handshake
  | Op_write http_request
  | Op_read
  | Op_cancel
  | Op_ssl_shutdown
  | Op_shutdown
  | Op_close
  | Op_truncate_file string
  | Op_write_file string string

record http_client =
  hc_secure :: bool
  hc_verify_peer :: bool
  hc_host :: string
  hc_port :: string
  hc_isLoggingEnabled :: bool
  hc_clientName :: string
  hc_maxFileSize :: u32
  hc_log :: "(level \<times> string list) list"
  hc_ops :: "net_op list"
  hc_cbk_calls :: "Packet option list"

text \<open>
  \<open>e_is_open\<close>: whether the socket is open; \<open>e_peek\<close>: the code of the peeking receive;
  \<open>e_resolve\<close>: the resolved endpoints, or what \<^verbatim>\<open>resolve\<close> throws; \<open>e_connect\<close>,
  \<open>e_handshake\<close>, \<open>e_write\<close>, \<open>e_read\<close>, \<open>e_ssl_shutdown\<close>, \<open>e_shutdown\<close>: the codes of
  those calls; \<open>e_sni\<close>: whether \<^verbatim>\<open>SSL_set_tlsext_host_name\<close> succeeds; \<open>e_response\<close>:
  what the read fills in, also when it fails; \<open>e_read_size\<close>: the bytes it reports;
  \<open>e_save_open\<close>: whether the save file opens; \<open>e_file\<close>: the
  content of the file to upload, or the code of opening it; \<open>e_message\<close>, \<open>e_reason\<close>:
  texts of codes and statuses.
\<close>

record http_env =
  e_is_open :: bool
  e_peek :: error_code
  e_resolve :: "nat list res"
  e_connect :: error_code
  e_sni :: bool
  e_handshake :: error_code
  e_write :: error_code
  e_read :: error_code
  e_response :: http_response
  e_read_size :: nat
  e_ssl_shutdown :: error_code
  e_shutdown :: error_code
  e_save_open :: bool
  e_file :: "error_code + string"
  e_message :: "error_code \<Rightarrow> string"
  e_reason :: "u32 \<Rightarrow> string"

definition op :: "net_op \<Rightarrow> http_client \<Rightarrow> http_client" where
  "op x c = c\<lparr>hc_ops := hc_ops c @ [x]\<rparr>"

definition log_line :: "level \<Rightarrow> string list \<Rightarrow> http_client \<Rightarrow> http_client" where
  "log_line lv args c =
     (if \<not> hc_isLoggingEnabled c then c else c\<lparr>hc_log := hc_log c @ [(lv, args)]\<rparr>)"

definition new_client :: "bool \<Rightarrow> bool \<Rightarrow> http_client" where
  "new_client isSecure verifyCertificate = \<lparr>hc_secure = isSecure,
     hc_verify_peer = (isSecure \<and> verifyCertificate), hc_host = [], hc_port = [],
     hc_isLoggingEnabled = False, hc_clientName = ''TestApp'', hc_maxFileSize = 1024 * 1024 * 1024,
     hc_log = [], hc_ops = [], hc_cbk_calls = []\<rparr>"

definition setLoggingEnabled :: "bool \<Rightarrow> http_client \<Rightarrow> http_client" where
  "setLoggingEnabled isEn c = c\<lparr>hc_isLoggingEnabled := isEn\<rparr>"

definition setClientName :: "string \<Rightarrow> http_client \<Rightarrow> http_client" where
  "setClientName clientName c = c\<lparr>hc_clientName := clientName\<rparr>"

definition setMaxFileSize :: "u32 \<Rightarrow> http_client \<Rightarrow> http_client" where
  "setMaxFileSize fileSizeByte c = c\<lparr>hc_maxFileSize := fileSizeByte\<rparr>"

definition setHost :: "string \<Rightarrow> u16 \<Rightarrow> http_client \<Rightarrow> http_client" where
  "setHost host port c = c\<lparr>hc_host := host, hc_port := to_dec (unat port)\<rparr>"

subsection \<open>Connection\<close>

definition isConnected :: "http_env \<Rightarrow> http_client \<Rightarrow> bool \<times> http_client" where
  "isConnected env c =
     (if \<not> e_is_open env then (False, c)
      else let c1 = op Op_peek c; ec = e_peek env in
        if ec = WouldBlock \<or> ec = TryAgain then (True, c1) else (ec = Success, c1))"

text \<open>
  In the TLS branch with a failed host name, the error code is assigned to a new variable
  of the inner scope, so \<open>ec\<close> stays \<open>Success\<close>; and the code of the connect is
  overwritten by that of the handshake. An empty resolver result would be dereferenced
  (\<open>UB\<close>).
\<close>

definition connectToHost :: "http_env \<Rightarrow> http_client \<Rightarrow> bool beh \<times> http_client" where
  "connectToHost env c =
     (case isConnected env c of
        (True, c1) \<Rightarrow> (Returns True, c1)
      | (False, c1) \<Rightarrow>
          let c2 = op (Op_resolve (hc_host c1) (hc_port c1))
                (log_line Info [''Connecting to host:'', hc_host c1, hc_port c1] c1);
              finish = (\<lambda>ec x. (Returns (ec = Success),
                if ec \<noteq> Success then log_line Error [''Error connecting:'', e_message env ec] x
                else log_line Ok [''Connected to'', hc_host x] x))
          in case e_resolve env of
               Inl e \<Rightarrow> (Throws e, c2)
             | Inr results \<Rightarrow>
                 if \<not> hc_secure c2
                 then finish (e_connect env) (op (Op_connect results) c2)
                 else let c3 = op (Op_sni (hc_host c2)) c2 in
                   if e_sni env
                   then (case results of [] \<Rightarrow> (UB, c3)
                     | endpoint # _ \<Rightarrow>
                         finish (e_handshake env) (op Op_handshake (op (Op_connect [endpoint]) c3)))
                   else finish Success c3)"

definition disconnectFromHost :: "http_env \<Rightarrow> http_client \<Rightarrow> bool \<times> http_client" where
  "disconnectFromHost env c =
     (case isConnected env (log_line Info [''Disconnecting from host''] c) of
        (False, c1) \<Rightarrow> (True, log_line Ok [''Not connected''] c1)
      | (True, c1) \<Rightarrow>
          if \<not> hc_secure c1 then
            let c2 = op Op_shutdown c1; ec = e_shutdown env in
            if ec \<noteq> Success \<and> ec \<noteq> NotConnected
            then (False, log_line Error [''Error disconnecting:'', e_message env ec] c2)
            else (True, log_line Ok [''Disconnected''] (op Op_close c2))
          else
            let c2 = op Op_ssl_shutdown c1; ec = e_ssl_shutdown env in
            if ec \<notin> {Eof, StreamTruncated, OperationAborted} \<and> ec \<noteq> Success \<and> ec \<noteq> NotConnected
            then (False, log_line Error [''Error in SSL shutdown:'', e_message env ec] c2)
            else let c3 = op Op_shutdown c2; ec' = e_shutdown env in
              if ec' \<noteq> Success \<and> ec' \<noteq> NotConnected
              then (False, log_line Error [''Error disconnecting:'', e_message env ec'] c3)
              else (True, log_line Ok [''Disconnected''] (op Op_close c3)))"

definition interruptRequestProcessing :: "http_client \<Rightarrow> http_client" where
  "interruptRequestProcessing c = op Op_cancel c"

subsection \<open>Requests\<close>

definition build_request :: "http_client \<Rightarrow> MethodType \<Rightarrow> Packet \<Rightarrow> http_request" where
  "build_request c m pkt = \<lparr>rq_verb = verb_of m, rq_target = pk_target pkt, rq_version = 11,
     rq_user_agent = hc_clientName c, rq_host = hc_host c,
     rq_content_type = Some (Packet_toString (pk_bodyType pkt)),
     rq_accept = Some (Packet_toString (pk_acceptableType pkt)), rq_body = pk_body pkt\<rparr>"

definition unknown_method :: "int \<Rightarrow> http_client \<Rightarrow> http_client" where
  "unknown_method method = log_line Error [''Unknown method to request:'']"

text \<open>
  Filling a packet from a response, the common part of the four functions that receive
  one; \<open>lv\<close> and \<open>pre\<close> are how a status other than 200 is logged. The body is set by
  the callers.
\<close>

definition fill_packet ::
  "http_env \<Rightarrow> level \<Rightarrow> string list \<Rightarrow> http_response \<Rightarrow> Packet \<Rightarrow> http_client \<Rightarrow> Packet \<times> http_client" where
  "fill_packet env lv pre res pkt c =
     (let p1 = pkt\<lparr>pk_statusCode := rs_result res\<rparr>;
          c1 = (if pk_statusCode p1 \<noteq> 200
                then log_line lv (pre @ [e_reason env (rs_result res)]) c else c)
      in case rs_content_type res of
           None \<Rightarrow> (p1, c1)
         | Some t \<Rightarrow>
             let p2 = p1\<lparr>pk_bodyType := Packet_fromString t\<rparr> in
             (p2, if pk_bodyType p2 \<noteq> pk_acceptableType p2
                  then log_line Warning [''Got packet of inacceptable type ('',
                    Packet_toString (pk_bodyType p2), ''!='', Packet_toString (pk_acceptableType p2), '')''] c1
                  else c1))"

definition received :: "nat \<Rightarrow> http_client \<Rightarrow> http_client" where
  "received n = log_line Ok [''Received response ('', to_dec n, ''bytes)'']"

text \<open>\<open>Packet request(MethodType, Packet&&)\<close>: errors of write and read are reported as an empty packet.\<close>

definition request_move :: "http_env \<Rightarrow> int \<Rightarrow> Packet \<Rightarrow> http_client \<Rightarrow> Packet beh \<times> http_client" where
  "request_move env method pkt c =
     (case method_of method of
        None \<Rightarrow> (Returns new_Packet, unknown_method method c)
      | Some m \<Rightarrow>
          let req = build_request c m pkt in
          (case connectToHost env c of
             (UB, c1) \<Rightarrow> (UB, c1)
           | (Throws e, c1) \<Rightarrow> (Throws e, c1)
           | (Returns False, c1) \<Rightarrow> (Returns new_Packet, c1)
           | (Returns True, c1) \<Rightarrow>
               let c2 = op (Op_write req) (log_line Info [''Request:'', Method_toString m, rq_target req] c1);
                   (ec, c3) = (if e_write env \<noteq> Success then (e_write env, c2)
                               else (e_read env, op Op_read c2))
               in if ec \<noteq> Success
                  then (Returns new_Packet,
                    log_line Error [''Failed to send or receive data:'', e_message env ec] c3)
                  else let res = e_response env;
                      (p, c4) = fill_packet env Error [''Response status:''] res pkt c3
                    in (Returns (p\<lparr>pk_body := rs_body res\<rparr>), received (length (rs_body res)) c4)))"

text \<open>\<open>Packet request(MethodType, const Packet&)\<close>: errors of write and read are thrown.\<close>

definition throw_ec :: "http_env \<Rightarrow> error_code \<Rightarrow> exn" where
  "throw_ec env ec = StdException (e_message env ec)"

definition write_read :: "http_env \<Rightarrow> http_request \<Rightarrow> http_client \<Rightarrow> http_response res \<times> http_client" where
  "write_read env req c =
     (let c1 = op (Op_write req) c in
      if e_write env \<noteq> Success then (Inl (throw_ec env (e_write env)), c1)
      else let c2 = op Op_read c1 in
        if e_read env \<noteq> Success then (Inl (throw_ec env (e_read env)), c2)
        else (Inr (e_response env), c2))"

definition request_copy :: "http_env \<Rightarrow> int \<Rightarrow> Packet \<Rightarrow> http_client \<Rightarrow> Packet beh \<times> http_client" where
  "request_copy env method pkt c =
     (case method_of method of
        None \<Rightarrow> (Returns new_Packet, unknown_method method c)
      | Some m \<Rightarrow>
          let req = build_request c m pkt in
          (case connectToHost env c of
             (UB, c1) \<Rightarrow> (UB, c1)
           | (Throws e, c1) \<Rightarrow> (Throws e, c1)
           | (Returns False, c1) \<Rightarrow> (Returns new_Packet, c1)
           | (Returns True, c1) \<Rightarrow>
               (case write_read env req (log_line Info [''Request:'', Method_toString m, rq_target req] c1) of
                  (Inl e, c2) \<Rightarrow> (Throws e, c2)
                | (Inr res, c2) \<Rightarrow>
                    let resp = new_Packet\<lparr>pk_target := pk_target pkt, pk_acceptableType := pk_acceptableType pkt\<rparr>;
                        (p, c3) = fill_packet env Warning [''Response status:''] res resp c2
                    in (Returns (p\<lparr>pk_body := rs_body res\<rparr>), received (length (rs_body res)) c3))))"

subsection \<open>Asynchronous requests\<close>

text \<open>
  What the completion handlers of an asynchronous request capture: the request, whether
  a callback was given, and the packet.
\<close>

record async_op =
  ao_req :: http_request
  ao_cbk :: bool
  ao_pkt :: Packet

definition call_back :: "async_op \<Rightarrow> Packet option \<Rightarrow> http_client \<Rightarrow> http_client" where
  "call_back ao v c = (if ao_cbk ao then c\<lparr>hc_cbk_calls := hc_cbk_calls c @ [v]\<rparr> else c)"

definition requestAsync ::
  "http_env \<Rightarrow> int \<Rightarrow> Packet \<Rightarrow> bool \<Rightarrow> http_client \<Rightarrow> async_op option beh \<times> http_client" where
  "requestAsync env method pkt cbk c =
     (case method_of method of
        None \<Rightarrow> (Returns None, unknown_method method c)
      | Some m \<Rightarrow>
          let req = build_request c m pkt in
          (case connectToHost env c of
             (UB, c1) \<Rightarrow> (UB, c1)
           | (Throws e, c1) \<Rightarrow> (Throws e, c1)
           | (Returns False, c1) \<Rightarrow> (Returns None, log_line Error [''Not connected for requesting''] c1)
           | (Returns True, c1) \<Rightarrow>
               (Returns (Some \<lparr>ao_req = req, ao_cbk = cbk, ao_pkt = pkt\<rparr>),
                op (Op_write req) (log_line Info [''Request:'', Method_toString m, rq_target req] c1))))"

text \<open>Completion of the write; the result says whether a read was started.\<close>

definition on_async_write :: "http_env \<Rightarrow> async_op \<Rightarrow> http_client \<Rightarrow> bool \<times> http_client" where
  "on_async_write env ao c =
     (if e_write env \<noteq> Success
      then (False, call_back ao None (log_line Error [''Send failed:'', e_message env (e_write env)] c))
      else (True, op Op_read (log_line Ok [''Async request sent''] c)))"

text \<open>Completion of the read. After a failure the handler does not return.\<close>

definition on_async_read :: "http_env \<Rightarrow> async_op \<Rightarrow> http_client \<Rightarrow> http_client" where
  "on_async_read env ao c =
     (let c1 = (if e_read env \<noteq> Success
            then call_back ao None (log_line Error [''Receive failed:'', e_message env (e_read env)] c) else c)
      in if ao_cbk ao then
           let res = e_response env;
               resp = new_Packet\<lparr>pk_target := pk_target (ao_pkt ao),
                 pk_acceptableType := pk_acceptableType (ao_pkt ao)\<rparr>;
               (p, c2) = fill_packet env Error [] res resp c1;
               c3 = received (e_read_size env) c2
           in call_back ao (Some (p\<lparr>pk_body := rs_body res\<rparr>)) c3
         else c1)"

text \<open>An asynchronous request with all its completions.\<close>

definition async_run :: "http_env \<Rightarrow> int \<Rightarrow> Packet \<Rightarrow> bool \<Rightarrow> http_client \<Rightarrow> unit beh \<times> http_client" where
  "async_run env method pkt cbk c =
     (case requestAsync env method pkt cbk c of
        (UB, c1) \<Rightarrow> (UB, c1)
      | (Throws e, c1) \<Rightarrow> (Throws e, c1)
      | (Returns None, c1) \<Rightarrow> (Returns (), c1)
      | (Returns (Some ao), c1) \<Rightarrow>
          (case on_async_write env ao c1 of
             (False, c2) \<Rightarrow> (Returns (), c2)
           | (True, c2) \<Rightarrow> (Returns (), on_async_read env ao c2)))"

subsection \<open>Files\<close>

definition downloadFile :: "http_env \<Rightarrow> string \<Rightarrow> string \<Rightarrow> http_client \<Rightarrow> bool beh \<times> http_client" where
  "downloadFile env target saveFilePath c =
     (let c0 = log_line Info [''Downloading file: URL'', target, ''--->'', saveFilePath] c;
          req = \<lparr>rq_verb = V_get, rq_target = target, rq_version = 11, rq_user_agent = hc_clientName c0,
            rq_host = hc_host c0, rq_content_type = None, rq_accept = Some (Packet_toString Bytes),
            rq_body = []\<rparr>
      in case connectToHost env c0 of
           (UB, c1) \<Rightarrow> (UB, c1)
         | (Throws e, c1) \<Rightarrow> (Throws e, c1)
         | (Returns False, c1) \<Rightarrow> (Returns False, c1)
         | (Returns True, c1) \<Rightarrow>
             (case write_read env req c1 of
                (Inl e, c2) \<Rightarrow> (Throws e, c2)
              | (Inr res, c2) \<Rightarrow>
                  let resp = new_Packet\<lparr>pk_target := target, pk_acceptableType := Bytes\<rparr>;
                      (p, c3) = fill_packet env Error [] res resp c2
                  in if \<not> e_save_open env
                     then (Returns False, log_line Error [''Error opening savefile by path: ['', saveFilePath] c3)
                     else (Returns (pk_statusCode p = 200),
                       op (Op_write_file saveFilePath (rs_body res)) (op (Op_truncate_file saveFilePath) c3))))"

definition uploadFile :: "http_env \<Rightarrow> string \<Rightarrow> string \<Rightarrow> http_client \<Rightarrow> bool beh \<times> http_client" where
  "uploadFile env target filePath c =
     (let c0 = log_line Info [''Uploading file:'', filePath, ''---> URL'', target] c in
      case e_file env of
        Inl ec \<Rightarrow> (Returns False, log_line Error [''Error opening file:'', e_message env ec] c0)
      | Inr content \<Rightarrow>
          let req = \<lparr>rq_verb = V_post, rq_target = target, rq_version = 11,
                rq_user_agent = hc_clientName c0, rq_host = hc_host c0,
                rq_content_type = Some (Packet_toString Bytes), rq_accept = None, rq_body = content\<rparr>
          in (case connectToHost env c0 of
                (UB, c1) \<Rightarrow> (UB, c1)
              | (Throws e, c1) \<Rightarrow> (Throws e, c1)
              | (Returns False, c1) \<Rightarrow> (Returns False, c1)
              | (Returns True, c1) \<Rightarrow>
                  (case write_read env req c1 of
                     (Inl e, c2) \<Rightarrow> (Throws e, c2)
                   | (Inr res, c2) \<Rightarrow> (Returns (rs_result res = 200), c2))))"

text \<open>The destructor.\<close>

definition destroy_client :: "http_env \<Rightarrow> http_client \<Rightarrow> http_client" where
  "destroy_client env c = snd (disconnectFromHost env c)"

subsection \<open>Characteristic facts\<close>

lemma op_simps [simp]:
  "hc_ops (op x c) = hc_ops c @ [x]" "hc_log (op x c) = hc_log c"
  "hc_isLoggingEnabled (op x c) = hc_isLoggingEnabled c" "hc_cbk_calls (op x c) = hc_cbk_calls c"
  "hc_secure (op x c) = hc_secure c" "hc_host (op x c) = hc_host c" "hc_port (op x c) = hc_port c"
  by (simp_all add: op_def)

lemma log_line_simps [simp]:
  "hc_ops (log_line lv m c) = hc_ops c" "hc_cbk_calls (log_line lv m c) = hc_cbk_calls c"
  "hc_isLoggingEnabled (log_line lv m c) = hc_isLoggingEnabled c"
  "hc_secure (log_line lv m c) = hc_secure c" "hc_host (log_line lv m c) = hc_host c"
  "hc_port (log_line lv m c) = hc_port c"
  "\<not> hc_isLoggingEnabled c \<Longrightarrow> hc_log (log_line lv m c) = hc_log c"
  by (simp_all add: log_line_def)

lemma isConnected_frame [simp]:
  "hc_log (snd (isConnected env c)) = hc_log c"
  "hc_isLoggingEnabled (snd (isConnected env c)) = hc_isLoggingEnabled c"
  "hc_cbk_calls (snd (isConnected env c)) = hc_cbk_calls c"
  "hc_secure (snd (isConnected env c)) = hc_secure c"
  by (simp_all add: isConnected_def Let_def)

lemma connectToHost_frame [simp]:
  "hc_cbk_calls (snd (connectToHost env c)) = hc_cbk_calls c"
  "hc_isLoggingEnabled (snd (connectToHost env c)) = hc_isLoggingEnabled c"
  "\<not> hc_isLoggingEnabled c \<Longrightarrow> hc_log (snd (connectToHost env c)) = hc_log c"
  using isConnected_frame[of env c]
  by (auto simp: connectToHost_def Let_def split: prod.split bool.split sum.split list.split
      simp del: isConnected_frame)

lemma fill_packet_frame [simp]:
  "hc_ops (snd (fill_packet env lv pre res p c)) = hc_ops c"
  "hc_cbk_calls (snd (fill_packet env lv pre res p c)) = hc_cbk_calls c"
  "hc_isLoggingEnabled (snd (fill_packet env lv pre res p c)) = hc_isLoggingEnabled c"
  "\<not> hc_isLoggingEnabled c \<Longrightarrow> hc_log (snd (fill_packet env lv pre res p c)) = hc_log c"
  by (auto simp: fill_packet_def Let_def split: option.split)

lemma fill_packet_fst:
  "fst (fill_packet env lv pre res p c) = p\<lparr>pk_statusCode := rs_result res,
     pk_bodyType := (case rs_content_type res of None \<Rightarrow> pk_bodyType p | Some t \<Rightarrow> Packet_fromString t)\<rparr>"
  by (auto simp: fill_packet_def Let_def split: option.split)

lemma received_frame [simp]:
  "hc_ops (received n c) = hc_ops c" "hc_cbk_calls (received n c) = hc_cbk_calls c"
  "hc_isLoggingEnabled (received n c) = hc_isLoggingEnabled c"
  "\<not> hc_isLoggingEnabled c \<Longrightarrow> hc_log (received n c) = hc_log c"
  by (simp_all add: received_def)

lemma unknown_method_frame [simp]:
  "hc_cbk_calls (unknown_method m c) = hc_cbk_calls c"
  "\<not> hc_isLoggingEnabled c \<Longrightarrow> hc_log (unknown_method m c) = hc_log c"
  by (simp_all add: unknown_method_def)

lemma write_read_frame [simp]:
  "hc_isLoggingEnabled (snd (write_read env req c)) = hc_isLoggingEnabled c"
  "hc_log (snd (write_read env req c)) = hc_log c"
  by (simp_all add: write_read_def Let_def)

lemma write_read_success:
  "e_write env = Success \<Longrightarrow> e_read env = Success \<Longrightarrow>
     write_read env req c = (Inr (e_response env), op Op_read (op (Op_write req) c))"
  by (simp add: write_read_def Let_def)

text \<open>The four operations end in the same way once connected.\<close>

lemma connected_eq:
  "fst (connectToHost env c) = Returns True \<Longrightarrow>
     connectToHost env c = (Returns True, snd (connectToHost env c))"
  by (metis prod.collapse)

subsection \<open>Properties\<close>

text \<open>
  C28. When \<open>connectToHost\<close> reports a connection. It does exactly when the socket is
  already connected, or the name resolves and: on a plain stream, the connect succeeds;
  on TLS, the host name cannot be set or the handshake succeeds (the code of the TLS
  connect itself is never looked at). In the case of the failed host name nothing was
  even tried: the last network operation is the setting of the name.
\<close>

theorem connectToHost_reports:
  "(fst (connectToHost env c) = Returns True \<longleftrightarrow>
      fst (isConnected env c) \<or>
      (\<exists>eps. e_resolve env = Inr eps \<and>
        (if \<not> hc_secure c then e_connect env = Success
         else \<not> e_sni env \<or> (eps \<noteq> [] \<and> e_handshake env = Success)))) \<and>
   (\<not> fst (isConnected env c) \<and> e_resolve env = Inr eps \<and> hc_secure c \<and> \<not> e_sni env \<longrightarrow>
      fst (connectToHost env c) = Returns True \<and>
      hc_ops (snd (connectToHost env c)) = hc_ops (snd (isConnected env c)) @
        [Op_resolve (hc_host c) (hc_port c), Op_sni (hc_host c)])"
proof -
  obtain b c1 where ic: "isConnected env c = (b, c1)" by fastforce
  then have "hc_secure c1 = hc_secure c" "hc_host c1 = hc_host c" "hc_port c1 = hc_port c"
    by (auto simp: isConnected_def Let_def split: if_splits)
  note fields = this
  show ?thesis
  proof (cases b)
    case True
    then show ?thesis by (simp add: connectToHost_def ic)
  next
    case False
    show ?thesis
    proof (cases "e_resolve env")
      case (Inl e)
      with False show ?thesis by (simp add: connectToHost_def ic Let_def)
    next
      case (Inr rs)
      with False fields show ?thesis
        by (cases "hc_secure c"; cases "e_sni env"; cases rs)
          (simp_all add: connectToHost_def ic Let_def)
    qed
  qed
qed

definition sample_env :: http_env where
  "sample_env = \<lparr>e_is_open = False, e_peek = Success, e_resolve = Inr [1], e_connect = Success,
     e_sni = False, e_handshake = OtherError 5, e_write = Success, e_read = Success,
     e_response = \<lparr>rs_result = 404, rs_content_type = None, rs_body = ''gone''\<rparr>, e_read_size = 4,
     e_ssl_shutdown = Success, e_shutdown = Success, e_save_open = True, e_file = Inr ''f'',
     e_message = (\<lambda>_. []), e_reason = (\<lambda>_. ''Not Found'')\<rparr>"

lemma connectToHost_reports_witness:
  "fst (connectToHost sample_env (new_client True True)) = Returns True \<and>
   hc_ops (snd (connectToHost sample_env (new_client True True))) = [Op_resolve [] [], Op_sni []]"
  using connectToHost_reports[of sample_env "new_client True True" "[1]"]
  by (simp add: sample_env_def new_client_def isConnected_def)

text \<open>
  C31. The two synchronous \<open>request\<close> functions agree when nothing fails: same status,
  body, target and acceptable type, from the same network operations. They differ in two
  places only: the copying one always answers with a fresh packet, and when the response
  names no content type its body type is \<open>Undefined\<close>, while the moving one keeps what
  the caller's packet had.
\<close>

theorem request_variants_agree:
  assumes "method_of m = Some k" and "fst (connectToHost env c) = Returns True"
    and "e_write env = Success" and "e_read env = Success"
  shows "\<exists>p. fst (request_move env m pkt c) = Returns p \<and>
    pk_isFile p = pk_isFile pkt \<and> pk_fileSavepath p = pk_fileSavepath pkt \<and>
    fst (request_copy env m pkt c) =
      Returns (p\<lparr>pk_isFile := False, pk_fileSavepath := [],
        pk_bodyType := (if rs_content_type (e_response env) = None then Undefined else pk_bodyType p)\<rparr>) \<and>
    hc_ops (snd (request_move env m pkt c)) = hc_ops (snd (request_copy env m pkt c))"
proof -
  obtain c1 where con: "connectToHost env c = (Returns True, c1)" using connected_eq[OF assms(2)] by blast
  let ?res = "e_response env"
  let ?move = "pkt\<lparr>pk_statusCode := rs_result ?res, pk_bodyType := (case rs_content_type ?res of
    None \<Rightarrow> pk_bodyType pkt | Some t \<Rightarrow> Packet_fromString t), pk_body := rs_body ?res\<rparr>"
  have "fst (request_move env m pkt c) = Returns ?move"
    by (simp add: request_move_def assms(1,3,4) con case_prod_unfold fill_packet_fst Let_def)
  moreover have "fst (request_copy env m pkt c) = Returns (?move\<lparr>pk_isFile := False, pk_fileSavepath := [],
      pk_bodyType := (if rs_content_type ?res = None then Undefined else pk_bodyType ?move)\<rparr>)"
    by (cases "rs_content_type ?res")
      (simp_all add: request_copy_def assms(1,3,4) con write_read_success case_prod_unfold
        fill_packet_fst Let_def new_Packet_def)
  moreover have "hc_ops (snd (request_move env m pkt c)) = hc_ops (snd (request_copy env m pkt c))"
    by (simp add: request_move_def request_copy_def assms(1,3,4) con write_read_success
        case_prod_unfold Let_def)
  ultimately show ?thesis by (intro exI[of _ ?move] conjI) simp_all
qed

lemma request_variants_agree_witness:
  "\<exists>p. fst (request_move sample_env 0 (new_Packet\<lparr>pk_bodyType := Json\<rparr>) (new_client False False)) = Returns p \<and>
    fst (request_copy sample_env 0 (new_Packet\<lparr>pk_bodyType := Json\<rparr>) (new_client False False)) =
      Returns (p\<lparr>pk_isFile := False, pk_fileSavepath := [], pk_bodyType := Undefined\<rparr>)"
proof -
  have "fst (connectToHost sample_env (new_client False False)) = Returns True"
    by (simp add: connectToHost_def isConnected_def sample_env_def new_client_def Let_def)
  from request_variants_agree[OF _ this, of 0 Get "new_Packet\<lparr>pk_bodyType := Json\<rparr>"]
  show ?thesis by (auto simp: method_of_def sample_env_def)
qed

text \<open>
  How often an asynchronous request calls back: never for an unknown method or
  without a connection; once, with no packet, when the write fails; once, with a packet,
  on success; but twice when the read fails: first with no packet, then with a packet
  made from whatever the response object holds.
\<close>

theorem async_callbacks:
  "hc_cbk_calls (snd (async_run env m pkt True c)) = hc_cbk_calls c @
    (let res = e_response env;
         p = new_Packet\<lparr>pk_target := pk_target pkt, pk_acceptableType := pk_acceptableType pkt,
           pk_statusCode := rs_result res, pk_bodyType := (case rs_content_type res of
             None \<Rightarrow> Undefined | Some t \<Rightarrow> Packet_fromString t), pk_body := rs_body res\<rparr>
     in if method_of m \<noteq> None \<and> fst (connectToHost env c) = Returns True
        then if e_write env = Success then if e_read env = Success then [Some p] else [None, Some p]
          else [None]
        else [])"
proof (cases "method_of m \<noteq> None \<and> fst (connectToHost env c) = Returns True")
  case False
  show ?thesis
  proof (cases "method_of m")
    case None
    then show ?thesis by (simp add: async_run_def requestAsync_def)
  next
    case (Some k)
    obtain r c1 where con: "connectToHost env c = (r, c1)" by fastforce
    have c1: "hc_cbk_calls c1 = hc_cbk_calls c" using connectToHost_frame(1)[of env c] con by simp
    from False Some con have "r \<noteq> Returns True" by simp
    then show ?thesis
      by (cases r) (auto simp: async_run_def requestAsync_def Some con c1 Let_def)
  qed
next
  case True
  then obtain k where k: "method_of m = Some k" by auto
  obtain c1 where con: "connectToHost env c = (Returns True, c1)"
    using True connected_eq[of env c] by blast
  have c1: "hc_cbk_calls c1 = hc_cbk_calls c" using connectToHost_frame(1)[of env c] con by simp
  show ?thesis
    by (cases "e_write env = Success"; cases "e_read env = Success"; cases "rs_content_type (e_response env)")
      (simp_all add: async_run_def requestAsync_def k con c1 on_async_write_def fill_packet_fst
        on_async_read_def call_back_def case_prod_unfold new_Packet_def Let_def)
qed

text \<open>
  A download writes the save file whatever the server answered: once the response is
  read and the file opens, the file is truncated and receives the body, also for a status
  other than 200, and only the returned flag tells.
\<close>

theorem download_overwrites_file:
  assumes "fst (connectToHost env (log_line Info [''Downloading file: URL'', target, ''--->'', path] c)) = Returns True"
    and "e_write env = Success" and "e_read env = Success" and "e_save_open env"
  shows "fst (downloadFile env target path c) = Returns (rs_result (e_response env) = 200) \<and>
    (\<exists>ops. hc_ops (snd (downloadFile env target path c)) =
      ops @ [Op_read, Op_truncate_file path, Op_write_file path (rs_body (e_response env))])"
proof -
  obtain c1 where con: "connectToHost env (log_line Info [''Downloading file: URL'', target, ''--->'', path] c) =
      (Returns True, c1)" using connected_eq[OF assms(1)] by blast
  show ?thesis
    using assms(2-4)
    by (simp add: downloadFile_def con write_read_success case_prod_unfold fill_packet_fst Let_def)
qed

lemma download_overwrites_file_witness:
  "fst (downloadFile sample_env ''/f'' ''out'' (new_client False False)) = Returns False \<and>
   (\<exists>ops. hc_ops (snd (downloadFile sample_env ''/f'' ''out'' (new_client False False))) =
      ops @ [Op_read, Op_truncate_file ''out'', Op_write_file ''out'' ''gone''])"
proof -
  have "fst (connectToHost sample_env (log_line Info [''Downloading file: URL'', ''/f'', ''--->'', ''out'']
      (new_client False False))) = Returns True"
    by (simp add: connectToHost_def isConnected_def sample_env_def new_client_def log_line_def Let_def)
  from download_overwrites_file[OF this] show ?thesis by (simp add: sample_env_def)
qed

end
