(* ===== verification/Http_Session.thy ===== *)
theory Http_Session
  imports Http_Types
begin

text \<open>
  One connection of the HTTP server (\<^verbatim>\<open>src/HTTP/connectionsession.cpp\<close>): the read loop,
  the dispatch on the request method, responses from memory or from a file, error
  responses, the deadline timer and the closing of the socket.

  A registered processor is a function from the request to the replies it makes on the
  connection; one that throws ends them with \<open>Raise\<close>. The answers of Boost and of the file system are the argument \<open>env\<close>; what
  the session asks of them is recorded in \<open>cs_ops\<close>.
\<close>

subsection \<open>State and environment\<close>

datatype reply = SendError u32 | SendPacket Packet | Raise exn

type_synonym processor = "Packet \<Rightarrow> reply list"

record response =
  rp_isFileBody :: bool
  rp_body :: string
  rp_version :: nat
  rp_server :: string
  rp_content_type :: string
  rp_result :: u32

definition empty_response :: "bool \<Rightarrow> response" where
  "empty_response isFile = \<lparr>rp_isFileBody = isFile, rp_body = [], rp_version = 11, rp_server = [],
     rp_content_type = [], rp_result = 200\<rparr>"

datatype session_op =
    S_handshake | S_async_read | S_async_write response | S_ssl_shutdown | S_shutdown | S_close

text \<open>
  \<open>cs_open\<close>: the socket is open. \<open>cs_deadline\<close>: the expiry of the timer, in seconds,
  fixed when the timer is made. \<open>cs_waits\<close>: the number of waits on the timer that have
  not been cancelled.
\<close>

record http_session =
  cs_secure :: bool
  cs_open :: bool
  cs_reading :: bool
  cs_response :: response
  cs_responseErrorPacket :: Packet
  cs_selfServerName :: string
  cs_deadline :: nat
  cs_waits :: nat
  cs_ops :: "session_op list"

record session_env =
  se_handshake :: error_code
  se_ssl_shutdown :: error_code
  se_shutdown :: error_code
  se_file :: "string \<Rightarrow> error_code + string"
  se_reason :: "u32 \<Rightarrow> string"
  se_result_throws :: "u32 \<Rightarrow> exn option"

definition ec_value :: "error_code \<Rightarrow> int" where
  "ec_value ec = (case ec of Success \<Rightarrow> 0 | StreamTruncated \<Rightarrow> 1 | Eof \<Rightarrow> 2 | WouldBlock \<Rightarrow> 11
     | TryAgain \<Rightarrow> 11 | ConnectionReset \<Rightarrow> 104 | NotConnected \<Rightarrow> 107 | OperationAborted \<Rightarrow> 125
     | OtherError v \<Rightarrow> v)"

definition s_op :: "session_op \<Rightarrow> http_session \<Rightarrow> http_session" where
  "s_op x s = s\<lparr>cs_ops := cs_ops s @ [x]\<rparr>"

text \<open>A session on an accepted socket at time \<open>now\<close>; the timer runs for 10 seconds from then.\<close>

definition new_http_session :: "string \<Rightarrow> bool \<Rightarrow> nat \<Rightarrow> http_session" where
  "new_http_session selfServerName secure now = \<lparr>cs_secure = secure, cs_open = True,
     cs_reading = False, cs_response = empty_response False, cs_responseErrorPacket = new_Packet,
     cs_selfServerName = selfServerName, cs_deadline = now + 10, cs_waits = 0, cs_ops = []\<rparr>"

subsection \<open>Responses\<close>

text \<open>
  \<open>sendResponse\<close> and \<open>sendErrorResponse\<close> call each other: a file that cannot be opened
  is answered with an error packet, which is never a file. Setting the status throws on
  values the library refuses.
\<close>

definition finish_response :: "session_env \<Rightarrow> Packet \<Rightarrow> response \<Rightarrow> http_session \<Rightarrow> unit res \<times> http_session" where
  "finish_response env pkt body s =
     (let resp = body\<lparr>rp_version := 11, rp_server := cs_selfServerName s,
            rp_content_type := Packet_toString (pk_bodyType pkt)\<rparr>
      in case se_result_throws env (pk_statusCode pkt) of
           Some e \<Rightarrow> (Inl e, s\<lparr>cs_response := resp\<rparr>)
         | None \<Rightarrow>
             let resp' = resp\<lparr>rp_result := pk_statusCode pkt\<rparr>
             in (Inr (), s_op (S_async_write resp') (s\<lparr>cs_response := resp'\<rparr>)))"

function sendResponse :: "session_env \<Rightarrow> Packet \<Rightarrow> http_session \<Rightarrow> unit res \<times> http_session"
  and sendErrorResponse :: "session_env \<Rightarrow> u32 \<Rightarrow> string \<Rightarrow> http_session \<Rightarrow> unit res \<times> http_session" where
  "sendResponse env pkt s =
     (if pk_isFile pkt then
        let s1 = s\<lparr>cs_response := empty_response True\<rparr> in
        (case se_file env (pk_target pkt) of
           Inl ec \<Rightarrow> sendErrorResponse env 400 ''Invalid file to download'' s1
         | Inr content \<Rightarrow> finish_response env pkt ((empty_response True)\<lparr>rp_body := content\<rparr>) s1)
      else finish_response env pkt ((empty_response False)\<lparr>rp_body := pk_body pkt\<rparr>) s)"
| "sendErrorResponse env status errorString s =
     (let err = createErrorPacket (se_reason env) status
      in sendResponse env err (s\<lparr>cs_responseErrorPacket := err\<rparr>))"
  by pat_completeness auto
termination
  by (relation "measure (\<lambda>x. case x of Inl (env, pkt, s) \<Rightarrow> if pk_isFile pkt then 2 else 0
      | Inr (env, status, e, s) \<Rightarrow> 1)")
    (auto simp: createErrorPacket_def new_Packet_def)

declare sendResponse.simps [simp del] sendErrorResponse.simps [simp del]

definition make_reply :: "session_env \<Rightarrow> reply \<Rightarrow> http_session \<Rightarrow> unit res \<times> http_session" where
  "make_reply env r s =
     (case r of SendError status \<Rightarrow> sendErrorResponse env status [] s
      | SendPacket pkt \<Rightarrow> sendResponse env pkt s
      | Raise e \<Rightarrow> (Inl e, s))"

fun make_replies :: "session_env \<Rightarrow> reply list \<Rightarrow> http_session \<Rightarrow> unit res \<times> http_session" where
  "make_replies env [] s = (Inr (), s)"
| "make_replies env (r # rs) s =
     (case make_reply env r s of
        (Inl e, s') \<Rightarrow> (Inl e, s')
      | (Inr _, s') \<Rightarrow> make_replies env rs s')"

subsection \<open>Closing and the deadline\<close>

definition cancel_timer :: "http_session \<Rightarrow> http_session" where
  "cancel_timer s = s\<lparr>cs_waits := 0\<rparr>"

definition closeConnection :: "session_env \<Rightarrow> http_session \<Rightarrow> http_session" where
  "closeConnection env s =
     (let s1 = cancel_timer s in
      if \<not> cs_open s1 then s1
      else if \<not> cs_secure s1 then
        let s2 = s_op S_shutdown s1; ec = se_shutdown env in
        if ec \<noteq> Success \<and> ec \<noteq> NotConnected then s2 else s_op S_close (s2\<lparr>cs_open := False\<rparr>)
      else
        let s2 = s_op S_ssl_shutdown s1; ec = se_ssl_shutdown env in
        if ec \<notin> {Eof, StreamTruncated, OperationAborted} \<and> ec \<noteq> Success \<and> ec \<noteq> NotConnected then s2
        else let s3 = s_op S_shutdown s2; ec' = se_shutdown env in
          if ec' \<noteq> Success \<and> ec' \<noteq> NotConnected then s3 else s_op S_close (s3\<lparr>cs_open := False\<rparr>))"

text \<open>Waits that were outstanding are cancelled and end with an error; the expiry is not moved.\<close>

definition checkDeadline :: "http_session \<Rightarrow> http_session" where
  "checkDeadline s = (let s1 = cancel_timer s in s1\<lparr>cs_waits := Suc (cs_waits s1)\<rparr>)"

definition on_deadline :: "session_env \<Rightarrow> error_code \<Rightarrow> http_session \<Rightarrow> unit res \<times> http_session" where
  "on_deadline env ec s =
     (if ec \<noteq> Success then (Inr (), s)
      else let p = (cs_responseErrorPacket s)\<lparr>pk_statusCode := 504\<rparr> in
        (case sendResponse env p (s\<lparr>cs_responseErrorPacket := p\<rparr>) of
           (Inl e, s1) \<Rightarrow> (Inl e, s1)
         | (Inr _, s1) \<Rightarrow> (Inr (), closeConnection env s1)))"

subsection \<open>The read loop\<close>

text \<open>
  Over TLS the handshake is made before every read, not only before the first. The
  shutdown after a failed one is taken not to throw.
\<close>

definition handleRequests :: "session_env \<Rightarrow> http_session \<Rightarrow> http_session" where
  "handleRequests env s =
     (let s1 = (if cs_secure s then s_op S_handshake s else s) in
      if cs_secure s \<and> se_handshake env \<noteq> Success \<and> se_handshake env \<noteq> StreamTruncated
      then s_op S_shutdown s1
      else checkDeadline (s_op S_async_read (s1\<lparr>cs_reading := True\<rparr>)))"

text \<open>The switch on the request method; \<open>indet\<close> is the indeterminate value of the uninitialised variable.\<close>

fun target_method :: "int \<Rightarrow> verb \<Rightarrow> int" where
  "target_method indet V_get = method_code Get"
| "target_method indet V_put = method_code Put"
| "target_method indet V_post = method_code Post"
| "target_method indet V_delete = method_code Delete"
| "target_method indet (V_other n) = indet"

definition read_packet :: "http_request \<Rightarrow> Packet" where
  "read_packet m_request = new_Packet\<lparr>pk_target := rq_target m_request, pk_body := rq_body m_request,
     pk_bodyType := (case rq_content_type m_request of None \<Rightarrow> Undefined
       | Some bodyType \<Rightarrow> Packet_fromString bodyType)\<rparr>"

definition dispatch ::
  "session_env \<Rightarrow> (MethodType \<rightharpoonup> processor) \<Rightarrow> int \<Rightarrow> http_request \<Rightarrow> http_session \<Rightarrow>
     unit res \<times> http_session" where
  "dispatch env m_processors indet m_request s =
     (case (case method_of (target_method indet (rq_verb m_request)) of None \<Rightarrow> None
            | Some m \<Rightarrow> m_processors m) of
        Some f \<Rightarrow> make_replies env (f (read_packet m_request)) s
      | None \<Rightarrow> sendErrorResponse env 405 ''Invalid method'' s)"

definition quiet_end :: "error_code \<Rightarrow> bool" where
  "quiet_end ec \<longleftrightarrow> ec = NotConnected \<or> ec = Eof \<or> ec = ConnectionReset \<or> ec = StreamTruncated \<or>
     ec = OperationAborted \<or> ec_value ec = 1"

definition readHandler ::
  "session_env \<Rightarrow> (MethodType \<rightharpoonup> processor) \<Rightarrow> int \<Rightarrow> error_code \<Rightarrow> http_request \<Rightarrow> http_session \<Rightarrow>
     unit res \<times> http_session" where
  "readHandler env m_processors indet ec m_request s =
     (let s0 = s\<lparr>cs_reading := False\<rparr> in
      if quiet_end ec then (Inr (), s0)
      else if ec \<noteq> Success then (Inr (), closeConnection env s0)
      else (case dispatch env m_processors indet m_request s0 of
              (Inl e, s1) \<Rightarrow> (Inl e, s1)
            | (Inr _, s1) \<Rightarrow> (Inr (), handleRequests env s1)))"

text \<open>The events of a session: a read completes, a wait on the timer ends, a late reply is made.\<close>

inductive http_step ::
  "session_env \<Rightarrow> (MethodType \<rightharpoonup> processor) \<Rightarrow> http_session \<Rightarrow> http_session \<Rightarrow> bool"
  for env procs where
  read: "cs_reading s \<Longrightarrow> http_step env procs s (snd (readHandler env procs indet ec req s))"
| expired: "0 < cs_waits s \<Longrightarrow>
     http_step env procs s (snd (on_deadline env Success (s\<lparr>cs_waits := cs_waits s - 1\<rparr>)))"
| aborted: "ec \<noteq> Success \<Longrightarrow> http_step env procs s (snd (on_deadline env ec s))"
| reply: "http_step env procs s (snd (make_reply env r s))"

inductive http_reachable ::
  "session_env \<Rightarrow> (MethodType \<rightharpoonup> processor) \<Rightarrow> http_session \<Rightarrow> http_session \<Rightarrow> bool"
  for env procs s0 where
  start: "http_reachable env procs s0 s0"
| step: "http_reachable env procs s0 s \<Longrightarrow> http_step env procs s t \<Longrightarrow> http_reachable env procs s0 t"

subsection \<open>What the operations keep\<close>

lemma finish_response_frame [simp]:
  "cs_deadline (snd (finish_response env pkt b s)) = cs_deadline s"
  "cs_waits (snd (finish_response env pkt b s)) = cs_waits s"
  "cs_open (snd (finish_response env pkt b s)) = cs_open s"
  by (simp_all add: finish_response_def s_op_def Let_def split: option.split)

lemma sendErrorResponse_eq:
  "sendErrorResponse env status e s = finish_response env (createErrorPacket (se_reason env) status)
     ((empty_response False)\<lparr>rp_body := se_reason env status\<rparr>)
     (s\<lparr>cs_responseErrorPacket := createErrorPacket (se_reason env) status\<rparr>)"
  by (subst sendErrorResponse.simps, subst sendResponse.simps)
    (simp add: createErrorPacket_def new_Packet_def Let_def)

lemma sendResponse_eq:
  "sendResponse env pkt s =
     (if \<not> pk_isFile pkt then finish_response env pkt ((empty_response False)\<lparr>rp_body := pk_body pkt\<rparr>) s
      else case se_file env (pk_target pkt) of
        Inl ec \<Rightarrow> sendErrorResponse env 400 ''Invalid file to download'' (s\<lparr>cs_response := empty_response True\<rparr>)
      | Inr content \<Rightarrow> finish_response env pkt ((empty_response True)\<lparr>rp_body := content\<rparr>)
          (s\<lparr>cs_response := empty_response True\<rparr>))"
  by (subst sendResponse.simps) (simp add: Let_def)

lemma sendResponse_frame [simp]:
  "cs_deadline (snd (sendResponse env pkt s)) = cs_deadline s"
  "cs_waits (snd (sendResponse env pkt s)) = cs_waits s"
  "cs_open (snd (sendResponse env pkt s)) = cs_open s"
  by (simp_all add: sendResponse_eq sendErrorResponse_eq split: sum.split)

lemma make_reply_frame [simp]:
  "cs_deadline (snd (make_reply env r s)) = cs_deadline s"
  "cs_waits (snd (make_reply env r s)) = cs_waits s"
  by (simp_all add: make_reply_def sendErrorResponse_eq split: reply.split)

lemma make_replies_frame [simp]:
  "cs_deadline (snd (make_replies env rs s)) = cs_deadline s \<and>
   cs_waits (snd (make_replies env rs s)) = cs_waits s"
proof (induction rs arbitrary: s)
  case (Cons r rs)
  obtain x s' where mr: "make_reply env r s = (x, s')" by fastforce
  have "cs_deadline s' = cs_deadline s" "cs_waits s' = cs_waits s"
    using make_reply_frame[of env r s] mr by simp_all
  then show ?case using Cons.IH[of s'] by (cases x) (simp_all add: mr)
qed simp

lemma closeConnection_frame [simp]:
  "cs_deadline (closeConnection env s) = cs_deadline s"
  "cs_waits (closeConnection env s) = 0"
  by (simp_all add: closeConnection_def cancel_timer_def s_op_def Let_def)

lemma handleRequests_frame [simp]:
  "cs_deadline (handleRequests env s) = cs_deadline s"
  "cs_waits (handleRequests env s) \<le> max 1 (cs_waits s)"
  by (simp_all add: handleRequests_def checkDeadline_def cancel_timer_def s_op_def Let_def)

lemma dispatch_frame [simp]:
  "cs_deadline (snd (dispatch env procs i req s)) = cs_deadline s"
  "cs_waits (snd (dispatch env procs i req s)) = cs_waits s"
  by (simp_all add: dispatch_def sendErrorResponse_eq split: option.split)

lemma readHandler_frame:
  "cs_deadline (snd (readHandler env procs i ec req s)) = cs_deadline s"
  "cs_waits s \<le> 1 \<Longrightarrow> cs_waits (snd (readHandler env procs i ec req s)) \<le> 1"
proof -
  obtain r s1 where d: "dispatch env procs i req (s\<lparr>cs_reading := False\<rparr>) = (r, s1)" by fastforce
  have s1: "cs_deadline s1 = cs_deadline s" "cs_waits s1 = cs_waits s"
    using dispatch_frame[of env procs i req "s\<lparr>cs_reading := False\<rparr>"] d by simp_all
  show "cs_deadline (snd (readHandler env procs i ec req s)) = cs_deadline s"
    using s1 by (cases r) (simp_all add: readHandler_def d Let_def)
  show "cs_waits s \<le> 1 \<Longrightarrow> cs_waits (snd (readHandler env procs i ec req s)) \<le> 1"
    using s1 handleRequests_frame(2)[of env s1] by (cases r) (auto simp: readHandler_def d Let_def)
qed

lemma on_deadline_frame:
  "cs_deadline (snd (on_deadline env ec s)) = cs_deadline s"
  "cs_waits (snd (on_deadline env ec s)) \<le> cs_waits s"
proof -
  let ?p = "(cs_responseErrorPacket s)\<lparr>pk_statusCode := 504\<rparr>"
  obtain r s1 where d: "sendResponse env ?p (s\<lparr>cs_responseErrorPacket := ?p\<rparr>) = (r, s1)" by fastforce
  have "cs_deadline s1 = cs_deadline s" "cs_waits s1 = cs_waits s"
    using sendResponse_frame[of env ?p "s\<lparr>cs_responseErrorPacket := ?p\<rparr>"] d by simp_all
  then show "cs_deadline (snd (on_deadline env ec s)) = cs_deadline s"
    "cs_waits (snd (on_deadline env ec s)) \<le> cs_waits s"
    by (cases r; simp add: on_deadline_def d Let_def)+
qed

lemma http_step_timer:
  assumes "http_step env procs s t"
  shows "cs_deadline t = cs_deadline s" and "cs_waits s \<le> 1 \<Longrightarrow> cs_waits t \<le> 1"
proof -
  show "cs_deadline t = cs_deadline s"
    using assms by (cases rule: http_step.cases) (simp_all add: readHandler_frame on_deadline_frame)
  assume w: "cs_waits s \<le> 1"
  show "cs_waits t \<le> 1"
    using assms
  proof (cases rule: http_step.cases)
    case expired
    then show ?thesis
      using w on_deadline_frame(2)[of env Success "s\<lparr>cs_waits := cs_waits s - 1\<rparr>"] by simp
  next
    case (aborted ec)
    then show ?thesis using w on_deadline_frame(2)[of env ec s] by simp
  next
    case (read indet ec req)
    then show ?thesis using readHandler_frame(2)[OF w] by blast
  next
    case (reply r)
    then show ?thesis using w by simp
  qed
qed

subsection \<open>Properties\<close>

text \<open>
  C32. Every response is exactly one write. When the library accepts the status, sending
  a packet succeeds and adds one write to the operations: from memory with the packet's
  body; from a file with the content of the file named by the target; and if that file
  cannot be opened, the error response 400 in its place, with the library's reason text
  (the text given to \<open>sendErrorResponse\<close> is not used) as plain text.
\<close>

theorem sendResponse_one_write:
  assumes "\<forall>st. se_result_throws env st = None"
  shows "fst (sendResponse env pkt s) = Inr () \<and>
    (\<exists>r. cs_ops (snd (sendResponse env pkt s)) = cs_ops s @ [S_async_write r] \<and>
      rp_server r = cs_selfServerName s \<and> rp_version r = 11 \<and>
      (case (if pk_isFile pkt then se_file env (pk_target pkt) else Inr (pk_body pkt)) of
         Inr content \<Rightarrow> rp_result r = pk_statusCode pkt \<and> rp_body r = content \<and>
           rp_content_type r = Packet_toString (pk_bodyType pkt) \<and> rp_isFileBody r = pk_isFile pkt
       | Inl ec \<Rightarrow> rp_result r = 400 \<and> rp_body r = se_reason env 400 \<and>
           rp_content_type r = ''text/plain'' \<and> \<not> rp_isFileBody r))"
  using assms
  by (cases "pk_isFile pkt"; cases "se_file env (pk_target pkt)")
    (simp_all add: sendResponse_eq sendErrorResponse_eq finish_response_def s_op_def
      createErrorPacket_def new_Packet_def empty_response_def Let_def)

definition sample_session_env :: session_env where
  "sample_session_env = \<lparr>se_handshake = Success, se_ssl_shutdown = Success, se_shutdown = Success,
     se_file = (\<lambda>f. if f = ''/f'' then Inr ''data'' else Inl (OtherError 2)),
     se_reason = (\<lambda>st. if st = 404 then ''Not Found'' else ''Bad Request''),
     se_result_throws = (\<lambda>_. None)\<rparr>"

lemma sendResponse_one_write_witness:
  "\<exists>r. cs_ops (snd (sendResponse sample_session_env (new_Packet\<lparr>pk_isFile := True, pk_target := ''/g''\<rparr>)
      (new_http_session ''srv'' False 0))) = [S_async_write r] \<and> rp_result r = 400 \<and> rp_body r = ''Bad Request''"
  using sendResponse_one_write[of sample_session_env "new_Packet\<lparr>pk_isFile := True, pk_target := ''/g''\<rparr>"
      "new_http_session ''srv'' False 0"]
  by (auto simp: sample_session_env_def new_http_session_def)

text \<open>
  Dispatch on the method. A request with one of the four methods is given to the
  processor of that method. For any other method the variable is uninitialised: its
  indeterminate value decides whether the answer is 405 or one of the processors handles
  the request as if it had that processor's method.
\<close>

theorem dispatch_by_method:
  "(rq_verb req = verb_of m \<and> procs m = Some f \<longrightarrow>
      dispatch env procs indet req s = make_replies env (f (read_packet req)) s) \<and>
   (rq_verb req = V_other n \<and> method_of indet = None \<longrightarrow>
      dispatch env procs indet req s = sendErrorResponse env 405 ''Invalid method'' s) \<and>
   (rq_verb req = V_other n \<and> indet = method_code m \<and> procs m = Some f \<longrightarrow>
      dispatch env procs indet req s = make_replies env (f (read_packet req)) s)"
proof -
  have "target_method indet (verb_of m) = method_code m" by (cases m) simp_all
  then show ?thesis by (auto simp: dispatch_def)
qed

lemma dispatch_by_method_witness:
  "let req = \<lparr>rq_verb = V_other ''HEAD'', rq_target = ''/'', rq_version = 11, rq_user_agent = [],
         rq_host = [], rq_content_type = None, rq_accept = None, rq_body = []\<rparr>;
       s = new_http_session ''srv'' False 0; procs = [Get \<mapsto> (\<lambda>p. [SendPacket p])]
   in dispatch sample_session_env procs 0 req s = make_replies sample_session_env [SendPacket (read_packet req)] s"
  using dispatch_by_method[of "\<lparr>rq_verb = V_other ''HEAD'', rq_target = ''/'', rq_version = 11,
      rq_user_agent = [], rq_host = [], rq_content_type = None, rq_accept = None, rq_body = []\<rparr>" Get
      "[Get \<mapsto> (\<lambda>p. [SendPacket p])]" "\<lambda>p. [SendPacket p]" sample_session_env 0
      "new_http_session ''srv'' False 0" "''HEAD''"]
  by simp

text \<open>
  C23. The deadline of a connection. In every state a session can reach, the timer still
  expires 10 seconds after the connection was made, however many requests were handled
  since: \<open>checkDeadline\<close> renews the wait, not the expiry. And there is never more than
  one wait that has not been cancelled.
\<close>

theorem deadline_never_moves:
  assumes "http_reachable env procs (handleRequests env (new_http_session name sec now)) s"
  shows "cs_deadline s = now + 10 \<and> cs_waits s \<le> 1"
  using assms
proof (induction rule: http_reachable.induct)
  case start
  then show ?case
    using handleRequests_frame(2)[of env "new_http_session name sec now"]
    by (simp add: new_http_session_def)
next
  case (step s t)
  then show ?case using http_step_timer[OF step.hyps(2)] by simp
qed

lemma deadline_never_moves_witness:
  "let s0 = handleRequests sample_session_env (new_http_session ''srv'' False 7);
       req = \<lparr>rq_verb = V_get, rq_target = ''/'', rq_version = 11, rq_user_agent = [], rq_host = [],
         rq_content_type = None, rq_accept = None, rq_body = []\<rparr>
   in cs_deadline (snd (readHandler sample_session_env Map.empty 9 Success req s0)) = 17"
proof -
  let ?s0 = "handleRequests sample_session_env (new_http_session ''srv'' False 7)"
  have "cs_reading ?s0"
    by (simp add: handleRequests_def new_http_session_def checkDeadline_def cancel_timer_def s_op_def Let_def)
  then have "http_reachable sample_session_env Map.empty ?s0
      (snd (readHandler sample_session_env Map.empty 9 Success req ?s0))" for req
    by (meson http_reachable.intros http_step.read)
  from deadline_never_moves[OF this] show ?thesis by simp
qed

text \<open>
  C26. The timeout response. When the deadline passes after an error response with status
  \<open>st\<close> (and no other since), the client is sent status 504 with the text of the earlier
  error as its body, and then the connection is closed.
\<close>

theorem timeout_repeats_old_body:
  assumes "\<forall>x. se_result_throws env x = None"
    and "s1 = snd (sendErrorResponse env st e s)"
  shows "\<exists>r. rp_result r = 504 \<and> rp_body r = se_reason env st \<and> rp_content_type r = ''text/plain'' \<and>
    on_deadline env Success s1 = (Inr (), closeConnection env
      (s1\<lparr>cs_responseErrorPacket := (createErrorPacket (se_reason env) st)\<lparr>pk_statusCode := 504\<rparr>,
        cs_response := r, cs_ops := cs_ops s1 @ [S_async_write r]\<rparr>))"
  by (rule exI[of _ "(empty_response False)\<lparr>rp_body := se_reason env st,
        rp_server := cs_selfServerName s, rp_content_type := ''text/plain'', rp_result := 504\<rparr>"])
    (simp add: assms on_deadline_def sendResponse_eq sendErrorResponse_eq finish_response_def s_op_def
      createErrorPacket_def new_Packet_def empty_response_def Let_def)

lemma closeConnection_ops: "\<exists>xs. cs_ops (closeConnection env s) = cs_ops s @ xs"
  by (simp add: closeConnection_def cancel_timer_def s_op_def Let_def)

lemma timeout_repeats_old_body_witness:
  "\<exists>r. rp_result r = 504 \<and> rp_body r = ''Not Found'' \<and>
     S_async_write r \<in> set (cs_ops (snd (on_deadline sample_session_env Success
       (snd (sendErrorResponse sample_session_env 404 [] (new_http_session ''srv'' False 0))))))"
proof -
  let ?s1 = "snd (sendErrorResponse sample_session_env 404 [] (new_http_session ''srv'' False 0))"
  let ?p = "(createErrorPacket (se_reason sample_session_env) 404)\<lparr>pk_statusCode := 504\<rparr>"
  have t: "\<forall>x. se_result_throws sample_session_env x = None" by (simp add: sample_session_env_def)
  obtain r where r: "rp_result r = 504" "rp_body r = se_reason sample_session_env 404"
    and d: "on_deadline sample_session_env Success ?s1 = (Inr (), closeConnection sample_session_env
       (?s1\<lparr>cs_responseErrorPacket := ?p, cs_response := r, cs_ops := cs_ops ?s1 @ [S_async_write r]\<rparr>))"
    using timeout_repeats_old_body[OF t refl, of 404 "[]" "new_http_session ''srv'' False 0"] by blast
  obtain xs where "cs_ops (closeConnection sample_session_env (?s1\<lparr>cs_responseErrorPacket := ?p,
      cs_response := r, cs_ops := cs_ops ?s1 @ [S_async_write r]\<rparr>)) = (cs_ops ?s1 @ [S_async_write r]) @ xs"
    using closeConnection_ops[of sample_session_env "?s1\<lparr>cs_responseErrorPacket := ?p,
      cs_response := r, cs_ops := cs_ops ?s1 @ [S_async_write r]\<rparr>"] by auto
  then have "S_async_write r \<in> set (cs_ops (snd (on_deadline sample_session_env Success ?s1)))"
    by (simp add: d)
  moreover have "se_reason sample_session_env 404 = ''Not Found''" by (simp add: sample_session_env_def)
  ultimately show ?thesis using r by metis
qed

end
