(* ===== verification/Http_Server.thy ===== *)
theory Http_Server
  imports Http_Session
begin

text \<open>
  The HTTP server (\<^verbatim>\<open>src/HTTP/server.cpp\<close>): the registry of target processors, the
  accept loop with the four processors it gives to every session, and starting and
  stopping. The contract of a registry of handlers is the locale \<open>handler_registry\<close>.
\<close>

subsection \<open>Registries of handlers\<close>

locale handler_registry =
  fixes reg :: "'s \<Rightarrow> 'k \<Rightarrow> 'h \<Rightarrow> 's"
    and look :: "'s \<Rightarrow> 'k \<Rightarrow> 'h option"
  assumes look_reg: "look (reg s k h) k' = (if k' = k then Some h else look s k')"
begin

definition reg_all :: "'s \<Rightarrow> ('k \<times> 'h) list \<Rightarrow> 's" where
  "reg_all s rs = foldl (\<lambda>s (k, h). reg s k h) s rs"

lemma last_wins:
  "look (reg_all s rs) k = (case map_of (rev rs) k of Some h \<Rightarrow> Some h | None \<Rightarrow> look s k)"
proof (induction rs rule: rev_induct)
  case Nil
  then show ?case by (simp add: reg_all_def)
next
  case (snoc r rs)
  obtain k' h where r: "r = (k', h)" by fastforce
  have "reg_all s (rs @ [r]) = reg (reg_all s rs) k' h" by (simp add: reg_all_def r)
  then show ?case using snoc.IH by (simp add: look_reg r)
qed

lemma registered_iff: "look (reg_all s rs) k \<noteq> None \<longleftrightarrow> k \<in> fst ` set rs \<or> look s k \<noteq> None"
proof -
  have "map_of (rev rs) k = None \<longleftrightarrow> k \<notin> fst ` set rs" by (simp add: map_of_eq_None_iff)
  then show ?thesis by (cases "map_of (rev rs) k") (auto simp: last_wins)
qed

end

subsection \<open>State\<close>

text \<open>
  A target processor replies by calling the responder it is given, and it may throw.
\<close>

type_synonym target_processor = "Packet \<Rightarrow> Packet list \<times> exn option"
type_synonym processors = "string \<rightharpoonup> (MethodType \<rightharpoonup> target_processor)"

record http_impl =
  im_port :: u16
  im_secure :: bool
  im_sessions :: "http_session list"
  im_stopped :: bool

text \<open>\<open>hs_running\<close>: a thread is inside \<^verbatim>\<open>m_ioc.run()\<close>, called by \<open>start\<close>.\<close>

record http_server =
  hs_processors :: processors
  hs_certFile :: string
  hs_privKeyFile :: string
  hs_d :: "http_impl option"
  hs_serverName :: string
  hs_running :: bool

text \<open>
  \<open>ve_acceptor\<close>: the answer to opening and binding an acceptor, given the ports on which
  acceptors of this server are already listening. \<open>ve_ssl\<close>: the answer to loading the
  certificate and the key. \<open>ve_session\<close>: what the sessions' calls answer.
\<close>

record server_env =
  ve_acceptor :: "u16 set \<Rightarrow> u16 \<Rightarrow> exn option"
  ve_ssl :: "string \<Rightarrow> string \<Rightarrow> exn option"
  ve_session :: session_env

definition new_http_server :: "string \<Rightarrow> string \<Rightarrow> string \<Rightarrow> http_server" where
  "new_http_server serverName certFile privKeyFile = \<lparr>hs_processors = Map.empty,
     hs_certFile = certFile, hs_privKeyFile = privKeyFile, hs_d = None,
     hs_serverName = serverName, hs_running = False\<rparr>"

subsection \<open>Handlers\<close>

definition set_handler :: "MethodType \<Rightarrow> string \<Rightarrow> target_processor \<Rightarrow> processors \<Rightarrow> processors" where
  "set_handler m target cbk ps =
     ps(target \<mapsto> (case ps target of None \<Rightarrow> [m \<mapsto> cbk] | Some ms \<Rightarrow> ms(m \<mapsto> cbk)))"

definition setGetHandler :: "string \<Rightarrow> target_processor \<Rightarrow> http_server \<Rightarrow> http_server" where
  "setGetHandler target cbk s = s\<lparr>hs_processors := set_handler Get target cbk (hs_processors s)\<rparr>"

definition setPostHandler :: "string \<Rightarrow> target_processor \<Rightarrow> http_server \<Rightarrow> http_server" where
  "setPostHandler target cbk s = s\<lparr>hs_processors := set_handler Post target cbk (hs_processors s)\<rparr>"

definition setPutHandler :: "string \<Rightarrow> target_processor \<Rightarrow> http_server \<Rightarrow> http_server" where
  "setPutHandler target cbk s = s\<lparr>hs_processors := set_handler Put target cbk (hs_processors s)\<rparr>"

definition setDeleteHandler :: "string \<Rightarrow> target_processor \<Rightarrow> http_server \<Rightarrow> http_server" where
  "setDeleteHandler target cbk s = s\<lparr>hs_processors := set_handler Delete target cbk (hs_processors s)\<rparr>"

fun set_method_handler :: "MethodType \<Rightarrow> string \<Rightarrow> target_processor \<Rightarrow> http_server \<Rightarrow> http_server" where
  "set_method_handler Get = setGetHandler"
| "set_method_handler Post = setPostHandler"
| "set_method_handler Put = setPutHandler"
| "set_method_handler Delete = setDeleteHandler"

definition find_handler :: "processors \<Rightarrow> string \<Rightarrow> MethodType \<Rightarrow> target_processor option" where
  "find_handler ps target m = (case ps target of None \<Rightarrow> None | Some ms \<Rightarrow> ms m)"

definition handleMethod :: "processors \<Rightarrow> MethodType \<Rightarrow> Packet \<Rightarrow> reply list" where
  "handleMethod ps methType pkt =
     (case ps (pk_target pkt) of
        None \<Rightarrow> [SendError 501]
      | Some ms \<Rightarrow>
          (case ms methType of
             None \<Rightarrow> [SendError 404]
           | Some f \<Rightarrow>
               (case f pkt of (replies, e) \<Rightarrow>
                  map SendPacket replies @ (case e of None \<Rightarrow> [] | Some x \<Rightarrow> [Raise x]))))"

text \<open>
  Every session gets a processor for each of the four methods. They refer to the
  server's registry, so they see handlers registered later.
\<close>

definition addMethod :: "processors \<Rightarrow> MethodType \<Rightarrow> (MethodType \<rightharpoonup> processor) \<Rightarrow> (MethodType \<rightharpoonup> processor)" where
  "addMethod ps methType procs = procs(methType \<mapsto> handleMethod ps methType)"

definition session_processors :: "processors \<Rightarrow> (MethodType \<rightharpoonup> processor)" where
  "session_processors ps = addMethod ps Delete (addMethod ps Post (addMethod ps Put (addMethod ps Get Map.empty)))"

subsection \<open>Serving\<close>

text \<open>
  The completions the loop of \<^verbatim>\<open>run()\<close> dispatches, one after the other. \<open>Accepted now ec\<close>: an accept ends;
  \<open>ReadDone i v ec req\<close>: session \<open>i\<close> has read a request (\<open>v\<close> is the indeterminate value
  of the uninitialised method variable); \<open>TimerDone i ec\<close>: a wait of session \<open>i\<close> ends.
\<close>

datatype http_event =
    Accepted nat error_code
  | ReadDone nat int error_code http_request
  | TimerDone nat error_code

definition on_accept :: "server_env \<Rightarrow> string \<Rightarrow> nat \<Rightarrow> error_code \<Rightarrow> http_impl \<Rightarrow> http_impl" where
  "on_accept env serverName now ec d =
     (if ec \<noteq> Success then d
      else d\<lparr>im_sessions := im_sessions d @
        [handleRequests (ve_session env) (new_http_session serverName (im_secure d) now)]\<rparr>)"

definition on_session ::
  "nat \<Rightarrow> (http_session \<Rightarrow> unit res \<times> http_session) \<Rightarrow> http_impl \<Rightarrow> unit res \<times> http_impl" where
  "on_session i f d =
     (if i < length (im_sessions d) then
        (case f (im_sessions d ! i) of (r, s) \<Rightarrow> (r, d\<lparr>im_sessions := (im_sessions d)[i := s]\<rparr>))
      else (Inr (), d))"

fun on_http_event ::
  "server_env \<Rightarrow> string \<Rightarrow> processors \<Rightarrow> http_event \<Rightarrow> http_impl \<Rightarrow> unit res \<times> http_impl" where
  "on_http_event env name ps (Accepted now ec) d = (Inr (), on_accept env name now ec d)"
| "on_http_event env name ps (ReadDone i v ec req) d =
     on_session i (readHandler (ve_session env) (session_processors ps) v ec req) d"
| "on_http_event env name ps (TimerDone i ec) d = on_session i (on_deadline (ve_session env) ec) d"

text \<open>
  \<open>run()\<close> dispatches completions until one of the handlers throws; the exception is
  caught in \<open>start\<close>, which then returns. There is always an accept pending, so it does not
  end otherwise.
\<close>

fun run_events :: "server_env \<Rightarrow> http_event list \<Rightarrow> http_server \<Rightarrow> http_server" where
  "run_events env [] s = s"
| "run_events env (e # es) s =
     (case hs_d s of
        None \<Rightarrow> s
      | Some d \<Rightarrow>
          if \<not> hs_running s then s
          else (case on_http_event env (hs_serverName s) (hs_processors s) e d of
                  (Inr _, d') \<Rightarrow> run_events env es (s\<lparr>hs_d := Some d'\<rparr>)
                | (Inl x, d') \<Rightarrow> s\<lparr>hs_d := Some d', hs_running := False\<rparr>))"

definition listening :: "http_server \<Rightarrow> u16 set" where
  "listening s = (case hs_d s of None \<Rightarrow> {} | Some d \<Rightarrow> {im_port d})"

text \<open>
  The new \<open>Impl\<close> is constructed before the old one is released. What its constructor throws leaves \<open>start\<close>.
  Releasing an \<open>Impl\<close> whose \<open>run()\<close> has not returned is undefined.
\<close>

definition new_Impl :: "server_env \<Rightarrow> u16 \<Rightarrow> http_server \<Rightarrow> http_impl res" where
  "new_Impl env port s =
     (case ve_acceptor env (listening s) port of
        Some e \<Rightarrow> Inl e
      | None \<Rightarrow>
          if hs_certFile s = [] then
            Inr \<lparr>im_port = port, im_secure = False, im_sessions = [], im_stopped = False\<rparr>
          else (case ve_ssl env (hs_certFile s) (hs_privKeyFile s) of
                  Some e \<Rightarrow> Inl e
                | None \<Rightarrow> Inr \<lparr>im_port = port, im_secure = True, im_sessions = [], im_stopped = False\<rparr>))"

definition start_server :: "server_env \<Rightarrow> u16 \<Rightarrow> http_server \<Rightarrow> http_server beh" where
  "start_server env port s =
     (case new_Impl env port s of
        Inl e \<Rightarrow> Throws e
      | Inr d \<Rightarrow> if hs_running s then UB else Returns (s\<lparr>hs_d := Some d, hs_running := True\<rparr>))"

definition isRunning :: "http_server \<Rightarrow> bool" where
  "isRunning s = (case hs_d s of None \<Rightarrow> False | Some d \<Rightarrow> \<not> im_stopped d)"

definition stop_server :: "http_server \<Rightarrow> http_server beh" where
  "stop_server s =
     (if isRunning s then if hs_running s then UB else Returns (s\<lparr>hs_d := None\<rparr>)
      else Returns s)"

text \<open>The destructor stops the server.\<close>

definition destroy_http_server :: "http_server \<Rightarrow> http_server beh" where
  "destroy_http_server s = stop_server s"

subsection \<open>The registry\<close>

lemma find_set_handler:
  "find_handler (set_handler m t f ps) t' m' = (if (t', m') = (t, m) then Some f else find_handler ps t' m')"
  by (auto simp: find_handler_def set_handler_def split: option.split)

definition register :: "http_server \<Rightarrow> string \<times> MethodType \<Rightarrow> target_processor \<Rightarrow> http_server" where
  "register s k f = set_method_handler (snd k) (fst k) f s"

definition lookup_handler :: "http_server \<Rightarrow> string \<times> MethodType \<Rightarrow> target_processor option" where
  "lookup_handler s k = find_handler (hs_processors s) (fst k) (snd k)"

lemma register_processors [simp]:
  "hs_processors (register s k f) = set_handler (snd k) (fst k) f (hs_processors s)"
  by (cases "snd k")
    (simp_all add: register_def setGetHandler_def setPostHandler_def setPutHandler_def setDeleteHandler_def)

interpretation http_handlers: handler_registry register lookup_handler
  by unfold_locales (auto simp: lookup_handler_def find_set_handler prod_eq_iff)

text \<open>A sequence of registrations, each with its target, its method and its processor.\<close>

definition register_all :: "http_server \<Rightarrow> ((string \<times> MethodType) \<times> target_processor) list \<Rightarrow> http_server" where
  "register_all s rs = foldl (\<lambda>s r. register s (fst r) (snd r)) s rs"

lemma register_all_eq: "register_all = http_handlers.reg_all"
  by (intro ext) (simp add: register_all_def http_handlers.reg_all_def split_def)

lemma register_all_targets:
  "hs_processors (register_all s rs) t = None \<longleftrightarrow> hs_processors s t = None \<and> t \<notin> fst ` fst ` set rs"
  by (induction rs rule: rev_induct) (auto simp: register_all_def set_handler_def)

lemma session_processors_all [simp]: "session_processors ps m = Some (handleMethod ps m)"
  by (cases m) (simp_all add: session_processors_def addMethod_def)

lemma handleMethod_found:
  "find_handler ps (pk_target pkt) m = Some f \<Longrightarrow>
   handleMethod ps m pkt = map SendPacket (fst (f pkt)) @ (case snd (f pkt) of None \<Rightarrow> [] | Some x \<Rightarrow> [Raise x])"
  by (auto simp: find_handler_def handleMethod_def split: option.splits prod.split)

lemma handleMethod_not_found:
  "find_handler ps (pk_target pkt) m = None \<Longrightarrow>
   handleMethod ps m pkt = [SendError (if ps (pk_target pkt) = None then 501 else 404)]"
  by (auto simp: find_handler_def handleMethod_def split: option.splits)

subsection \<open>Replies of a processor\<close>

lemma sendResponse_accepted:
  assumes "\<forall>st. se_result_throws env st = None"
  shows "\<exists>r. fst (sendResponse env p s) = Inr () \<and>
    cs_ops (snd (sendResponse env p s)) = cs_ops s @ [S_async_write r] \<and>
    cs_secure (snd (sendResponse env p s)) = cs_secure s"
  using assms by (cases "se_file env (pk_target p)")
    (simp_all add: sendResponse_eq sendErrorResponse_eq finish_response_def s_op_def Let_def)

lemma make_replies_append:
  "make_replies env (xs @ ys) s = (case make_replies env xs s of
     (Inl e, s') \<Rightarrow> (Inl e, s') | (Inr _, s') \<Rightarrow> make_replies env ys s')"
proof (induction xs arbitrary: s)
  case (Cons x xs)
  obtain r s' where "make_reply env x s = (r, s')" by fastforce
  then show ?case using Cons.IH by (cases r) simp_all
qed simp

lemma make_replies_packets:
  assumes "\<forall>st. se_result_throws env st = None"
  shows "\<exists>rs s'. make_replies env (map SendPacket ps) s = (Inr (), s') \<and> length rs = length ps \<and>
    cs_ops s' = cs_ops s @ map S_async_write rs \<and> cs_secure s' = cs_secure s"
proof (induction ps arbitrary: s)
  case (Cons p ps)
  obtain r s1 where s1: "sendResponse env p s = (Inr (), s1)" "cs_ops s1 = cs_ops s @ [S_async_write r]"
    "cs_secure s1 = cs_secure s"
    using sendResponse_accepted[OF assms, of p s] by (metis prod.collapse)
  obtain rs s' where "make_replies env (map SendPacket ps) s1 = (Inr (), s')" "length rs = length ps"
    "cs_ops s' = cs_ops s1 @ map S_async_write rs" "cs_secure s' = cs_secure s1"
    using Cons.IH by blast
  then show ?case using s1 by (intro exI[of _ "r # rs"]) (simp add: make_reply_def)
qed simp

lemma dispatch_known:
  assumes "rq_verb req = verb_of m"
  shows "dispatch env (session_processors ps) v req s =
    make_replies env (handleMethod ps m (read_packet req)) s"
  using assms by (cases m) (simp_all add: dispatch_def method_of_def)

lemma handleRequests_plain_ops:
  "\<not> cs_secure s \<Longrightarrow> cs_ops (handleRequests env s) = cs_ops s @ [S_async_read]"
  by (simp add: handleRequests_def checkDeadline_def cancel_timer_def s_op_def Let_def)

lemma read_packet_target [simp]: "pk_target (read_packet req) = rq_target req"
  by (simp add: read_packet_def)

lemma run_one_event:
  assumes "hs_d s = Some d" and "hs_running s" and "i < length (im_sessions d)"
    and "readHandler (ve_session env) (session_processors (hs_processors s)) v ec req (im_sessions d ! i) = (r, t)"
  shows "run_events env (ReadDone i v ec req # es) s =
    (case r of Inr _ \<Rightarrow> run_events env es (s\<lparr>hs_d := Some (d\<lparr>im_sessions := (im_sessions d)[i := t]\<rparr>)\<rparr>)
     | Inl x \<Rightarrow> s\<lparr>hs_d := Some (d\<lparr>im_sessions := (im_sessions d)[i := t]\<rparr>), hs_running := False\<rparr>)"
  using assms by (simp add: on_session_def split: sum.split)

lemmas run_read = run_one_event readHandler_def quiet_end_def ec_value_def Let_def

subsection \<open>Properties\<close>

text \<open>
  C5. Routing. After any sequence of registrations, a request for a target and a method
  is given to the processor registered last for exactly that pair, and its packets are the
  replies, in the order the processor made them; if there is none the answer is 404 when
  some processor was registered for the target, and 501 otherwise.
\<close>

theorem requests_routed:
  "handleMethod (hs_processors (register_all (new_http_server name cert key) rs)) m pkt =
   (case map_of (rev rs) (pk_target pkt, m) of
      Some f \<Rightarrow> map SendPacket (fst (f pkt)) @ (case snd (f pkt) of None \<Rightarrow> [] | Some x \<Rightarrow> [Raise x])
    | None \<Rightarrow> [SendError (if pk_target pkt \<in> fst ` fst ` set rs then 404 else 501)])"
proof -
  let ?s = "register_all (new_http_server name cert key) rs"
  have empty: "find_handler (hs_processors (new_http_server name cert key)) t n = None" for t n
    by (simp add: find_handler_def new_http_server_def)
  have "find_handler (hs_processors ?s) (pk_target pkt) m = map_of (rev rs) (pk_target pkt, m)"
    using http_handlers.last_wins[of "new_http_server name cert key" rs "(pk_target pkt, m)"] empty
    by (cases "map_of (rev rs) (pk_target pkt, m)") (simp_all add: register_all_eq lookup_handler_def)
  moreover have "hs_processors ?s t = None \<longleftrightarrow> t \<notin> fst ` fst ` set rs" for t
    by (simp add: register_all_targets new_http_server_def)
  ultimately show ?thesis
    by (cases "map_of (rev rs) (pk_target pkt, m)")
      (simp_all add: handleMethod_found handleMethod_not_found)
qed



definition sample_server_env :: server_env where
  "sample_server_env = \<lparr>ve_acceptor = (\<lambda>ports port. if port \<in> ports
       then Some (StdException ''bind: Address already in use'') else None),
     ve_ssl = (\<lambda>_ _. None), ve_session = sample_session_env\<rparr>"

definition sample_processor :: target_processor where
  "sample_processor pkt = (if pk_body pkt = [] then ([], Some (RuntimeError ''no body''))
     else ([pkt\<lparr>pk_statusCode := 200\<rparr>], None))"

definition sample_request :: "string \<Rightarrow> http_request" where
  "sample_request body = \<lparr>rq_verb = V_post, rq_target = ''/a'', rq_version = 11, rq_user_agent = [],
     rq_host = [], rq_content_type = None, rq_accept = None, rq_body = body\<rparr>"

definition sample_impl :: http_impl where
  "sample_impl = \<lparr>im_port = 80, im_secure = False, im_sessions = [new_http_session ''srv'' False 0],
     im_stopped = False\<rparr>"

definition sample_server :: http_server where
  "sample_server = (register (new_http_server ''srv'' [] []) (''/a'', Post) sample_processor)
     \<lparr>hs_d := Some sample_impl, hs_running := True\<rparr>"

lemma sample_server_facts:
  "hs_d sample_server = Some sample_impl" "hs_running sample_server"
  "\<not> cs_secure (im_sessions sample_impl ! 0)" "0 < length (im_sessions sample_impl)"
  "rq_verb (sample_request b) = verb_of Post"
  "find_handler (hs_processors sample_server) (rq_target (sample_request b)) Post = Some sample_processor"
  "\<forall>st. se_result_throws (ve_session sample_server_env) st = None"
  "cs_ops (im_sessions sample_impl ! 0) = []"
  "pk_body (read_packet (sample_request b)) = b"
  by (simp_all add: sample_server_def sample_impl_def sample_request_def new_http_session_def
      find_set_handler sample_server_env_def sample_session_env_def read_packet_def)


text \<open>
  C32. A processor that throws takes the server down. The responses it made before are
  written; then the exception leaves \<open>run()\<close> and \<open>start\<close> returns: no later completion is
  handled (in no session), but \<open>isRunning\<close> keeps its answer. Starting again on the same port throws as long as
  the old acceptor occupies it; after \<open>stop\<close> it succeeds.
\<close>

theorem throwing_processor_ends_server:
  assumes "hs_d s = Some d" and "hs_running s" and "i < length (im_sessions d)"
    and "rq_verb req = verb_of m"
    and "find_handler (hs_processors s) (rq_target req) m = Some f"
    and "f (read_packet req) = (pkts, Some x)"
    and "\<forall>st. se_result_throws (ve_session env) st = None"
    and "hs_certFile s = []" and "\<not> im_stopped d"
    and "\<forall>ports port. ve_acceptor env ports port \<noteq> None \<longleftrightarrow> port \<in> ports"
  shows "\<exists>s' s'' e. (\<forall>es. run_events env (ReadDone i v Success req # es) s = s') \<and>
    \<not> hs_running s' \<and> isRunning s' \<and>
    start_server env (im_port d) s' = Throws e \<and>
    stop_server s' = Returns s'' \<and> \<not> isRunning s'' \<and>
    (\<exists>t. start_server env (im_port d) s'' = Returns t \<and> hs_running t)"
proof -
  let ?s0 = "(im_sessions d ! i)\<lparr>cs_reading := False\<rparr>"
  obtain s1 where m: "make_replies (ve_session env) (map SendPacket pkts) ?s0 = (Inr (), s1)"
    using make_replies_packets[OF assms(7)] by blast
  have "dispatch (ve_session env) (session_processors (hs_processors s)) v req ?s0 = (Inl x, s1)"
    using assms(5,6)
    by (simp add: dispatch_known[OF assms(4)] handleMethod_found make_replies_append m make_reply_def)
  then have r: "readHandler (ve_session env) (session_processors (hs_processors s)) v Success req
      (im_sessions d ! i) = (Inl x, s1)"
    by (simp add: readHandler_def quiet_end_def ec_value_def Let_def)
  let ?s' = "s\<lparr>hs_d := Some (d\<lparr>im_sessions := (im_sessions d)[i := s1]\<rparr>), hs_running := False\<rparr>"
  have run: "run_events env (ReadDone i v Success req # es) s = ?s'" for es
    using run_one_event[OF assms(1-3) r] by simp
  obtain e where "ve_acceptor env {im_port d} (im_port d) = Some e" using assms(10) by blast
  moreover have "ve_acceptor env {} (im_port d) = None" using assms(10) by blast
  ultimately have start: "start_server env (im_port d) ?s' = Throws e"
    "\<exists>t. start_server env (im_port d) (?s'\<lparr>hs_d := None\<rparr>) = Returns t \<and> hs_running t"
    using assms(8) by (simp_all add: start_server_def new_Impl_def listening_def)
  have "isRunning ?s'" "\<not> isRunning (?s'\<lparr>hs_d := None\<rparr>)" "\<not> hs_running ?s'"
    "stop_server ?s' = Returns (?s'\<lparr>hs_d := None\<rparr>)"
    using assms(9) by (simp_all add: isRunning_def stop_server_def)
  then show ?thesis using run start by blast
qed

lemma throwing_processor_ends_server_witness:
  "isRunning (run_events sample_server_env [ReadDone 0 7 Success (sample_request [])] sample_server) \<and>
   \<not> hs_running (run_events sample_server_env [ReadDone 0 7 Success (sample_request [])] sample_server)"
proof -
  have f: "sample_processor (read_packet (sample_request [])) = ([], Some (RuntimeError ''no body''))"
    by (simp add: sample_processor_def sample_server_facts)
  have "hs_certFile sample_server = []" "\<not> im_stopped sample_impl"
    and "\<forall>ports port. ve_acceptor sample_server_env ports port \<noteq> None \<longleftrightarrow> port \<in> ports"
    by (simp_all add: sample_server_def sample_impl_def register_def setPostHandler_def
        new_http_server_def sample_server_env_def)
  from throwing_processor_ends_server[OF sample_server_facts(1,2,4,5,6) f sample_server_facts(7) this,
      of 7]
  show ?thesis by auto
qed

end
