(* ===== verification/Http_System.thy ===== *)
theory Http_System
  imports Http_Client Http_Server
begin

text \<open>
  HTTP client and server together: a request of the client (\<^verbatim>\<open>src/HTTP/client.cpp\<close>),
  routed by the server (\<^verbatim>\<open>server.cpp\<close>) to a processor, and the response the session
  (\<^verbatim>\<open>connectionsession.cpp\<close>) writes, as the client gives it to its caller.
\<close>

lemma Packet_fromString_toString [simp]: "Packet_fromString (Packet_toString b) = b"
  by (cases b) (simp_all add: Packet_fromString_def)

text \<open>What the session reads of a request the client built.\<close>

lemma read_packet_build_request:
  "read_packet (build_request c m pkt) = new_Packet\<lparr>pk_target := pk_target pkt, pk_body := pk_body pkt,
     pk_bodyType := pk_bodyType pkt\<rparr>"
  by (simp add: read_packet_def build_request_def)

text \<open>The response the session makes of a packet held in memory.\<close>

definition memory_response :: "string \<Rightarrow> Packet \<Rightarrow> response" where
  "memory_response name p = (empty_response False)\<lparr>rp_body := pk_body p, rp_server := name,
     rp_content_type := Packet_toString (pk_bodyType p), rp_result := pk_statusCode p\<rparr>"

lemma sendResponse_memory:
  assumes "\<not> pk_isFile p" and "se_result_throws env (pk_statusCode p) = None"
  shows "sendResponse env p s = (Inr (), s_op (S_async_write (memory_response (cs_selfServerName s) p))
    (s\<lparr>cs_response := memory_response (cs_selfServerName s) p\<rparr>))"
  using assms
  by (simp add: sendResponse_eq finish_response_def memory_response_def empty_response_def Let_def)

lemma readHandler_one_reply:
  assumes "rq_verb req = verb_of m" and "find_handler ps (rq_target req) m = Some f"
    and "f (read_packet req) = ([p], None)" and "\<not> pk_isFile p"
    and "se_result_throws env (pk_statusCode p) = None"
  shows "readHandler env (session_processors ps) v Success req s =
    (Inr (), handleRequests env (s_op (S_async_write (memory_response (cs_selfServerName s) p))
      (s\<lparr>cs_reading := False, cs_response := memory_response (cs_selfServerName s) p\<rparr>)))"
proof -
  have "handleMethod ps m (read_packet req) = [SendPacket p]"
    using assms(2,3) by (simp add: handleMethod_found)
  then show ?thesis using assms(4,5)
    by (simp add: readHandler_def quiet_end_def ec_value_def dispatch_known[OF assms(1)] make_reply_def
        sendResponse_memory Let_def)
qed

lemma request_copy_result:
  assumes "fst (connectToHost env c) = Returns True" and "e_write env = Success" and "e_read env = Success"
    and "e_response env = \<lparr>rs_result = st, rs_content_type = Some (Packet_toString b), rs_body = body\<rparr>"
  shows "fst (request_copy env (method_code m) pkt c) =
    Returns (new_Packet\<lparr>pk_target := pk_target pkt, pk_acceptableType := pk_acceptableType pkt,
      pk_statusCode := st, pk_bodyType := b, pk_body := body\<rparr>)"
proof -
  obtain c1 where con: "connectToHost env c = (Returns True, c1)" using connected_eq[OF assms(1)] by blast
  show ?thesis
    by (simp add: request_copy_def assms(2-4) con write_read_success case_prod_unfold fill_packet_fst
        new_Packet_def Let_def)
qed

subsection \<open>Properties\<close>



end
