(* ===== verification/Http_Session_Life.thy ===== *)
theory Http_Session_Life
  imports Http_Server
begin

text \<open>
  A session of the HTTP server over its whole life (\<^verbatim>\<open>src/HTTP/connectionsession.cpp\<close>,
  \<^verbatim>\<open>server.cpp\<close>): what it ever sends, how often it shakes hands, who owns it and when it is
  closed. The operations are those of \<open>Http_Session\<close>; a run is \<open>http_reachable\<close>.
\<close>

subsection \<open>Connection and destruction\<close>

definition isConnected_s :: "http_session \<Rightarrow> bool" where
  "isConnected_s s = cs_open s"

definition destroy_session :: "session_env \<Rightarrow> http_session \<Rightarrow> http_session" where
  "destroy_session env s = closeConnection env s"

text \<open>
  The owners of a session: the closures stored in its own \<^verbatim>\<open>m_processors\<close>, one per method,
  the pending read and the pending waits. (The local variables of the accept handler and
  pending writes come on top; they end.) It is destroyed when there is none.
\<close>

definition owners :: "(MethodType \<rightharpoonup> processor) \<Rightarrow> http_session \<Rightarrow> nat" where
  "owners procs s = length (filter (\<lambda>m. procs m \<noteq> None) [Get, Put, Post, Delete]) +
     (if cs_reading s then 1 else 0) + cs_waits s"

subsection \<open>Operations that only write\<close>

text \<open>
  Everything a processor, a late reply or the timeout makes of a session: responses that
  are written, and fields that do not bear on the connection.
\<close>

definition wf_response :: "session_env \<Rightarrow> string \<Rightarrow> response \<Rightarrow> bool" where
  "wf_response env name r \<longleftrightarrow> rp_version r = 11 \<and> rp_server r = name \<and>
     rp_content_type r \<in> range Packet_toString \<and> se_result_throws env (rp_result r) = None \<and>
     (if rp_isFileBody r then \<exists>path. se_file env path = Inr (rp_body r) else True)"

definition writes_only :: "session_env \<Rightarrow> http_session \<Rightarrow> http_session \<Rightarrow> bool" where
  "writes_only env s t \<longleftrightarrow> cs_secure t = cs_secure s \<and> cs_open t = cs_open s \<and> cs_reading t = cs_reading s \<and>
     cs_selfServerName t = cs_selfServerName s \<and> cs_waits t = cs_waits s \<and>
     (\<exists>rs. cs_ops t = cs_ops s @ map S_async_write rs \<and> (\<forall>r \<in> set rs. wf_response env (cs_selfServerName s) r))"

lemma writes_only_refl [simp]: "writes_only env s s"
  unfolding writes_only_def by (intro conjI refl exI[of _ "[]"]) simp_all

lemma writes_only_trans: "writes_only env s t \<Longrightarrow> writes_only env t u \<Longrightarrow> writes_only env s u"
proof -
  assume st: "writes_only env s t" and tu: "writes_only env t u"
  obtain rs where rs: "cs_ops t = cs_ops s @ map S_async_write rs" "\<forall>r \<in> set rs. wf_response env (cs_selfServerName s) r"
    using st by (auto simp: writes_only_def)
  obtain rs' where rs': "cs_ops u = cs_ops t @ map S_async_write rs'" "\<forall>r \<in> set rs'. wf_response env (cs_selfServerName t) r"
    using tu by (auto simp: writes_only_def)
  have "cs_ops u = cs_ops s @ map S_async_write (rs @ rs')" "\<forall>r \<in> set (rs @ rs'). wf_response env (cs_selfServerName s) r"
    using rs rs' st by (auto simp: writes_only_def)
  then show ?thesis using st tu unfolding writes_only_def by metis
qed

lemma finish_response_writes:
  assumes "if rp_isFileBody body then \<exists>path. se_file env path = Inr (rp_body body) else True"
  shows "writes_only env s (snd (finish_response env pkt body s))"
proof (cases "se_result_throws env (pk_statusCode pkt)")
  case None
  then show ?thesis using assms
    unfolding writes_only_def finish_response_def
    by (intro conjI exI[of _ "[body\<lparr>rp_version := 11, rp_server := cs_selfServerName s,
        rp_content_type := Packet_toString (pk_bodyType pkt), rp_result := pk_statusCode pkt\<rparr>]"])
      (simp_all add: s_op_def wf_response_def Let_def)
next
  case (Some e)
  then show ?thesis unfolding writes_only_def finish_response_def
    by (intro conjI exI[of _ "[]"]) (simp_all add: Let_def)
qed

lemma writes_only_fields:
  "writes_only env (s\<lparr>cs_responseErrorPacket := p\<rparr>) t = writes_only env s t"
  "writes_only env (s\<lparr>cs_response := r\<rparr>) t = writes_only env s t"
  by (simp_all add: writes_only_def)

lemma sendErrorResponse_writes: "writes_only env s (snd (sendErrorResponse env st e s))"
  using finish_response_writes[of "(empty_response False)\<lparr>rp_body := se_reason env st\<rparr>" env
      "s\<lparr>cs_responseErrorPacket := createErrorPacket (se_reason env) st\<rparr>" "createErrorPacket (se_reason env) st"]
  by (simp add: sendErrorResponse_eq empty_response_def writes_only_fields)

lemma sendResponse_writes: "writes_only env s (snd (sendResponse env pkt s))"
proof (cases "pk_isFile pkt")
  case False
  then show ?thesis using finish_response_writes[of "(empty_response False)\<lparr>rp_body := pk_body pkt\<rparr>" env s pkt]
    by (simp add: sendResponse_eq empty_response_def)
next
  case True
  show ?thesis
  proof (cases "se_file env (pk_target pkt)")
    case (Inl ec)
    then show ?thesis
      using True sendErrorResponse_writes[of env "s\<lparr>cs_response := empty_response True\<rparr>" 400 "''Invalid file to download''"]
      by (simp add: sendResponse_eq writes_only_fields)
  next
    case (Inr content)
    then show ?thesis
      using True finish_response_writes[of "(empty_response True)\<lparr>rp_body := content\<rparr>" env
          "s\<lparr>cs_response := empty_response True\<rparr>" pkt]
      by (auto simp: sendResponse_eq empty_response_def writes_only_fields)
  qed
qed

lemma make_reply_writes: "writes_only env s (snd (make_reply env r s))"
  by (cases r) (simp_all add: make_reply_def sendErrorResponse_writes sendResponse_writes)

lemma make_replies_writes: "writes_only env s (snd (make_replies env rs s))"
proof (induction rs arbitrary: s)
  case (Cons r rs)
  obtain x t where t: "make_reply env r s = (x, t)" by fastforce
  have "writes_only env s t" using make_reply_writes[of env s r] t by simp
  then show ?case using Cons.IH[of t] t by (cases x) (auto intro: writes_only_trans)
qed simp

lemma dispatch_writes: "writes_only env s (snd (dispatch env procs i req s))"
  by (simp add: dispatch_def make_replies_writes sendErrorResponse_writes split: option.split)

text \<open>The other ways a session moves: it is closed, or reads on.\<close>

lemma closeConnection_effect:
  "\<exists>xs. cs_ops (closeConnection env s) = cs_ops s @ xs \<and> set xs \<subseteq> {S_ssl_shutdown, S_shutdown, S_close} \<and>
     cs_reading (closeConnection env s) = cs_reading s \<and> cs_secure (closeConnection env s) = cs_secure s \<and>
     cs_selfServerName (closeConnection env s) = cs_selfServerName s"
  by (simp add: closeConnection_def cancel_timer_def s_op_def Let_def)

lemma on_deadline_effect:
  "\<exists>t. writes_only env s t \<and> (snd (on_deadline env ec s) = t \<or> snd (on_deadline env ec s) = closeConnection env t)"
proof (cases "ec = Success")
  case True
  let ?p = "(cs_responseErrorPacket s)\<lparr>pk_statusCode := 504\<rparr>"
  obtain x t where t: "sendResponse env ?p (s\<lparr>cs_responseErrorPacket := ?p\<rparr>) = (x, t)" by fastforce
  have "writes_only env s t"
    using sendResponse_writes[of env "s\<lparr>cs_responseErrorPacket := ?p\<rparr>" ?p] t by (simp add: writes_only_fields)
  then show ?thesis using True t by (cases x) (auto simp: on_deadline_def Let_def)
next
  case False
  then show ?thesis by (intro exI[of _ s]) (simp add: on_deadline_def)
qed

lemma readHandler_effect:
  "\<exists>t. writes_only env (s\<lparr>cs_reading := False\<rparr>) t \<and>
     (snd (readHandler env procs i ec req s) = t \<or> snd (readHandler env procs i ec req s) = closeConnection env t \<or>
      snd (readHandler env procs i ec req s) = handleRequests env t)"
proof (cases "quiet_end ec \<or> ec \<noteq> Success")
  case True
  then show ?thesis by (intro exI[of _ "s\<lparr>cs_reading := False\<rparr>"]) (auto simp: readHandler_def Let_def)
next
  case False
  obtain x t where t: "dispatch env procs i req (s\<lparr>cs_reading := False\<rparr>) = (x, t)" by fastforce
  have "writes_only env (s\<lparr>cs_reading := False\<rparr>) t"
    using dispatch_writes[of env "s\<lparr>cs_reading := False\<rparr>" procs i req] t by simp
  then show ?thesis using False t by (cases x) (auto simp: readHandler_def Let_def)
qed
text \<open>
  A property of sessions that survives writing, closing and reading on holds in every
  state of a run.
\<close>

lemma http_step_cases:
  assumes "http_step env procs s t"
    and "\<And>s t. writes_only env s t \<Longrightarrow> I s \<Longrightarrow> I t" and "\<And>s. I s \<Longrightarrow> I (closeConnection env s)"
    and "\<And>s. I s \<Longrightarrow> I (handleRequests env s)" and "\<And>s b n. I s \<Longrightarrow> I (s\<lparr>cs_reading := b, cs_waits := n\<rparr>)"
    and "I s"
  shows "I t"
  using assms(1)
proof (cases rule: http_step.cases)
  case (read indet ec req)
  have "I (s\<lparr>cs_reading := False\<rparr>)" using assms(5)[OF assms(6), where b = False and n = "cs_waits s"] by simp
  then show ?thesis using readHandler_effect[of env s procs indet ec req] read(1) assms(2-4) by metis
next
  case expired
  have "I (s\<lparr>cs_waits := cs_waits s - 1\<rparr>)" using assms(5)[OF assms(6), where b = "cs_reading s" and n = "cs_waits s - 1"] by simp
  then show ?thesis
    using on_deadline_effect[of env "s\<lparr>cs_waits := cs_waits s - 1\<rparr>" Success] expired(1) assms(2,3) by metis
next
  case (aborted ec)
  then show ?thesis using on_deadline_effect[of env s ec] assms(2,3,6) by metis
next
  case (reply r)
  then show ?thesis using make_reply_writes assms(2,6) by blast
qed

lemma http_reachable_invariant:
  assumes "http_reachable env procs s0 s" and "I s0"
    and "\<And>s t. writes_only env s t \<Longrightarrow> I s \<Longrightarrow> I t" and "\<And>s. I s \<Longrightarrow> I (closeConnection env s)"
    and "\<And>s. I s \<Longrightarrow> I (handleRequests env s)" and "\<And>s b n. I s \<Longrightarrow> I (s\<lparr>cs_reading := b, cs_waits := n\<rparr>)"
  shows "I s"
  using assms(1)
proof (induction rule: http_reachable.induct)
  case start
  show ?case by (rule assms(2))
next
  case (step s t)
  show ?case by (rule http_step_cases[where I = I, OF step.hyps(2) assms(3-6) step.IH])
qed

lemma handleRequests_effect:
  "\<exists>xs. cs_ops (handleRequests env s) = cs_ops s @ xs \<and>
     xs = (if cs_secure s then
             (if se_handshake env = Success \<or> se_handshake env = StreamTruncated
              then [S_handshake, S_async_read] else [S_handshake, S_shutdown])
           else [S_async_read]) \<and>
     cs_secure (handleRequests env s) = cs_secure s \<and>
     cs_selfServerName (handleRequests env s) = cs_selfServerName s"
  by (simp add: handleRequests_def checkDeadline_def cancel_timer_def s_op_def Let_def)

subsection \<open>Invariants\<close>

definition session_typed :: "session_env \<Rightarrow> string \<Rightarrow> http_session \<Rightarrow> bool" where
  "session_typed env name s \<longleftrightarrow> cs_selfServerName s = name \<and>
     (\<forall>r. S_async_write r \<in> set (cs_ops s) \<longrightarrow> wf_response env name r)"

lemma session_typed_writes: "writes_only env s t \<Longrightarrow> session_typed env name s \<Longrightarrow> session_typed env name t"
  by (auto simp: session_typed_def writes_only_def)

lemma session_typed_close: "session_typed env name s \<Longrightarrow> session_typed env name (closeConnection env s)"
  using closeConnection_effect[of env s] by (auto simp: session_typed_def)

lemma session_typed_read: "session_typed env name s \<Longrightarrow> session_typed env name (handleRequests env s)"
  using handleRequests_effect[of env s] by (auto simp: session_typed_def split: if_splits)

text \<open>Handshakes and reads.\<close>

definition count_op :: "session_op \<Rightarrow> http_session \<Rightarrow> nat" where
  "count_op x s = length (filter (\<lambda>y. y = x) (cs_ops s))"

definition handshakes_ok :: "session_env \<Rightarrow> bool \<Rightarrow> http_session \<Rightarrow> bool" where
  "handshakes_ok env secure s \<longleftrightarrow> cs_secure s = secure \<and>
     (if \<not> secure then count_op S_handshake s = 0
      else if se_handshake env = Success \<or> se_handshake env = StreamTruncated
      then count_op S_handshake s = count_op S_async_read s
      else count_op S_async_read s = 0)"

lemma count_op_fields [simp]: "count_op x (s\<lparr>cs_reading := b, cs_waits := n\<rparr>) = count_op x s"
  by (simp add: count_op_def)

lemma filter_other: "x \<notin> set ys \<Longrightarrow> filter (\<lambda>y. y = x) ys = []"
  by (auto simp: filter_empty_conv)

lemma count_op_writes:
  "writes_only env s t \<Longrightarrow> x = S_handshake \<or> x = S_async_read \<Longrightarrow> count_op x t = count_op x s"
  by (auto simp: writes_only_def count_op_def filter_map comp_def)

lemma count_op_close:
  "x = S_handshake \<or> x = S_async_read \<Longrightarrow> count_op x (closeConnection env s) = count_op x s"
proof -
  assume x: "x = S_handshake \<or> x = S_async_read"
  obtain xs where xs: "cs_ops (closeConnection env s) = cs_ops s @ xs" "set xs \<subseteq> {S_ssl_shutdown, S_shutdown, S_close}"
    using closeConnection_effect[of env s] by blast
  have "x \<notin> set xs" using xs(2) x by auto
  then show ?thesis by (simp add: count_op_def xs(1) filter_other)
qed

lemma handshakes_ok_writes: "writes_only env s t \<Longrightarrow> handshakes_ok env sec s \<Longrightarrow> handshakes_ok env sec t"
  using count_op_writes[of env s t] by (simp add: handshakes_ok_def writes_only_def)

lemma handshakes_ok_close: "handshakes_ok env sec s \<Longrightarrow> handshakes_ok env sec (closeConnection env s)"
  using closeConnection_effect[of env s] by (auto simp: handshakes_ok_def count_op_close)

lemma handshakes_ok_read: "handshakes_ok env sec s \<Longrightarrow> handshakes_ok env sec (handleRequests env s)"
  using handleRequests_effect[of env s] by (auto simp: handshakes_ok_def count_op_def)

text \<open>A session whose handshake failed: it waits for nothing and is open.\<close>

definition stranded :: "http_session \<Rightarrow> bool" where
  "stranded s \<longleftrightarrow> cs_open s \<and> \<not> cs_reading s \<and> cs_waits s = 0"

lemma stranded_step: "http_step env procs s t \<Longrightarrow> stranded s \<Longrightarrow> stranded t"
proof (induction rule: http_step.induct)
  case (aborted ec s)
  then show ?case by (simp add: on_deadline_def)
next
  case (reply s r)
  then show ?case using make_reply_writes[of env s r] by (simp add: stranded_def writes_only_def)
qed (simp_all add: stranded_def)

lemma stranded_reachable: "http_reachable env procs s0 s \<Longrightarrow> stranded s0 \<Longrightarrow> stranded s"
  by (induction rule: http_reachable.induct) (auto intro: stranded_step)

subsection \<open>Properties\<close>

text \<open>
  C29. Responses are well-formed. Whatever requests, processors, late replies and timeouts
  make of a session, in every state it can reach each response it has written has HTTP
  version 1.1, the name of the server, one of the four content types, a status the library
  accepts, and, when it is a file, the content of a file that could be opened.
\<close>

theorem responses_well_formed:
  assumes "http_reachable env procs (handleRequests env (new_http_session name secure now)) s"
    and "S_async_write r \<in> set (cs_ops s)"
  shows "rp_version r = 11 \<and> rp_server r = name \<and> rp_content_type r \<in> range Packet_toString \<and>
    se_result_throws env (rp_result r) = None \<and>
    (if rp_isFileBody r then \<exists>path. se_file env path = Inr (rp_body r) else True)"
proof -
  have "session_typed env name (new_http_session name secure now)"
    by (simp add: session_typed_def new_http_session_def)
  then have start: "session_typed env name (handleRequests env (new_http_session name secure now))"
    by (rule session_typed_read)
  have "session_typed env name s"
  proof (rule http_reachable_invariant[where I = "session_typed env name", OF assms(1) start])
    show "session_typed env name s \<Longrightarrow> session_typed env name (s\<lparr>cs_reading := b, cs_waits := n\<rparr>)" for s b n
      by (simp add: session_typed_def)
  qed (fact session_typed_writes session_typed_close session_typed_read)+
  then show ?thesis using assms(2) by (simp add: session_typed_def wf_response_def)
qed

lemma responses_well_formed_witness:
  "\<exists>s r. http_reachable sample_session_env Map.empty
       (handleRequests sample_session_env (new_http_session ''srv'' False 0)) s \<and>
     S_async_write r \<in> set (cs_ops s) \<and> rp_server r = ''srv'' \<and> rp_content_type r \<in> range Packet_toString"
proof -
  let ?fresh = "handleRequests sample_session_env (new_http_session ''srv'' False 0)"
  let ?s = "snd (make_reply sample_session_env (SendError 404) ?fresh)"
  have s: "http_reachable sample_session_env Map.empty ?fresh ?s"
    by (rule http_reachable.step[OF http_reachable.start http_step.reply])
  have "\<exists>r. S_async_write r \<in> set (cs_ops ?s)"
    by (auto simp: make_reply_def sendErrorResponse_eq finish_response_def s_op_def sample_session_env_def Let_def)
  then obtain r where r: "S_async_write r \<in> set (cs_ops ?s)" by blast
  from responses_well_formed[OF s r] show ?thesis using s r by blast
qed

text \<open>
  Over TLS a session shakes hands before every read. In every state it can reach it
  has made as many handshakes as it has started reads, so one more for every request
  served, although a connection has one; without TLS it makes none.
\<close>

theorem handshake_per_read:
  assumes "http_reachable env procs (handleRequests env (new_http_session name secure now)) s"
    and "se_handshake env = Success"
  shows "count_op S_handshake s = (if secure then count_op S_async_read s else 0) \<and> cs_secure s = secure"
proof -
  have "handshakes_ok env secure (new_http_session name secure now)"
    by (simp add: handshakes_ok_def new_http_session_def count_op_def)
  then have start: "handshakes_ok env secure (handleRequests env (new_http_session name secure now))"
    by (rule handshakes_ok_read)
  have "handshakes_ok env secure s"
  proof (rule http_reachable_invariant[where I = "handshakes_ok env secure", OF assms(1) start])
    show "handshakes_ok env secure s \<Longrightarrow> handshakes_ok env secure (s\<lparr>cs_reading := b, cs_waits := n\<rparr>)" for s b n
      by (simp add: handshakes_ok_def)
  qed (fact handshakes_ok_writes handshakes_ok_close handshakes_ok_read)+
  then show ?thesis using assms(2) by (simp add: handshakes_ok_def split: if_splits)
qed

lemma handshake_per_read_witness:
  "let s0 = handleRequests sample_session_env (new_http_session ''srv'' True 0);
       s = snd (readHandler sample_session_env (session_processors Map.empty) 9 Success (sample_request ''/'') s0)
   in count_op S_async_read s = 2 \<and> count_op S_handshake s = 2"
proof -
  let ?fresh = "handleRequests sample_session_env (new_http_session ''srv'' True 0)"
  let ?s = "snd (readHandler sample_session_env (session_processors Map.empty) 9 Success (sample_request ''/'') ?fresh)"
  have h: "se_handshake sample_session_env = Success" by (simp add: sample_session_env_def)
  have r0: "cs_reading ?fresh" "cs_secure ?fresh" "count_op S_async_read ?fresh = 1"
    by (simp_all add: handleRequests_def new_http_session_def checkDeadline_def cancel_timer_def s_op_def
        count_op_def h Let_def)
  obtain x t where t: "dispatch sample_session_env (session_processors Map.empty) 9 (sample_request ''/'')
      (?fresh\<lparr>cs_reading := False\<rparr>) = (x, t)" by fastforce
  have w: "writes_only sample_session_env (?fresh\<lparr>cs_reading := False\<rparr>) t"
    using dispatch_writes[of sample_session_env "?fresh\<lparr>cs_reading := False\<rparr>"] t by (metis snd_conv)
  have v: "rq_verb (sample_request ''/'') = verb_of Post" by (simp add: sample_request_def)
  have "x = Inr ()" using t unfolding dispatch_known[OF v]
    by (simp add: handleMethod_def read_packet_def make_reply_def sendErrorResponse_eq finish_response_def
        sample_session_env_def Let_def)
  then have "?s = handleRequests sample_session_env t" by (simp add: readHandler_def quiet_end_def ec_value_def t Let_def)
  moreover have "count_op S_async_read t = 1" "cs_secure t"
    using count_op_writes[OF w] w r0 by (simp_all add: writes_only_def count_op_def)
  ultimately have reads: "count_op S_async_read ?s = 2"
    using handleRequests_effect[of sample_session_env t] h by (auto simp: count_op_def)
  have "http_reachable sample_session_env (session_processors Map.empty) ?fresh ?s"
    by (rule http_reachable.step[OF http_reachable.start http_step.read[OF r0(1)]])
  from handshake_per_read[OF this h] reads show ?thesis by simp
qed

text \<open>
  A connection whose TLS handshake fails is never closed. No read and no wait on the
  deadline is pending then, its own processors still own it, and nothing that can happen
  to it changes that.
\<close>

theorem failed_handshake_leaks:
  assumes "http_reachable env procs (handleRequests env (new_http_session name True now)) s"
    and "se_handshake env \<notin> {Success, StreamTruncated}" and "procs = session_processors ps"
  shows "isConnected_s s \<and> \<not> cs_reading s \<and> cs_waits s = 0 \<and> S_close \<notin> set (cs_ops s) \<and> 0 < owners procs s"
proof -
  let ?fresh = "handleRequests env (new_http_session name True now)"
  have "stranded ?fresh"
    using assms(2) by (simp add: stranded_def handleRequests_def new_http_session_def s_op_def Let_def)
  then have st: "stranded s" by (rule stranded_reachable[OF assms(1)])
  have ops: "set (cs_ops s) \<subseteq> {S_handshake, S_shutdown} \<union> range S_async_write"
    using assms(1)
  proof (induction rule: http_reachable.induct)
    case start
    then show ?case using assms(2) by (simp add: handleRequests_def new_http_session_def s_op_def Let_def)
  next
    case (step s t)
    have "stranded s" by (rule stranded_reachable[OF step.hyps(1) \<open>stranded ?fresh\<close>])
    with step.hyps(2) show ?case
    proof (cases rule: http_step.cases)
      case (aborted ec)
      then show ?thesis using step.IH by (simp add: on_deadline_def)
    next
      case (reply r)
      then show ?thesis using step.IH make_reply_writes[of env s r] by (auto simp: writes_only_def)
    qed (auto simp: stranded_def)
  qed
  then have "S_close \<notin> set (cs_ops s)" by auto
  then show ?thesis using st by (simp add: stranded_def isConnected_s_def owners_def assms(3))
qed


lemma failed_handshake_leaks_witness:
  "let env = sample_session_env\<lparr>se_handshake := OtherError 5\<rparr>;
       s = snd (make_reply env (SendError 404) (handleRequests env (new_http_session ''srv'' True 0)))
   in isConnected_s s \<and> S_close \<notin> set (cs_ops s)"
proof -
  let ?env = "sample_session_env\<lparr>se_handshake := OtherError 5\<rparr>"
  let ?fresh = "handleRequests ?env (new_http_session ''srv'' True 0)"
  have "http_reachable ?env (session_processors Map.empty) ?fresh (snd (make_reply ?env (SendError 404) ?fresh))"
    by (rule http_reachable.step[OF http_reachable.start http_step.reply])
  from failed_handshake_leaks[OF this _ refl] show ?thesis by (simp add: Let_def)
qed

end
