(* ===== verification/Udp_Client.thy ===== *)
theory Udp_Client
  imports Net_Prelude
begin

text \<open>
  The UDP client (\<^verbatim>\<open>src/UDP/client.cpp\<close>, \<^verbatim>\<open>src/UDP/common.hpp\<close>): choosing the host,
  broadcast mode, sending, and the error callback. The resolver and the socket are the
  argument \<open>env\<close>; the datagrams handed to the socket are recorded in \<open>uc_sent\<close>, the calls of the
  error callback in \<open>uc_errors\<close>.
\<close>

datatype ErrorType = NoError | ConnectionError | SendError | ReceiveError | BindingError | ResolutionError

fun ErrorType_code :: "ErrorType \<Rightarrow> 16 word" where
  "ErrorType_code NoError = 0" | "ErrorType_code ConnectionError = 1" | "ErrorType_code SendError = 2"
| "ErrorType_code ReceiveError = 3" | "ErrorType_code BindingError = 4" | "ErrorType_code ResolutionError = 5"

type_synonym endpoint = "string \<times> u16"

text \<open>\<open>uc_endpoint\<close> is default-constructed until a resolution succeeds.\<close>

record udp_client =
  uc_host :: "string \<times> u16"
  uc_open :: bool
  uc_endpoint :: endpoint
  uc_callback :: bool
  uc_errors :: "(ErrorType \<times> string) list"
  uc_sent :: "(endpoint \<times> u8 list) list"
  uc_broadcast :: bool

record udp_client_env =
  ue_open :: "exn option"
  ue_resolve :: "string \<Rightarrow> string \<Rightarrow> exn + endpoint list"
  ue_send :: "endpoint \<Rightarrow> u8 list \<Rightarrow> exn + nat"
  ue_broadcast :: "bool \<Rightarrow> exn option"

definition default_endpoint :: endpoint where
  "default_endpoint = (''0.0.0.0'', 0)"

text \<open>The constructor installs a callback that logs; opening the socket may throw.\<close>

definition new_udp_client :: "udp_client_env \<Rightarrow> udp_client res" where
  "new_udp_client env = (case ue_open env of Some e \<Rightarrow> Inl e
     | None \<Rightarrow> Inr \<lparr>uc_host = ([], 0), uc_open = True, uc_endpoint = default_endpoint,
         uc_callback = True, uc_errors = [], uc_sent = [], uc_broadcast = False\<rparr>)"

definition handleError :: "ErrorType \<Rightarrow> string \<Rightarrow> udp_client \<Rightarrow> udp_client" where
  "handleError errorType message c =
     (if uc_callback c then c\<lparr>uc_errors := uc_errors c @ [(errorType, message)]\<rparr> else c)"

definition setErrorCallback :: "bool \<Rightarrow> udp_client \<Rightarrow> udp_client" where
  "setErrorCallback nonempty c = c\<lparr>uc_callback := nonempty\<rparr>"

definition setHost :: "udp_client_env \<Rightarrow> string \<Rightarrow> u16 \<Rightarrow> udp_client \<Rightarrow> bool \<times> udp_client" where
  "setHost env host port c =
     (let c1 = c\<lparr>uc_host := (host, port)\<rparr> in
      case ue_resolve env host (to_dec (unat port)) of
        Inl e \<Rightarrow> (False, handleError ResolutionError (what e) c1)
      | Inr [] \<Rightarrow> (False, handleError ResolutionError (''Failed to resolve host: '' @ host) c1)
      | Inr (ep # _) \<Rightarrow> (True, c1\<lparr>uc_endpoint := ep\<rparr>))"

definition enableBroadcast :: "udp_client_env \<Rightarrow> bool \<Rightarrow> udp_client \<Rightarrow> bool \<times> udp_client" where
  "enableBroadcast env enable c =
     (case ue_broadcast env enable of
        None \<Rightarrow> (True, c\<lparr>uc_broadcast := enable\<rparr>)
      | Some e \<Rightarrow> (False, handleError ConnectionError (''Failed to set broadcast option: '' @ what e) c))"

definition send_data :: "udp_client_env \<Rightarrow> u8 list \<Rightarrow> udp_client \<Rightarrow> bool \<times> udp_client" where
  "send_data env iData c =
     (if \<not> uc_open c then (False, handleError SendError ''Socket is closed'' c)
      else if snd (uc_host c) = 0 then (False, handleError SendError ''Host did not set'' c)
      else let c1 = c\<lparr>uc_sent := uc_sent c @ [(uc_endpoint c, iData)]\<rparr> in
        (case ue_send env (uc_endpoint c) iData of
           Inr bytesSent \<Rightarrow> (bytesSent = length iData, c1)
         | Inl e \<Rightarrow> (False, handleError SendError (what e) c1)))"

definition sendData :: "udp_client_env \<Rightarrow> string \<Rightarrow> udp_client \<Rightarrow> bool \<times> udp_client" where
  "sendData env data = send_data env (map of_char data)"

definition sendByteData :: "udp_client_env \<Rightarrow> u8 list \<Rightarrow> udp_client \<Rightarrow> bool \<times> udp_client" where
  "sendByteData env data = send_data env data"

text \<open>The socket is closed when the client is destroyed.\<close>

definition destroy_udp_client :: "udp_client \<Rightarrow> udp_client" where
  "destroy_udp_client c = (if uc_open c then c\<lparr>uc_open := False\<rparr> else c)"

text \<open>A sequence of calls of \<open>setHost\<close>.\<close>

definition set_hosts :: "udp_client_env \<Rightarrow> (string \<times> u16) list \<Rightarrow> udp_client \<Rightarrow> udp_client" where
  "set_hosts env hs c = foldl (\<lambda>c h. snd (setHost env (fst h) (snd h) c)) c hs"

definition resolves :: "udp_client_env \<Rightarrow> string \<times> u16 \<Rightarrow> endpoint option" where
  "resolves env h = (case ue_resolve env (fst h) (to_dec (unat (snd h))) of Inr (ep # _) \<Rightarrow> Some ep | _ \<Rightarrow> None)"

definition last_resolved :: "udp_client_env \<Rightarrow> (string \<times> u16) list \<Rightarrow> endpoint \<Rightarrow> endpoint" where
  "last_resolved env hs e = last (e # List.map_filter (resolves env) hs)"

lemma handleError_frame [simp]:
  "uc_host (handleError t m c) = uc_host c" "uc_open (handleError t m c) = uc_open c"
  "uc_endpoint (handleError t m c) = uc_endpoint c" "uc_sent (handleError t m c) = uc_sent c"
  "uc_callback (handleError t m c) = uc_callback c"
  by (simp_all add: handleError_def)

lemma setHost_effect:
  "uc_host (snd (setHost env h p c)) = (h, p)"
  "uc_open (snd (setHost env h p c)) = uc_open c"
  "uc_sent (snd (setHost env h p c)) = uc_sent c"
  "uc_endpoint (snd (setHost env h p c)) =
     (case resolves env (h, p) of Some ep \<Rightarrow> ep | None \<Rightarrow> uc_endpoint c)"
  "fst (setHost env h p c) \<longleftrightarrow> resolves env (h, p) \<noteq> None"
  by (simp_all add: setHost_def resolves_def Let_def split: sum.split list.split)

lemma set_hosts_effect:
  "uc_endpoint (set_hosts env hs c) = last_resolved env hs (uc_endpoint c) \<and>
   uc_host (set_hosts env hs c) = last (uc_host c # hs) \<and>
   uc_open (set_hosts env hs c) = uc_open c \<and> uc_sent (set_hosts env hs c) = uc_sent c"
proof (induction hs rule: rev_induct)
  case Nil
  then show ?case by (simp add: set_hosts_def last_resolved_def List.map_filter_def)
next
  case (snoc h hs)
  have "set_hosts env (hs @ [h]) c = snd (setHost env (fst h) (snd h) (set_hosts env hs c))"
    by (simp add: set_hosts_def)
  then show ?case using snoc
    by (auto simp: setHost_effect last_resolved_def List.map_filter_def split: option.split)
qed

subsection \<open>Properties\<close>

text \<open>
  C13. Where datagrams go. After any calls of \<open>setHost\<close>, successful or not, a datagram is
  handed to the socket exactly when the port of the last call is not 0, and it goes to
  the endpoint of the last resolution that succeeded (the unset endpoint if none did): a
  failed call for a new host leaves the client sending to the old one.
\<close>

theorem datagrams_go_to_last_resolved:
  assumes "uc_open c"
  shows "uc_sent (snd (sendByteData env data (set_hosts env hs c))) =
    (if snd (last (uc_host c # hs)) = 0 then uc_sent c
     else uc_sent c @ [(last_resolved env hs (uc_endpoint c), data)])"
  using set_hosts_effect[of env hs c] assms
  by (simp add: sendByteData_def send_data_def Let_def split: sum.split)

definition sample_udp_env :: udp_client_env where
  "sample_udp_env = \<lparr>ue_open = None, ue_resolve = (\<lambda>h p. if h = ''a'' then Inr [(''10.0.0.1'', 7)] else Inr []),
     ue_send = (\<lambda>_ d. Inr (length d)), ue_broadcast = (\<lambda>_. None)\<rparr>"

definition sample_udp_client :: udp_client where
  "sample_udp_client = \<lparr>uc_host = ([], 0), uc_open = True, uc_endpoint = default_endpoint,
     uc_callback = True, uc_errors = [], uc_sent = [], uc_broadcast = False\<rparr>"

lemma datagrams_go_to_last_resolved_witness:
  "uc_sent (snd (sendByteData sample_udp_env [1, 2] (set_hosts sample_udp_env [(''a'', 7), (''b'', 9)] sample_udp_client))) =
     [((''10.0.0.1'', 7), [1, 2])]"
  using datagrams_go_to_last_resolved[of sample_udp_client sample_udp_env "[1, 2]" "[(''a'', 7), (''b'', 9)]"]
  by (simp add: sample_udp_client_def sample_udp_env_def last_resolved_def List.map_filter_def resolves_def)

text \<open>
  Failures are reported. With an error callback set, each operation that returns false
  has called it exactly once, with the type of the operation, except a send of which the
  socket took fewer bytes; without one nothing is reported. An operation that returns
  true reports nothing.
\<close>

theorem failures_reported_once:
  "(let (ok, c') = setHost env h p c in
      map fst (uc_errors c') = map fst (uc_errors c) @ (if \<not> ok \<and> uc_callback c then [ResolutionError] else [])) \<and>
   (let (ok, c') = enableBroadcast env b c in
      map fst (uc_errors c') = map fst (uc_errors c) @ (if \<not> ok \<and> uc_callback c then [ConnectionError] else [])) \<and>
   (let (ok, c') = sendData env data c;
        short = (uc_open c \<and> snd (uc_host c) \<noteq> 0 \<and> \<not> isl (ue_send env (uc_endpoint c) (map of_char data)))
    in map fst (uc_errors c') = map fst (uc_errors c) @
        (if \<not> ok \<and> uc_callback c \<and> \<not> short then [SendError] else []))"
  by (auto simp: setHost_def enableBroadcast_def sendData_def send_data_def handleError_def Let_def
      split: sum.split list.split option.split)

end
