(* ===== verification/Udp_Client_Calls.thy ===== *)
theory Udp_Client_Calls
  imports Udp_Client
begin

text \<open>
  The UDP client as its users see it (\<^verbatim>\<open>src/UDP/client.hpp\<close>): the public operations as a
  type of calls, an abstract description of what a sequence of calls sends and reports, and
  the proof that the client does exactly that.
\<close>

subsection \<open>Calls\<close>

text \<open>The overloads for an lvalue and an rvalue are alike and are one call.\<close>

datatype udp_call =
    Set_host string u16
  | Enable_broadcast bool
  | Send_data string
  | Send_bytes "u8 list"
  | Set_error_callback bool

fun do_udp_call :: "udp_client_env \<Rightarrow> udp_call \<Rightarrow> udp_client \<Rightarrow> bool \<times> udp_client" where
  "do_udp_call env (Set_host h p) c = setHost env h p c"
| "do_udp_call env (Enable_broadcast b) c = enableBroadcast env b c"
| "do_udp_call env (Send_data s) c = sendData env s c"
| "do_udp_call env (Send_bytes d) c = sendByteData env d c"
| "do_udp_call env (Set_error_callback b) c = (True, setErrorCallback b c)"

text \<open>The answers of a sequence of calls and the client after it.\<close>

fun udp_calls :: "udp_client_env \<Rightarrow> udp_call list \<Rightarrow> udp_client \<Rightarrow> bool list \<times> udp_client" where
  "udp_calls env [] c = ([], c)"
| "udp_calls env (x # xs) c =
     (case do_udp_call env x c of (b, d) \<Rightarrow> case udp_calls env xs d of (bs, e) \<Rightarrow> (b # bs, e))"

subsection \<open>What a sequence of calls is to do\<close>

text \<open>
  Read off the calls alone: the hosts that were set, the payload of a call that sends, the
  datagram it hands to the socket, and whether an error callback is there (one is from the
  beginning).
\<close>

fun host_of :: "udp_call \<Rightarrow> (string \<times> u16) option" where
  "host_of (Set_host h p) = Some (h, p)"
| "host_of x = None"

definition hosts_of :: "udp_call list \<Rightarrow> (string \<times> u16) list" where
  "hosts_of xs = List.map_filter host_of xs"

fun payload_of :: "udp_call \<Rightarrow> u8 list option" where
  "payload_of (Send_data s) = Some (map of_char s)"
| "payload_of (Send_bytes d) = Some d"
| "payload_of x = None"

fun callback_of :: "udp_call \<Rightarrow> bool option" where
  "callback_of (Set_error_callback b) = Some b"
| "callback_of x = None"

definition has_callback :: "udp_call list \<Rightarrow> bool" where
  "has_callback xs = last (True # List.map_filter callback_of xs)"

text \<open>The target and the guard of a send after the calls \<open>before\<close>.\<close>

definition target_after :: "udp_client_env \<Rightarrow> udp_call list \<Rightarrow> endpoint" where
  "target_after env before = last_resolved env (hosts_of before) default_endpoint"

definition may_send :: "udp_call list \<Rightarrow> bool" where
  "may_send before = (snd (last (([], 0) # hosts_of before)) \<noteq> 0)"

definition datagram_after :: "udp_client_env \<Rightarrow> udp_call list \<Rightarrow> udp_call \<Rightarrow> (endpoint \<times> u8 list) list" where
  "datagram_after env before x =
     (case payload_of x of Some d \<Rightarrow> if may_send before then [(target_after env before, d)] else [] | None \<Rightarrow> [])"

text \<open>The answer of a call, and the error it reports.\<close>

fun answer_after :: "udp_client_env \<Rightarrow> udp_call list \<Rightarrow> udp_call \<Rightarrow> bool" where
  "answer_after env before (Set_host h p) = (resolves env (h, p) \<noteq> None)"
| "answer_after env before (Enable_broadcast b) = (ue_broadcast env b = None)"
| "answer_after env before (Set_error_callback b) = True"
| "answer_after env before x = (case payload_of x of None \<Rightarrow> True | Some d \<Rightarrow>
     may_send before \<and> ue_send env (target_after env before) d = Inr (length d))"

definition error_after :: "udp_client_env \<Rightarrow> udp_call list \<Rightarrow> udp_call \<Rightarrow> ErrorType list" where
  "error_after env before x =
     (if has_callback before \<and> \<not> answer_after env before x then
        (case x of Set_host h p \<Rightarrow> [ResolutionError] | Enable_broadcast b \<Rightarrow> [ConnectionError]
         | Set_error_callback b \<Rightarrow> []
         | _ \<Rightarrow> if may_send before \<and> \<not> isl (ue_send env (target_after env before) (the (payload_of x)))
               then [] else [SendError])
      else [])"

text \<open>A list made from every call and the calls before it.\<close>

definition trace_of :: "(udp_call list \<Rightarrow> udp_call \<Rightarrow> 'a list) \<Rightarrow> udp_call list \<Rightarrow> 'a list" where
  "trace_of f xs = concat (map (\<lambda>i. f (take i xs) (xs ! i)) [0..<length xs])"

lemma trace_of_Nil [simp]: "trace_of f [] = []"
  by (simp add: trace_of_def)

lemma trace_of_snoc [simp]: "trace_of f (xs @ [x]) = trace_of f xs @ f xs x"
proof -
  have eq: "map (\<lambda>i. f (take i (xs @ [x])) ((xs @ [x]) ! i)) [0..<length xs] =
      map (\<lambda>i. f (take i xs) (xs ! i)) [0..<length xs]"
    by (rule map_cong[OF refl]) (simp add: nth_append)
  have "take (length xs) (xs @ [x]) = xs" by simp
  with eq show ?thesis unfolding trace_of_def
    by (simp only: length_append_singleton upt_Suc_append[OF le0] map_append concat_append list.map concat.simps
        nth_append_length append_Nil2)
qed

subsection \<open>The client does it\<close>

text \<open>The client after a sequence of calls, by what it is to have sent and reported.\<close>

definition client_after :: "udp_client_env \<Rightarrow> udp_call list \<Rightarrow> udp_client \<Rightarrow> bool" where
  "client_after env xs c \<longleftrightarrow> uc_open c \<and> uc_host c = last (([], 0) # hosts_of xs) \<and>
     uc_endpoint c = target_after env xs \<and> uc_callback c = has_callback xs \<and>
     uc_sent c = trace_of (datagram_after env) xs \<and> map fst (uc_errors c) = trace_of (error_after env) xs"

lemma hosts_of_snoc [simp]:
  "hosts_of (xs @ [x]) = hosts_of xs @ (case host_of x of None \<Rightarrow> [] | Some h \<Rightarrow> [h])"
  by (simp add: hosts_of_def List.map_filter_def split: option.split)

lemma has_callback_snoc [simp]:
  "has_callback (xs @ [x]) = (case callback_of x of None \<Rightarrow> has_callback xs | Some b \<Rightarrow> b)"
  by (simp add: has_callback_def List.map_filter_def split: option.split)

lemma target_after_snoc [simp]:
  "target_after env (xs @ [x]) = (case host_of x of None \<Rightarrow> target_after env xs
     | Some h \<Rightarrow> (case resolves env h of None \<Rightarrow> target_after env xs | Some ep \<Rightarrow> ep))"
  by (auto simp: target_after_def last_resolved_def List.map_filter_def split: option.split)

lemma errors_handleError:
  "map fst (uc_errors (handleError t m c)) = map fst (uc_errors c) @ (if uc_callback c then [t] else [])"
  by (simp add: handleError_def)

lemma send_data_step:
  assumes "client_after env xs c" and "payload_of x = Some d"
    and "do_udp_call env x c = send_data env d c" and "host_of x = None" and "callback_of x = None"
    and "answer_after env xs x = (may_send xs \<and> ue_send env (target_after env xs) d = Inr (length d))"
    and "error_after env xs x = (if has_callback xs \<and> \<not> answer_after env xs x
      then if may_send xs \<and> \<not> isl (ue_send env (target_after env xs) d) then [] else [SendError] else [])"
  shows "fst (do_udp_call env x c) = answer_after env xs x \<and> client_after env (xs @ [x]) (snd (do_udp_call env x c))"
proof (cases "may_send xs")
  case False
  then have "send_data env d c = (False, handleError SendError ''Host did not set'' c)"
    using assms(1) by (simp add: send_data_def client_after_def may_send_def)
  then show ?thesis using assms False
    by (simp add: client_after_def datagram_after_def errors_handleError)
next
  case True
  let ?c = "c\<lparr>uc_sent := uc_sent c @ [(target_after env xs, d)]\<rparr>"
  have "send_data env d c = (case ue_send env (target_after env xs) d of
      Inr n \<Rightarrow> (n = length d, ?c) | Inl e \<Rightarrow> (False, handleError SendError (what e) ?c))"
    using assms(1) True by (auto simp: send_data_def client_after_def may_send_def Let_def split: sum.split)
  then show ?thesis using assms True
    by (cases "ue_send env (target_after env xs) d")
      (simp_all add: client_after_def datagram_after_def errors_handleError)
qed

lemma do_udp_call_step:
  assumes "client_after env xs c"
  shows "fst (do_udp_call env x c) = answer_after env xs x \<and> client_after env (xs @ [x]) (snd (do_udp_call env x c))"
proof (cases x)
  case (Set_host h p)
  have "map fst (uc_errors (snd (setHost env h p c))) = map fst (uc_errors c) @
      (if uc_callback c \<and> resolves env (h, p) = None then [ResolutionError] else [])"
    by (simp add: setHost_def resolves_def errors_handleError Let_def split: sum.split list.split)
  moreover have "uc_callback (snd (setHost env h p c)) = uc_callback c"
    by (simp add: setHost_def Let_def split: sum.split list.split)
  ultimately show ?thesis using assms Set_host
    by (simp add: client_after_def setHost_effect datagram_after_def error_after_def split: option.split)
next
  case (Enable_broadcast b)
  then show ?thesis using assms
    by (cases "ue_broadcast env b")
      (simp_all add: enableBroadcast_def client_after_def datagram_after_def error_after_def errors_handleError)
next
  case (Send_data s)
  then show ?thesis
    by (intro send_data_step[OF assms, of x "map of_char s"]) (simp_all add: sendData_def error_after_def)
next
  case (Send_bytes d)
  then show ?thesis
    by (intro send_data_step[OF assms, of x d]) (simp_all add: sendByteData_def error_after_def)
next
  case (Set_error_callback b)
  then show ?thesis using assms
    by (simp add: setErrorCallback_def client_after_def datagram_after_def error_after_def)
qed

subsection \<open>Properties\<close>

lemma udp_calls_snoc:
  "udp_calls env (xs @ [x]) c = (case udp_calls env xs c of (bs, d) \<Rightarrow>
     case do_udp_call env x d of (b, e) \<Rightarrow> (bs @ [b], e))"
  by (induction xs arbitrary: c) (simp_all split: prod.split)

text \<open>
  C25. What a UDP client sends and reports. For every sequence of calls on a new client, the
  answers, the datagrams handed to the socket and the types of the errors reported are
  those read off the calls: a send is made when the port of the last \<open>setHost\<close> is not 0, to
  the endpoint of the last one that resolved; each call that fails reports its error once
  if a callback is set, except a send of which the socket took only a part.
\<close>

theorem udp_client_implements:
  assumes "new_udp_client env = Inr c"
  shows "fst (udp_calls env xs c) = trace_of (\<lambda>before x. [answer_after env before x]) xs \<and>
    uc_sent (snd (udp_calls env xs c)) = trace_of (datagram_after env) xs \<and>
    map fst (uc_errors (snd (udp_calls env xs c))) = trace_of (error_after env) xs"
proof -
  have "fst (udp_calls env xs c) = trace_of (\<lambda>before x. [answer_after env before x]) xs \<and>
      client_after env xs (snd (udp_calls env xs c))"
  proof (induction xs rule: rev_induct)
    case Nil
    then show ?case using assms
      by (auto simp: new_udp_client_def client_after_def hosts_of_def target_after_def last_resolved_def
          has_callback_def List.map_filter_def split: option.splits)
  next
    case (snoc x xs)
    obtain bs d where d: "udp_calls env xs c = (bs, d)" by fastforce
    then have IH: "bs = trace_of (\<lambda>before x. [answer_after env before x]) xs" "client_after env xs d"
      using snoc by simp_all
    obtain b e where "do_udp_call env x d = (b, e)" by fastforce
    then show ?case using do_udp_call_step[OF IH(2), of x] IH(1) d by (simp add: udp_calls_snoc)
  qed
  then show ?thesis by (simp add: client_after_def)
qed

lemma udp_client_implements_witness:
  "uc_sent (snd (udp_calls sample_udp_env [Send_bytes [9], Set_host ''a'' 7, Set_host ''b'' 9, Send_bytes [1, 2]]
      sample_udp_client)) = [((''10.0.0.1'', 7), [1, 2])]"
proof -
  have "new_udp_client sample_udp_env = Inr sample_udp_client"
    by (simp add: new_udp_client_def sample_udp_env_def sample_udp_client_def)
  then have sent: "uc_sent (snd (udp_calls sample_udp_env xs sample_udp_client)) =
      trace_of (datagram_after sample_udp_env) xs" for xs
    using udp_client_implements by blast
  have xs: "[Send_bytes [9], Set_host ''a'' 7, Set_host ''b'' 9, Send_bytes [1, 2]] =
      ((([] @ [Send_bytes [9]]) @ [Set_host ''a'' 7]) @ [Set_host ''b'' 9]) @ [Send_bytes [1, 2]]" by simp
  show ?thesis unfolding sent unfolding xs trace_of_snoc
    by (simp add: datagram_after_def may_send_def target_after_def last_resolved_def hosts_of_def
        List.map_filter_def resolves_def sample_udp_env_def)
qed

end
