(* ===== verification/Udp_Server.thy ===== *)
theory Udp_Server
  imports Udp_Client Http_Types
begin

text \<open>
  The UDP server (\<^verbatim>\<open>src/UDP/server.cpp\<close>): starting, the receive loop on its own thread,
  stopping, and the request processor. The contract of a component that is started and
  stopped is the locale \<open>lifecycle\<close>.
\<close>

subsection \<open>Components that are started and stopped\<close>

text \<open>\<open>start c s\<close> is \<open>None\<close> when the process is terminated.\<close>

locale lifecycle =
  fixes start :: "'c \<Rightarrow> 's \<Rightarrow> (bool \<times> 's) option"
    and stop :: "'s \<Rightarrow> 's"
    and running :: "'s \<Rightarrow> bool"
  assumes stop_stops: "\<not> running (stop s)"
    and start_true: "start c s = Some (True, t) \<Longrightarrow> running t \<and> \<not> running s"
    and start_false: "start c s = Some (False, t) \<Longrightarrow> running t = running s"
begin

text \<open>Commands: \<open>Some c\<close> starts, \<open>None\<close> stops. The result counts the starts that succeeded.\<close>

fun commands :: "'c option list \<Rightarrow> 's \<Rightarrow> (nat \<times> 's) option" where
  "commands [] s = Some (0, s)"
| "commands (None # cs) s = commands cs (stop s)"
| "commands (Some c # cs) s =
     (case start c s of
        None \<Rightarrow> None
      | Some (ok, t) \<Rightarrow> map_option (\<lambda>(n, u). ((if ok then Suc n else n), u)) (commands cs t))"

lemma starts_bounded:
  "commands cs s = Some (n, t) \<Longrightarrow>
   n + (if running s then 1 else 0) \<le> length (filter (\<lambda>c. c = None) cs) + (if running t then 1 else 0)"
proof (induction cs s arbitrary: n t rule: commands.induct)
  case (2 cs s)
  then show ?case using stop_stops[of s] by fastforce
next
  case (3 c cs s)
  then obtain ok u where u: "start c s = Some (ok, u)" by (auto split: option.splits)
  then obtain n' where n': "commands cs u = Some (n', t)" "n = (if ok then Suc n' else n')"
    using "3.prems" by (auto split: if_splits)
  then have "n' + (if running u then 1 else 0) \<le> length (filter (\<lambda>c. c = None) cs) + (if running t then 1 else 0)"
    using "3.IH"[OF u refl] by blast
  then show ?case using n' u start_true[of c s u] start_false[of c s u] by (cases ok) auto
qed simp

end

subsection \<open>State\<close>

text \<open>
  What a call of the processor does: return, throw, or call \<open>stop\<close> of this server (the
  processor runs on the server's own thread).
\<close>

datatype proc_result = Proc_returns | Proc_throws | Proc_stops

type_synonym udp_processor = "u8 list \<Rightarrow> proc_result"

text \<open>
  \<open>us_stopped\<close>: the I/O context has been stopped (it is never restarted). \<open>us_loop\<close>: the
  thread is inside \<^verbatim>\<open>run()\<close>. \<open>us_joinable\<close>: the thread object owns a thread.
  \<open>us_receiving\<close>: a receive is pending. \<open>us_delivered\<close>: the data the processor was given.
\<close>

record udp_server =
  us_open :: bool
  us_isRunning :: bool
  us_stopped :: bool
  us_loop :: bool
  us_joinable :: bool
  us_receiving :: bool
  us_buffer :: string
  us_processor :: "udp_processor option"
  us_delivered :: "u8 list list"

record udp_server_env =
  sv_open :: "exn option"
  sv_bind :: "u16 \<Rightarrow> exn option"

text \<open>The 65507 bytes of the buffer are uninitialised; \<open>indet\<close> stands for them.\<close>

definition new_udp_server :: "string \<Rightarrow> udp_server" where
  "new_udp_server indet = \<lparr>us_open = False, us_isRunning = False, us_stopped = False, us_loop = False,
     us_joinable = False, us_receiving = False, us_buffer = indet, us_processor = None, us_delivered = []\<rparr>"

definition startReceive :: "udp_server \<Rightarrow> udp_server" where
  "startReceive s = s\<lparr>us_receiving := True\<rparr>"

text \<open>
  Opening an open socket fails. \<open>run()\<close> on a stopped context returns at once. Assigning to
  a thread object that is joinable terminates the process.
\<close>

definition udp_start :: "udp_server_env \<Rightarrow> u16 \<Rightarrow> udp_server \<Rightarrow> (bool \<times> udp_server) option" where
  "udp_start env port s =
     (if us_isRunning s then Some (False, s)
      else if us_open s \<or> sv_open env \<noteq> None then Some (False, s)
      else let s1 = s\<lparr>us_open := True\<rparr> in
        if sv_bind env port \<noteq> None then Some (False, s1)
        else let s2 = startReceive (s1\<lparr>us_isRunning := True\<rparr>) in
          if us_joinable s2 then None
          else Some (True, s2\<lparr>us_joinable := True, us_loop := \<not> us_stopped s2\<rparr>))"

definition isWorking :: "udp_server \<Rightarrow> bool" where
  "isWorking s = us_isRunning s"

text \<open>\<open>stop\<close> called from another thread than the server's, and from the server's own.\<close>

definition udp_stop :: "udp_server \<Rightarrow> udp_server" where
  "udp_stop s = s\<lparr>us_isRunning := False, us_stopped := True, us_loop := False, us_joinable := False,
     us_open := False, us_receiving := False\<rparr>"

definition udp_stop_inside :: "udp_server \<Rightarrow> unit res \<times> udp_server" where
  "udp_stop_inside s =
     (let s1 = s\<lparr>us_isRunning := False, us_stopped := True\<rparr> in
      if us_joinable s1 then (Inl (StdException ''Resource deadlock avoided''), s1)
      else (Inr (), s1\<lparr>us_open := False\<rparr>))"

text \<open>The destructor stops the server; on the server's own thread an exception would leave it (\<open>None\<close>).\<close>

definition destroy_udp_server :: "bool \<Rightarrow> udp_server \<Rightarrow> udp_server option" where
  "destroy_udp_server inside s =
     (if inside then (case udp_stop_inside s of (Inl e, _) \<Rightarrow> None | (Inr _, s') \<Rightarrow> Some s')
      else Some (udp_stop s))"

definition call_processor :: "udp_processor \<Rightarrow> u8 list \<Rightarrow> udp_server \<Rightarrow> unit res \<times> udp_server" where
  "call_processor f data s =
     (let s1 = s\<lparr>us_delivered := us_delivered s @ [data]\<rparr> in
      case f data of
        Proc_returns \<Rightarrow> (Inr (), s1)
      | Proc_throws \<Rightarrow> (Inl (StdException ''processor''), s1)
      | Proc_stops \<Rightarrow> udp_stop_inside s1)"

text \<open>
  The completion handler. The received bytes are the prefix of the buffer of the length
  reported; an exception ends \<open>run()\<close>.
\<close>

definition on_receive :: "error_code \<Rightarrow> string \<Rightarrow> udp_server \<Rightarrow> udp_server" where
  "on_receive error received s =
     (let s1 = s\<lparr>us_receiving := False, us_buffer := overwrite received (us_buffer s)\<rparr>;
          n = length received in
      case (if error = Success \<and> 0 < n then us_processor s1 else None) of
        None \<Rightarrow> (if us_isRunning s1 then startReceive s1 else s1)
      | Some f \<Rightarrow>
          (case call_processor f (map of_char (take n (us_buffer s1))) s1 of
             (Inl e, s2) \<Rightarrow> s2\<lparr>us_loop := False\<rparr>
           | (Inr _, s2) \<Rightarrow> if us_isRunning s2 then startReceive s2 else s2))"

definition setRequestProcessor :: "udp_processor option \<Rightarrow> udp_server \<Rightarrow> udp_server" where
  "setRequestProcessor p s = s\<lparr>us_processor := p\<rparr>"

text \<open>
  The steps: calls of the operations from outside, and a receive that completes while the
  thread is in \<^verbatim>\<open>run()\<close>.
\<close>

inductive udp_step :: "udp_server \<Rightarrow> udp_server \<Rightarrow> bool" where
  start: "udp_start env port s = Some (r, t) \<Longrightarrow> udp_step s t"
| stop: "udp_step s (udp_stop s)"
| processor: "udp_step s (setRequestProcessor p s)"
| receive: "us_loop s \<Longrightarrow> us_receiving s \<Longrightarrow> length received \<le> length (us_buffer s) \<Longrightarrow>
     udp_step s (on_receive error received s)"

inductive_simps udp_step_simps: "udp_step s t"

inductive udp_runs :: "udp_server \<Rightarrow> udp_server \<Rightarrow> bool" where
  refl: "udp_runs s s"
| step: "udp_runs s t \<Longrightarrow> udp_step t u \<Longrightarrow> udp_runs s u"

interpretation udp: lifecycle "udp_start env" udp_stop isWorking for env
  by unfold_locales
    (auto simp: udp_start_def udp_stop_def isWorking_def startReceive_def Let_def split: if_splits)

subsection \<open>Invariant and dead servers\<close>

definition udp_inv :: "udp_server \<Rightarrow> bool" where
  "udp_inv s \<longleftrightarrow> (us_isRunning s \<longrightarrow> us_open s) \<and> (us_joinable s \<longrightarrow> us_open s) \<and>
     (us_loop s \<longrightarrow> us_joinable s \<and> us_isRunning s \<and> us_receiving s \<and> \<not> us_stopped s)"

definition udp_dead :: "udp_server \<Rightarrow> bool" where
  "udp_dead s \<longleftrightarrow> \<not> us_loop s \<and> (us_stopped s \<or> us_open s)"

lemma call_processor_effect:
  "us_isRunning s \<Longrightarrow> us_joinable s \<Longrightarrow>
   call_processor f data s =
     (case f data of
        Proc_returns \<Rightarrow> (Inr (), s\<lparr>us_delivered := us_delivered s @ [data]\<rparr>)
      | Proc_throws \<Rightarrow> (Inl (StdException ''processor''), s\<lparr>us_delivered := us_delivered s @ [data]\<rparr>)
      | Proc_stops \<Rightarrow> (Inl (StdException ''Resource deadlock avoided''),
          s\<lparr>us_delivered := us_delivered s @ [data], us_isRunning := False, us_stopped := True\<rparr>))"
  by (simp add: call_processor_def udp_stop_inside_def Let_def split: proc_result.split)

lemma on_receive_effect:
  assumes "us_isRunning s" and "us_joinable s" and "length received \<le> length (us_buffer s)"
  shows "on_receive error received s =
    (let s1 = s\<lparr>us_buffer := overwrite received (us_buffer s)\<rparr> in
     case (if error = Success \<and> received \<noteq> [] then us_processor s else None) of
       None \<Rightarrow> s1\<lparr>us_receiving := True\<rparr>
     | Some f \<Rightarrow> let s2 = s1\<lparr>us_delivered := us_delivered s @ [map of_char received]\<rparr> in
         (case f (map of_char received) of
            Proc_returns \<Rightarrow> s2\<lparr>us_receiving := True\<rparr>
          | Proc_throws \<Rightarrow> s2\<lparr>us_receiving := False, us_loop := False\<rparr>
          | Proc_stops \<Rightarrow> s2\<lparr>us_receiving := False, us_loop := False, us_isRunning := False, us_stopped := True\<rparr>))"
  using assms
  by (cases "us_processor s"; cases "received = []"; cases "error = Success")
    (simp_all add: on_receive_def call_processor_effect startReceive_def overwrite_fits Let_def
      split: proc_result.split)

lemma udp_inv_new [simp]: "udp_inv (new_udp_server b)"
  by (simp add: udp_inv_def new_udp_server_def)

lemma on_receive_inv:
  assumes "udp_inv s" and "us_loop s" and "length received \<le> length (us_buffer s)"
  shows "udp_inv (on_receive error received s)"
proof -
  have "us_isRunning s" "us_joinable s" using assms(1,2) by (auto simp: udp_inv_def)
  note e = on_receive_effect[OF this assms(3), of error]
  show ?thesis
  proof (cases "if error = Success \<and> received \<noteq> [] then us_processor s else None")
    case None
    then show ?thesis using assms by (simp add: e Let_def udp_inv_def)
  next
    case (Some f)
    then show ?thesis using assms
      by (cases "f (map of_char received)") (simp_all add: e Let_def udp_inv_def)
  qed
qed

lemma udp_start_inv: "udp_inv s \<Longrightarrow> udp_start env port s = Some (r, t) \<Longrightarrow> udp_inv t"
  by (auto simp: udp_inv_def udp_start_def startReceive_def Let_def split: if_splits)

lemma udp_step_inv: "udp_step s t \<Longrightarrow> udp_inv s \<Longrightarrow> udp_inv t"
proof (induction rule: udp_step.induct)
  case (receive s received error)
  then show ?case by (simp add: on_receive_inv)
qed (auto simp: udp_start_inv, simp_all add: udp_inv_def udp_stop_def setRequestProcessor_def)

lemma udp_runs_inv: "udp_runs s t \<Longrightarrow> udp_inv s \<Longrightarrow> udp_inv t"
  by (induction rule: udp_runs.induct) (auto simp: udp_step_inv)

lemma udp_reachable_inv: "udp_runs (new_udp_server b) s \<Longrightarrow> udp_inv s"
  by (erule udp_runs_inv) simp

lemma udp_dead_step: "udp_step s t \<Longrightarrow> udp_dead s \<Longrightarrow> udp_dead t \<and> us_delivered t = us_delivered s"
  by (induction rule: udp_step.induct)
    (auto simp: udp_dead_def udp_stop_def setRequestProcessor_def udp_start_def startReceive_def Let_def
      split: if_splits)

lemma udp_dead_runs: "udp_runs s t \<Longrightarrow> udp_dead s \<Longrightarrow> udp_dead t \<and> us_delivered t = us_delivered s"
  by (induction rule: udp_runs.induct) (auto dest: udp_dead_step)

subsection \<open>Properties\<close>

text \<open>
  C13. A server works once. After \<open>stop\<close>, after a \<open>start\<close> that failed although the socket
  could be opened, or after a processor that threw or called \<open>stop\<close>, no processor is ever
  given a datagram again, whatever is called on the server later (\<open>stop\<close> and \<open>start\<close>
  included).
\<close>

theorem server_works_once:
  assumes "udp_runs (new_udp_server b) s"
    and "t = udp_stop s \<or>
      udp_start env port s = Some (False, t) \<and> \<not> isWorking s \<and> sv_open env = None \<or>
      us_loop s \<and> us_processor s = Some f \<and> f (map of_char d) \<noteq> Proc_returns \<and> d \<noteq> [] \<and>
        length d \<le> length (us_buffer s) \<and> t = on_receive Success d s"
    and "udp_runs t u"
  shows "us_delivered u = us_delivered t"
proof -
  have inv: "udp_inv s" by (rule udp_reachable_inv[OF assms(1)])
  have "udp_dead t"
    using assms(2)
  proof (elim disjE conjE)
    assume "t = udp_stop s"
    then show ?thesis by (simp add: udp_dead_def udp_stop_def)
  next
    assume "udp_start env port s = Some (False, t)" "\<not> isWorking s" "sv_open env = None"
    then show ?thesis using inv
      by (auto simp: udp_dead_def udp_inv_def udp_start_def startReceive_def isWorking_def Let_def
          split: if_splits)
  next
    assume threw: "us_loop s" "us_processor s = Some f" "f (map of_char d) \<noteq> Proc_returns" "d \<noteq> []"
        "length d \<le> length (us_buffer s)" "t = on_receive Success d s"
    have "us_isRunning s" "us_joinable s" "us_open s" using inv threw(1) by (auto simp: udp_inv_def)
    then show ?thesis using threw
      by (cases "f (map of_char d)") (simp_all add: on_receive_effect Let_def udp_dead_def)
  qed
  then show ?thesis using udp_dead_runs[OF assms(3)] by blast
qed

definition sample_udp_server_env :: udp_server_env where
  "sample_udp_server_env = \<lparr>sv_open = None, sv_bind = (\<lambda>p. if p = 53 then Some (StdException ''bind'') else None)\<rparr>"

lemma udp_runs_trans: "udp_runs t u \<Longrightarrow> udp_runs s t \<Longrightarrow> udp_runs s u"
  by (induction rule: udp_runs.induct) (auto intro: udp_runs.step)

lemma server_works_once_witness:
  "\<exists>t u. udp_start sample_udp_server_env 53 (new_udp_server ''xxxx'') = Some (False, t) \<and>
     udp_start sample_udp_server_env 54 (udp_stop t) = Some (True, u) \<and> isWorking u \<and>
     (\<forall>v. udp_runs u v \<longrightarrow> us_delivered v = [])"
proof -
  let ?s = "new_udp_server ''xxxx''"
  let ?t = "?s\<lparr>us_open := True\<rparr>"
  have t: "udp_start sample_udp_server_env 53 ?s = Some (False, ?t)"
    "\<not> isWorking ?s" "sv_open sample_udp_server_env = None" "us_delivered ?t = []"
    by (simp_all add: udp_start_def sample_udp_server_env_def new_udp_server_def isWorking_def Let_def)
  obtain u where u: "udp_start sample_udp_server_env 54 (udp_stop ?t) = Some (True, u)" "isWorking u"
    by (simp add: udp_start_def sample_udp_server_env_def new_udp_server_def udp_stop_def startReceive_def
        isWorking_def Let_def)
  have tu: "udp_runs ?t u"
    using u(1) by (blast intro: udp_runs.intros udp_step.intros)
  have "us_delivered v = []" if "udp_runs u v" for v
    using server_works_once[OF udp_runs.refl disjI2[OF disjI1, OF conjI[OF t(1) conjI[OF t(2,3)]]]
        udp_runs_trans[OF that tu]] t(4) by simp
  then show ?thesis using t(1) u by blast
qed

text \<open>
  Delivery. A datagram received by the running loop is given to the processor byte
  for byte (whatever the buffer held before), exactly once, and the next receive is
  started if the processor returns; empty datagrams and errors are skipped and the
  next receive is started.
\<close>

theorem datagram_delivered:
  assumes "udp_runs (new_udp_server b) s" and "us_loop s" and "length d \<le> length (us_buffer s)"
  shows "(let t = on_receive error d s in
    us_delivered t = us_delivered s @ (if error = Success \<and> d \<noteq> [] \<and> us_processor s \<noteq> None
        then [map of_char d] else []) \<and>
    (us_loop t \<and> us_receiving t \<longleftrightarrow> \<not> (error = Success \<and> d \<noteq> [] \<and>
        (\<exists>f. us_processor s = Some f \<and> f (map of_char d) \<noteq> Proc_returns))))"
proof -
  have "us_isRunning s" "us_joinable s"
    using udp_reachable_inv[OF assms(1)] assms(2) by (simp_all add: udp_inv_def)
  note e = on_receive_effect[OF this assms(3), of error]
  show ?thesis
  proof (cases "if error = Success \<and> d \<noteq> [] then us_processor s else None")
    case None
    then show ?thesis using assms(2) by (auto simp: e Let_def split: if_splits)
  next
    case (Some f)
    then show ?thesis using assms(2)
      by (cases "f (map of_char d)") (auto simp: e Let_def split: if_splits)
  qed
qed

lemma datagram_delivered_witness:
  "\<exists>s t. udp_start sample_udp_server_env 54 (setRequestProcessor (Some (\<lambda>_. Proc_returns)) (new_udp_server ''xxxx'')) =
       Some (True, s) \<and> t = on_receive Success ''ab'' s \<and> us_delivered t = [[97, 98]] \<and> us_receiving t"
proof -
  let ?s0 = "setRequestProcessor (Some (\<lambda>_. Proc_returns)) (new_udp_server ''xxxx'')"
  obtain s where s: "udp_start sample_udp_server_env 54 ?s0 = Some (True, s)" "us_loop s"
      "us_processor s = Some (\<lambda>_. Proc_returns)" "length (us_buffer s) = 4" "us_delivered s = []"
    by (simp add: udp_start_def sample_udp_server_env_def new_udp_server_def setRequestProcessor_def
        startReceive_def Let_def)
  have "udp_runs (new_udp_server ''xxxx'') s"
    using s(1) by (blast intro: udp_runs.intros udp_step.intros)
  from datagram_delivered[OF this s(2), of "''ab''" Success] show ?thesis
    using s by (intro exI[of _ s] exI[of _ "on_receive Success ''ab'' s"]) (simp add: Let_def)
qed

text \<open>
  C33. Starting never terminates the process: in every state a server can reach, \<open>start\<close>
  does not assign to a thread object that still owns a thread. It succeeds exactly when
  the server is not running, its socket is closed and the system opens and binds it.
\<close>

theorem udp_start_outcome:
  assumes "udp_runs (new_udp_server b) s"
  shows "\<exists>t. udp_start env port s = Some (\<not> isWorking s \<and> \<not> us_open s \<and> sv_open env = None \<and>
      sv_bind env port = None, t)"
  using udp_reachable_inv[OF assms]
  by (auto simp: udp_inv_def udp_start_def startReceive_def isWorking_def Let_def)

lemma udp_start_outcome_witness:
  "\<exists>t. udp_start sample_udp_server_env 53 (new_udp_server []) = Some (False, t)"
  using udp_start_outcome[OF udp_runs.refl, of sample_udp_server_env 53 "[]"]
  by (simp add: sample_udp_server_env_def)

end
