(* ===== verification/Udp_Server_Calls.thy ===== *)
theory Udp_Server_Calls
  imports Udp_Server
begin

text \<open>
  The UDP server as its users see it (\<^verbatim>\<open>src/UDP/server.hpp\<close>): the public operations as a
  type of calls, histories of calls and completed receives, an abstract machine with
  the few states such a server can be in, and the proof that the server of \<open>Udp_Server\<close>
  does what that machine does.
\<close>

subsection \<open>Histories\<close>

datatype udp_server_call =
    Start u16
  | Is_working
  | Stop
  | Set_processor "udp_processor option"

text \<open>A receive that ends happens on the thread of the server, with an error code and the bytes received.\<close>

datatype udp_server_act = Call udp_server_call | Received error_code string

text \<open>The answers: nothing, or a truth value. \<open>None\<close> is the end of the process.\<close>

fun do_udp_server_call ::
  "udp_server_env \<Rightarrow> udp_server_call \<Rightarrow> udp_server \<Rightarrow> (bool option \<times> udp_server) option" where
  "do_udp_server_call env (Start port) s = map_option (\<lambda>(b, t). (Some b, t)) (udp_start env port s)"
| "do_udp_server_call env Is_working s = Some (Some (isWorking s), s)"
| "do_udp_server_call env Stop s = Some (None, udp_stop s)"
| "do_udp_server_call env (Set_processor p) s = Some (None, setRequestProcessor p s)"

text \<open>A receive ends only while one is pending and the thread is in its loop, with at most a buffer of bytes.\<close>

definition receives :: "string \<Rightarrow> udp_server \<Rightarrow> bool" where
  "receives bytes s \<longleftrightarrow> us_loop s \<and> us_receiving s \<and> length bytes \<le> length (us_buffer s)"

fun do_udp_server_act ::
  "udp_server_env \<Rightarrow> udp_server_act \<Rightarrow> udp_server \<Rightarrow> (bool option \<times> udp_server) option" where
  "do_udp_server_act env (Call x) s = do_udp_server_call env x s"
| "do_udp_server_act env (Received e bytes) s =
     Some (None, if receives bytes s then on_receive e bytes s else s)"

fun udp_server_history ::
  "(udp_server_env \<times> udp_server_act) list \<Rightarrow> udp_server \<Rightarrow> (bool option list \<times> udp_server) option" where
  "udp_server_history [] s = Some ([], s)"
| "udp_server_history ((env, x) # xs) s =
     (case do_udp_server_act env x s of None \<Rightarrow> None
      | Some (a, t) \<Rightarrow> map_option (\<lambda>(as, u). (a # as, u)) (udp_server_history xs t))"

subsection \<open>The abstract machine\<close>

text \<open>
  The lives of a server: its socket is closed; it is open but not bound; the server works;
  it says that it works but its thread has left the loop; its processor has stopped it. The flag says
  whether \<open>stop\<close> was ever called: a server that was stopped never works again.
\<close>

datatype server_life = Closed bool | Unbound bool | Working | Hung bool | Stopped_itself

record udp_spec =
  sp_life :: server_life
  sp_processor :: "udp_processor option"

fun says_working :: "server_life \<Rightarrow> bool" where
  "says_working Working = True"
| "says_working (Hung st) = True"
| "says_working l = False"

fun spec_start :: "udp_server_env \<Rightarrow> u16 \<Rightarrow> server_life \<Rightarrow> bool \<times> server_life" where
  "spec_start env port (Closed st) =
     (if sv_open env \<noteq> None then (False, Closed st)
      else if sv_bind env port \<noteq> None then (False, Unbound st)
      else (True, if st then Hung True else Working))"
| "spec_start env port l = (False, l)"

fun after_processor :: "proc_result \<Rightarrow> server_life" where
  "after_processor Proc_returns = Working"
| "after_processor Proc_throws = Hung False"
| "after_processor Proc_stops = Stopped_itself"

text \<open>An act: its answer, what the processor is given, and the machine after it.\<close>

fun spec_act ::
  "nat \<Rightarrow> udp_server_env \<Rightarrow> udp_server_act \<Rightarrow> udp_spec \<Rightarrow> bool option \<times> u8 list list \<times> udp_spec" where
  "spec_act n env (Call (Start port)) s =
     (case spec_start env port (sp_life s) of (b, l) \<Rightarrow> (Some b, [], s\<lparr>sp_life := l\<rparr>))"
| "spec_act n env (Call Is_working) s = (Some (says_working (sp_life s)), [], s)"
| "spec_act n env (Call Stop) s = (None, [], s\<lparr>sp_life := Closed True\<rparr>)"
| "spec_act n env (Call (Set_processor p)) s = (None, [], s\<lparr>sp_processor := p\<rparr>)"
| "spec_act n env (Received e bytes) s =
     (case (if sp_life s = Working \<and> length bytes \<le> n \<and> e = Success \<and> bytes \<noteq> [] then sp_processor s else None) of
        None \<Rightarrow> (None, [], s)
      | Some f \<Rightarrow> (None, [map of_char bytes], s\<lparr>sp_life := after_processor (f (map of_char bytes))\<rparr>))"

fun spec_history ::
  "nat \<Rightarrow> (udp_server_env \<times> udp_server_act) list \<Rightarrow> udp_spec \<Rightarrow> bool option list \<times> u8 list list \<times> udp_spec" where
  "spec_history n [] s = ([], [], s)"
| "spec_history n ((env, x) # xs) s =
     (case spec_act n env x s of (a, ds, t) \<Rightarrow>
        case spec_history n xs t of (as, es, u) \<Rightarrow> (a # as, ds @ es, u))"

definition fresh_spec :: udp_spec where
  "fresh_spec = \<lparr>sp_life = Closed False, sp_processor = None\<rparr>"

subsection \<open>The server refines it\<close>

text \<open>The flags of a server in each of its lives.\<close>

fun flags_of :: "server_life \<Rightarrow> bool \<times> bool \<times> bool \<times> bool \<times> bool" where
  "flags_of (Closed st) = (False, False, st, False, False)"
| "flags_of (Unbound st) = (True, False, st, False, False)"
| "flags_of Working = (True, True, False, True, True)"
| "flags_of (Hung st) = (True, True, st, False, True)"
| "flags_of Stopped_itself = (True, False, True, False, True)"

definition server_is :: "nat \<Rightarrow> udp_spec \<Rightarrow> udp_server \<Rightarrow> bool" where
  "server_is n a s \<longleftrightarrow>
     (us_open s, us_isRunning s, us_stopped s, us_loop s, us_joinable s) = flags_of (sp_life a) \<and>
     us_processor s = sp_processor a \<and> length (us_buffer s) = n \<and> (sp_life a = Working \<longrightarrow> us_receiving s)"

lemma receive_refines:
  assumes "server_is n a s"
  shows "\<exists>ds b t. spec_act n env (Received e bytes) a = (None, ds, b) \<and> server_is n b t \<and>
    do_udp_server_act env (Received e bytes) s = Some (None, t) \<and> us_delivered t = us_delivered s @ ds"
proof (cases "sp_life a = Working \<and> length bytes \<le> n")
  case False
  then have "\<not> receives bytes s" using assms by (cases "sp_life a") (auto simp: server_is_def receives_def)
  then show ?thesis using False assms by auto
next
  case True
  then have s: "us_isRunning s" "us_joinable s" "us_open s" "\<not> us_stopped s" "us_loop s" "us_receiving s"
      "length bytes \<le> length (us_buffer s)" "us_processor s = sp_processor a" "length (us_buffer s) = n"
    using assms by (auto simp: server_is_def)
  then have r: "receives bytes s" by (simp add: receives_def)
  note e = on_receive_effect[OF s(1,2,7), of e]
  show ?thesis
  proof (cases "if e = Success \<and> bytes \<noteq> [] then us_processor s else None")
    case None
    then have "spec_act n env (Received e bytes) a = (None, [], a)" using True s(8) by (auto split: if_splits)
    moreover have "on_receive e bytes s = s\<lparr>us_buffer := overwrite bytes (us_buffer s), us_receiving := True\<rparr>"
      using e None by (simp add: Let_def)
    ultimately show ?thesis using r True s by (simp add: server_is_def)
  next
    case (Some f)
    then have es: "e = Success" "bytes \<noteq> []" and f: "sp_processor a = Some f" "us_processor s = Some f"
      using s(8) by (auto split: if_splits)
    have "spec_act n env (Received e bytes) a =
        (None, [map of_char bytes], a\<lparr>sp_life := after_processor (f (map of_char bytes))\<rparr>)"
      using es f True by simp
    moreover have "server_is n (a\<lparr>sp_life := after_processor (f (map of_char bytes))\<rparr>) (on_receive e bytes s) \<and>
        us_delivered (on_receive e bytes s) = us_delivered s @ [map of_char bytes]"
      using e es f s by (cases "f (map of_char bytes)") (simp_all add: server_is_def Let_def)
    ultimately show ?thesis using r by simp
  qed
qed

lemma start_refines:
  assumes "server_is n a s"
  shows "\<exists>t. udp_start env port s = Some (fst (spec_start env port (sp_life a)), t) \<and>
    server_is n (a\<lparr>sp_life := snd (spec_start env port (sp_life a))\<rparr>) t \<and> us_delivered t = us_delivered s"
  using assms
  by (cases "sp_life a"; cases "sv_open env"; cases "sv_bind env port")
    (simp_all add: server_is_def udp_start_def startReceive_def Let_def)

lemma udp_server_act_refines:
  assumes "server_is n a s"
  shows "\<exists>r ds b t. spec_act n env x a = (r, ds, b) \<and> server_is n b t \<and>
    do_udp_server_act env x s = Some (r, t) \<and> us_delivered t = us_delivered s @ ds"
proof (cases x)
  case (Received e bytes)
  then show ?thesis using receive_refines[OF assms, of env e bytes] by blast
next
  case (Call y)
  show ?thesis
  proof (cases y)
    case (Start port)
    obtain b l where "spec_start env port (sp_life a) = (b, l)" by fastforce
    with start_refines[OF assms, of env port] Call Start show ?thesis by auto
  next
    case Is_working
    then show ?thesis using Call assms
      by (cases "sp_life a") (auto simp: server_is_def isWorking_def)
  next
    case Stop
    then show ?thesis using Call assms by (simp add: server_is_def udp_stop_def)
  next
    case (Set_processor p)
    then show ?thesis using Call assms by (simp add: server_is_def setRequestProcessor_def)
  qed
qed

lemma udp_server_history_refines:
  "server_is n a s \<Longrightarrow> \<exists>rs ds b t. spec_history n xs a = (rs, ds, b) \<and> server_is n b t \<and>
     udp_server_history xs s = Some (rs, t) \<and> us_delivered t = us_delivered s @ ds"
proof (induction xs arbitrary: a s)
  case (Cons ex xs)
  obtain env x where ex: "ex = (env, x)" by fastforce
  obtain r ds b t where 1: "spec_act n env x a = (r, ds, b)" "server_is n b t"
      "do_udp_server_act env x s = Some (r, t)" "us_delivered t = us_delivered s @ ds"
    using udp_server_act_refines[OF Cons.prems] by blast
  obtain rs es c u where 2: "spec_history n xs b = (rs, es, c)" "server_is n c u"
      "udp_server_history xs t = Some (rs, u)" "us_delivered u = us_delivered t @ es"
    using Cons.IH[OF 1(2)] by blast
  show ?case using 1 2 ex by simp
qed simp

subsection \<open>Properties\<close>

text \<open>
  C13. What a UDP server does. For every history of calls and received datagrams on a new
  server the process goes on, and the answers and the data given to the processors are
  those of the abstract machine; so are the five lives of a server, of which only one
  receives.
\<close>

theorem udp_server_implements:
  "case spec_history (length indet) xs fresh_spec of (as, ds, a) \<Rightarrow>
     \<exists>t. udp_server_history xs (new_udp_server indet) = Some (as, t) \<and> us_delivered t = ds \<and>
       server_is (length indet) a t"
proof -
  have "server_is (length indet) fresh_spec (new_udp_server indet)" "us_delivered (new_udp_server indet) = []"
    by (simp_all add: server_is_def new_udp_server_def fresh_spec_def)
  then show ?thesis
    using udp_server_history_refines[of "length indet" fresh_spec "new_udp_server indet" xs] by auto
qed

end
