(* ===== verification/Udp_System.thy ===== *)
theory Udp_System
  imports Udp_Client_Calls Udp_Server_Calls
begin

text \<open>
  UDP clients, the network between them and a server. The network keeps the datagrams that are
  under way in a multiset, so it reorders them; it may lose and it may copy them. What the
  server's processor is given is traced back to what the clients sent.
\<close>

subsection \<open>Clients, wire and server\<close>

type_synonym datagram = "endpoint \<times> u8 list"

text \<open>\<open>un_copies\<close>: the copies the network has made.\<close>

record udp_net =
  un_clients :: "udp_client list"
  un_wire :: "datagram multiset"
  un_copies :: "datagram multiset"
  un_server :: udp_server

definition quiet_net :: "string \<Rightarrow> udp_net" where
  "quiet_net indet = \<lparr>un_clients = [], un_wire = {#}, un_copies = {#}, un_server = new_udp_server indet\<rparr>"

text \<open>The bytes of a datagram as the server's buffer of characters gets them: as many as fit.\<close>

definition received_bytes :: "nat \<Rightarrow> u8 list \<Rightarrow> string" where
  "received_bytes n d = take n (map (\<lambda>b. char_of (unat b)) d)"

lemma of_char_of_u8: "(of_char (char_of (unat b) :: char) :: u8) = b"
proof -
  have "(of_char (char_of (unat b) :: char) :: u8) = of_nat (of_char (char_of (unat b) :: char))"
    by (simp only: of_nat_of_char)
  also have "(of_char (char_of (unat b) :: char) :: nat) = unat b"
    using unsigned_less[of b, where ?'a = nat] by simp
  finally show ?thesis by simp
qed

lemma of_received_bytes [simp]: "map of_char (received_bytes n d) = take n d"
  by (simp add: received_bytes_def take_map[symmetric] o_def of_char_of_u8)

lemma received_bytes_empty [simp]: "received_bytes n d = [] \<longleftrightarrow> n = 0 \<or> d = []"
  by (auto simp: received_bytes_def)

lemma length_received_bytes [simp]: "length (received_bytes n d) \<le> n"
  by (simp add: received_bytes_def)

definition sent_by_call :: "udp_client_env \<Rightarrow> udp_call \<Rightarrow> udp_client \<Rightarrow> datagram list" where
  "sent_by_call env x c = drop (length (uc_sent c)) (uc_sent (snd (do_udp_call env x c)))"

text \<open>
  \<open>here\<close>: the address the server is reached at.
\<close>

inductive udp_net_step :: "endpoint \<Rightarrow> udp_net \<Rightarrow> udp_net \<Rightarrow> bool" for here where
  joins: "new_udp_client env = Inr c \<Longrightarrow> udp_net_step here s (s\<lparr>un_clients := un_clients s @ [c]\<rparr>)"
| calls: "i < length (un_clients s) \<Longrightarrow> c = un_clients s ! i \<Longrightarrow>
     udp_net_step here s (s\<lparr>un_clients := (un_clients s)[i := snd (do_udp_call env x c)],
       un_wire := un_wire s + mset (sent_by_call env x c)\<rparr>)"
| loses: "p \<in># un_wire s \<Longrightarrow> udp_net_step here s (s\<lparr>un_wire := un_wire s - {#p#}\<rparr>)"
| copies: "p \<in># un_wire s \<Longrightarrow>
     udp_net_step here s (s\<lparr>un_wire := un_wire s + {#p#}, un_copies := un_copies s + {#p#}\<rparr>)"
| delivers: "(here, d) \<in># un_wire s \<Longrightarrow> us_loop (un_server s) \<Longrightarrow> us_receiving (un_server s) \<Longrightarrow>
     udp_net_step here s (s\<lparr>un_wire := un_wire s - {#(here, d)#},
       un_server := on_receive Success (received_bytes (length (us_buffer (un_server s))) d) (un_server s)\<rparr>)"
| fails: "e \<noteq> Success \<Longrightarrow> us_loop (un_server s) \<Longrightarrow> us_receiving (un_server s) \<Longrightarrow>
     udp_net_step here s (s\<lparr>un_server := on_receive e [] (un_server s)\<rparr>)"
| serves: "do_udp_server_call env x (un_server s) = Some (a, t) \<Longrightarrow> udp_net_step here s (s\<lparr>un_server := t\<rparr>)"

definition all_sent :: "udp_net \<Rightarrow> datagram multiset" where
  "all_sent s = mset (concat (map uc_sent (un_clients s)))"

subsection \<open>What the steps keep\<close>

lemma handed_over:
  "uc_sent (snd (do_udp_call env x c)) = uc_sent c @ sent_by_call env x c"
proof -
  have "\<exists>ys. uc_sent (snd (do_udp_call env x c)) = uc_sent c @ ys"
    by (cases x) (auto simp: setHost_effect enableBroadcast_def sendData_def sendByteData_def send_data_def
      setErrorCallback_def Let_def split: option.split sum.split)
  then show ?thesis by (auto simp: sent_by_call_def)
qed

lemma all_sent_update:
  "i < length cs \<Longrightarrow> uc_sent d = uc_sent (cs ! i) @ ys \<Longrightarrow>
   mset (concat (map uc_sent (cs[i := d]))) = mset (concat (map uc_sent cs)) + mset ys"
proof (induction cs arbitrary: i)
  case (Cons c cs)
  then show ?case by (cases i) simp_all
qed simp

text \<open>
  The datagrams that reached a processor: with those still under way they are no more
  than what was sent and copied.
\<close>

definition accounts :: "endpoint \<Rightarrow> nat \<Rightarrow> udp_net \<Rightarrow> u8 list list \<Rightarrow> bool" where
  "accounts here n s ds \<longleftrightarrow> us_delivered (un_server s) = map (take n) ds \<and>
     image_mset (Pair here) (mset ds) + un_wire s \<subseteq># all_sent s + un_copies s \<and>
     length (us_buffer (un_server s)) = n \<and> udp_inv (un_server s)"

lemma server_call_keeps:
  assumes "do_udp_server_call env x s = Some (a, t)" and "udp_inv s"
  shows "us_delivered t = us_delivered s \<and> length (us_buffer t) = length (us_buffer s) \<and> udp_inv t"
proof (cases x)
  case (Start p)
  then obtain r where "udp_start env p s = Some (r, t)" using assms(1) by auto
  then show ?thesis using udp_start_inv[OF assms(2), of env p r t]
    by (auto simp: udp_start_def startReceive_def Let_def split: if_splits)
qed (use assms in \<open>auto simp: udp_stop_def setRequestProcessor_def udp_inv_def\<close>)

lemma receive_keeps:
  assumes "udp_inv s" and "us_loop s" and "length bytes \<le> length (us_buffer s)"
  shows "us_delivered (on_receive e bytes s) = us_delivered s @
      (if e = Success \<and> bytes \<noteq> [] \<and> us_processor s \<noteq> None then [map of_char bytes] else [])"
    and "length (us_buffer (on_receive e bytes s)) = length (us_buffer s)"
proof -
  have "us_isRunning s" "us_joinable s" using assms(1,2) by (auto simp: udp_inv_def)
  note eq = on_receive_effect[OF this assms(3), of e]
  have "us_delivered (on_receive e bytes s) = us_delivered s @
      (if e = Success \<and> bytes \<noteq> [] \<and> us_processor s \<noteq> None then [map of_char bytes] else []) \<and>
    length (us_buffer (on_receive e bytes s)) = length (us_buffer s)"
  proof (cases "if e = Success \<and> bytes \<noteq> [] then us_processor s else None")
    case None
    then show ?thesis by (auto simp: eq Let_def split: if_splits)
  next
    case (Some f)
    then show ?thesis by (cases "f (map of_char bytes)") (auto simp: eq Let_def split: if_splits)
  qed
  then show "us_delivered (on_receive e bytes s) = us_delivered s @
      (if e = Success \<and> bytes \<noteq> [] \<and> us_processor s \<noteq> None then [map of_char bytes] else [])"
    and "length (us_buffer (on_receive e bytes s)) = length (us_buffer s)" by blast+
qed

lemma subseteq_moved:
  "A + W \<subseteq># (B :: 'a multiset) \<Longrightarrow> x \<in># W \<Longrightarrow> (A + {#x#}) + (W - {#x#}) \<subseteq># B"
  by simp

lemma subseteq_dropped: "A + W \<subseteq># (B :: 'a multiset) \<Longrightarrow> A + (W - X) \<subseteq># B"
  by (meson diff_subset_eq_self subset_mset.add_left_mono subset_mset.order_trans)

lemma udp_net_step_accounts:
  "udp_net_step here s t \<Longrightarrow> accounts here n s ds \<Longrightarrow> \<exists>es. accounts here n t es"
proof (induction rule: udp_net_step.induct)
  case (joins env c s)
  have "uc_sent c = []" using joins.hyps by (auto simp: new_udp_client_def split: option.splits)
  then show ?case using joins.prems by (intro exI[of _ ds]) (simp add: accounts_def all_sent_def)
next
  case (calls i s c env x)
  let ?t = "s\<lparr>un_clients := (un_clients s)[i := snd (do_udp_call env x c)],
       un_wire := un_wire s + mset (sent_by_call env x c)\<rparr>"
  have "all_sent ?t = all_sent s + mset (sent_by_call env x c)"
    using all_sent_update[OF calls.hyps(1)] handed_over[of env x c] calls.hyps(2) by (simp add: all_sent_def)
  then have "accounts here n ?t ds" using calls.prems
    by (simp add: accounts_def add.commute add.left_commute)
  then show ?case by blast
next
  case (loses p s)
  then have "image_mset (Pair here) (mset ds) + (un_wire s - {#p#}) \<subseteq># all_sent s + un_copies s"
    by (intro subseteq_dropped) (simp add: accounts_def)
  then show ?case using loses.prems by (intro exI[of _ ds]) (simp add: accounts_def all_sent_def)
next
  case (copies p s)
  then show ?case by (intro exI[of _ ds]) (simp add: accounts_def all_sent_def)
next
  case (delivers d s)
  let ?s = "un_server s"
  let ?b = "received_bytes (length (us_buffer ?s)) d"
  have s: "udp_inv ?s" "length (us_buffer ?s) = n" "us_delivered ?s = map (take n) ds"
    "image_mset (Pair here) (mset ds) + un_wire s \<subseteq># all_sent s + un_copies s"
    using delivers.prems by (simp_all add: accounts_def)
  have b: "length ?b \<le> length (us_buffer ?s)" by simp
  note k = receive_keeps[OF s(1) delivers.hyps(2) b, of Success] on_receive_inv[OF s(1) delivers.hyps(2) b, of Success]
  show ?case
  proof (cases "?b \<noteq> [] \<and> us_processor ?s \<noteq> None")
    case True
    have "image_mset (Pair here) (mset (ds @ [d])) + (un_wire s - {#(here, d)#}) \<subseteq># all_sent s + un_copies s"
      using subseteq_moved[OF s(4) delivers.hyps(1)] by simp
    then show ?thesis using k s(2,3) True
      by (intro exI[of _ "ds @ [d]"]) (simp add: accounts_def all_sent_def)
  next
    case False
    then have "us_delivered (on_receive Success ?b ?s) = us_delivered ?s" using k(1) by auto
    then show ?thesis using k(2,3) s subseteq_dropped[OF s(4)]
      by (intro exI[of _ ds]) (simp add: accounts_def all_sent_def)
  qed
next
  case (fails e s)
  have s: "udp_inv (un_server s)" using fails.prems by (simp add: accounts_def)
  show ?case using receive_keeps[OF s fails.hyps(2), of "[]" e] on_receive_inv[OF s fails.hyps(2), of "[]" e] fails
    by (intro exI[of _ ds]) (simp add: accounts_def all_sent_def)
next
  case (serves env x s a t)
  then show ?case using server_call_keeps[OF serves.hyps]
    by (intro exI[of _ ds]) (simp add: accounts_def all_sent_def)
qed

lemma udp_net_accounts:
  "(udp_net_step here)\<^sup>*\<^sup>* (quiet_net indet) s \<Longrightarrow> \<exists>ds. accounts here (length indet) s ds"
proof (induction rule: rtranclp_induct)
  case base
  have "accounts here (length indet) (quiet_net indet) []"
    by (simp add: accounts_def quiet_net_def all_sent_def new_udp_server_def udp_inv_def)
  then show ?case by blast
qed (blast intro: udp_net_step_accounts)

lemma udp_call_open: "uc_open c \<Longrightarrow> uc_open (snd (do_udp_call env x c))"
  by (cases x) (auto simp: setHost_effect enableBroadcast_def sendData_def sendByteData_def send_data_def
    setErrorCallback_def Let_def split: option.split sum.split)

lemma udp_net_open:
  "(udp_net_step here)\<^sup>*\<^sup>* (quiet_net indet) s \<Longrightarrow> \<forall>c \<in> set (un_clients s). uc_open c"
proof (induction rule: rtranclp_induct)
  case (step s t)
  from step.hyps(2) step.IH show ?case
  proof cases
    case (joins env c)
    then show ?thesis using step.IH by (auto simp: new_udp_client_def split: option.splits)
  next
    case (calls i c env x)
    then have "uc_open (snd (do_udp_call env x c))" using step.IH by (intro udp_call_open) simp
    then show ?thesis using calls(1) step.IH set_update_subset_insert[of "un_clients s" i] by fastforce
  qed simp_all
qed (simp add: quiet_net_def)

subsection \<open>Properties\<close>

text \<open>
  C9. Nothing is made up. However many clients there are, whatever they and the server's owner call, and
  whatever the network loses, copies and reorders, what the processors of the server were given are
  datagrams that clients addressed to it, cut to the size of its buffer, each at
  most as often as it was sent and copied.
\<close>

theorem delivered_was_sent:
  assumes "(udp_net_step here)\<^sup>*\<^sup>* (quiet_net indet) s"
  shows "\<exists>ds. us_delivered (un_server s) = map (take (length indet)) ds \<and>
    image_mset (Pair here) (mset ds) \<subseteq># all_sent s + un_copies s"
proof -
  obtain ds where a: "accounts here (length indet) s ds" using udp_net_accounts[OF assms] by blast
  have "image_mset (Pair here) (mset ds) \<subseteq># image_mset (Pair here) (mset ds) + un_wire s" by simp
  also have "\<dots> \<subseteq># all_sent s + un_copies s" using a by (simp add: accounts_def)
  finally show ?thesis using a unfolding accounts_def by blast
qed

text \<open>
  C22. A datagram crosses. A client whose last host resolved to the server, with a port that
  is not 0, and a server that works with a processor: sending at most a buffer of bytes and having them delivered
  gives the processor exactly these bytes, and leaves the wire as it was.
\<close>

theorem datagram_crosses:
  assumes "(udp_net_step here)\<^sup>*\<^sup>* (quiet_net indet) s" and "i < length (un_clients s)"
    and "uc_endpoint (un_clients s ! i) = here" and "snd (uc_host (un_clients s ! i)) \<noteq> 0"
    and "us_loop (un_server s)" and "us_processor (un_server s) \<noteq> None"
    and "d \<noteq> []" and "length d \<le> length indet"
  shows "\<exists>t. (udp_net_step here)\<^sup>*\<^sup>* s t \<and> us_delivered (un_server t) = us_delivered (un_server s) @ [d] \<and>
    un_wire t = un_wire s \<and> all_sent t = all_sent s + {#(here, d)#}"
proof -
  fix env :: udp_client_env
  let ?c = "un_clients s ! i"
  let ?s1 = "s\<lparr>un_clients := (un_clients s)[i := snd (do_udp_call env (Send_bytes d) ?c)],
       un_wire := un_wire s + mset (sent_by_call env (Send_bytes d) ?c)\<rparr>"
  let ?b = "received_bytes (length (us_buffer (un_server ?s1))) d"
  let ?s2 = "?s1\<lparr>un_wire := un_wire ?s1 - {#(here, d)#}, un_server := on_receive Success ?b (un_server ?s1)\<rparr>"
  have "uc_open ?c" using udp_net_open[OF assms(1)] assms(2) by simp
  then have sent: "sent_by_call env (Send_bytes d) ?c = [(here, d)]"
    using assms(3,4) by (simp add: sent_by_call_def sendByteData_def send_data_def Let_def split: sum.split)
  obtain ds where acc: "accounts here (length indet) s ds" using udp_net_accounts[OF assms(1)] by blast
  then have srv: "udp_inv (un_server s)" "length (us_buffer (un_server s)) = length indet"
      "us_receiving (un_server s)" using assms(5) by (auto simp: accounts_def udp_inv_def)
  have "udp_net_step here s ?s1" by (rule udp_net_step.calls[OF assms(2) HOL.refl])
  moreover have "udp_net_step here ?s1 ?s2"
    by (rule udp_net_step.delivers) (simp_all add: sent assms(5) srv(3))
  ultimately have run: "(udp_net_step here)\<^sup>*\<^sup>* s ?s2"
    by (rule rtranclp.rtrancl_into_rtrancl[where r = "udp_net_step here", OF r_into_rtranclp[where r = "udp_net_step here"]])
  have "us_delivered (un_server ?s2) = us_delivered (un_server s) @ [d]"
  proof -
    have "indet \<noteq> []" using assms(7,8) by auto
    then show ?thesis using receive_keeps(1)[OF srv(1) assms(5), of ?b Success] assms(6-8) srv(2) by simp
  qed
  moreover have "all_sent ?s2 = all_sent s + {#(here, d)#}"
    using all_sent_update[OF assms(2), of "snd (do_udp_call env (Send_bytes d) ?c)" "[(here, d)]"]
      handed_over[of env "Send_bytes d" ?c] sent by (simp add: all_sent_def)
  ultimately show ?thesis using run by (intro exI[of _ ?s2]) (simp add: sent)
qed

text \<open>One client that has chosen its host, and a server that works.\<close>

definition sample_client :: udp_client where
  "sample_client = snd (do_udp_call sample_udp_env (Set_host ''a'' 7) sample_udp_client)"

definition sample_net :: udp_net where
  "sample_net = (quiet_net ''xxxx'')\<lparr>un_clients := [sample_client],
     un_server := (new_udp_server ''xxxx'')\<lparr>us_processor := Some (\<lambda>_. Proc_returns), us_open := True,
       us_isRunning := True, us_receiving := True, us_joinable := True, us_loop := True\<rparr>\<rparr>"

lemma sample_client_facts:
  "uc_endpoint sample_client = (''10.0.0.1'', 7)" "snd (uc_host sample_client) \<noteq> 0"
  by (simp_all add: sample_client_def sample_udp_env_def sample_udp_client_def setHost_def)

lemma sample_net_runs: "(udp_net_step here)\<^sup>*\<^sup>* (quiet_net ''xxxx'') sample_net"
proof -
  let ?a = "(quiet_net ''xxxx'')\<lparr>un_clients := un_clients (quiet_net ''xxxx'') @ [sample_udp_client]\<rparr>"
  let ?b = "?a\<lparr>un_clients := (un_clients ?a)[0 := snd (do_udp_call sample_udp_env (Set_host ''a'' 7) (un_clients ?a ! 0))],
       un_wire := un_wire ?a + mset (sent_by_call sample_udp_env (Set_host ''a'' 7) (un_clients ?a ! 0))\<rparr>"
  let ?c = "?b\<lparr>un_server := setRequestProcessor (Some (\<lambda>_. Proc_returns)) (un_server ?b)\<rparr>"
  have "udp_net_step here (quiet_net ''xxxx'') ?a"
    by (rule udp_net_step.joins[of sample_udp_env]) (simp add: new_udp_client_def sample_udp_env_def sample_udp_client_def)
  moreover have "udp_net_step here ?a ?b" by (rule udp_net_step.calls) simp_all
  moreover have "udp_net_step here ?b ?c"
    by (rule udp_net_step.serves[of sample_udp_server_env "Set_processor (Some (\<lambda>_. Proc_returns))"]) simp
  moreover have "udp_net_step here ?c sample_net"
  proof -
    have wire: "sent_by_call sample_udp_env (Set_host ''a'' 7) sample_udp_client = []"
      by (simp add: sent_by_call_def setHost_effect)
    have "sample_net = ?c\<lparr>un_server := un_server sample_net\<rparr>"
      by (simp add: sample_net_def sample_client_def quiet_net_def wire)
    moreover have "do_udp_server_call sample_udp_server_env (Start 54) (un_server ?c) = Some (Some True, un_server sample_net)"
      by (simp add: udp_start_def sample_udp_server_env_def sample_net_def quiet_net_def new_udp_server_def
          setRequestProcessor_def startReceive_def Let_def)
    ultimately show ?thesis using udp_net_step.serves[of sample_udp_server_env "Start 54" ?c "Some True" "un_server sample_net"]
      by metis
  qed
  ultimately show ?thesis by (meson converse_rtranclp_into_rtranclp rtranclp.rtrancl_refl)
qed

lemma delivered_was_sent_witness:
  "\<exists>ds. us_delivered (un_server sample_net) = map (take (length ''xxxx'')) ds \<and>
     image_mset (Pair (''10.0.0.1'', 7)) (mset ds) \<subseteq># all_sent sample_net + un_copies sample_net"
  by (rule delivered_was_sent[OF sample_net_runs])

lemma datagram_crosses_witness:
  "\<exists>t. us_delivered (un_server t) = [[1, 2]] \<and> all_sent t = {#((''10.0.0.1'', 7), [1, 2])#}"
proof -
  have s: "un_clients sample_net = [sample_client]" "us_loop (un_server sample_net)"
    "us_processor (un_server sample_net) = Some (\<lambda>_. Proc_returns)" "us_delivered (un_server sample_net) = []"
    "all_sent sample_net = {#}"
    by (simp_all add: sample_net_def new_udp_server_def all_sent_def sample_client_def sample_udp_client_def setHost_effect)
  have "\<exists>t. (udp_net_step (''10.0.0.1'', 7))\<^sup>*\<^sup>* sample_net t \<and>
      us_delivered (un_server t) = us_delivered (un_server sample_net) @ [[1, 2]] \<and>
      un_wire t = un_wire sample_net \<and> all_sent t = all_sent sample_net + {#((''10.0.0.1'', 7), [1, 2])#}"
    by (rule datagram_crosses[OF sample_net_runs, where i = 0]) (simp_all add: s sample_client_facts)
  then show ?thesis using s(4,5) by auto
qed

end
