(* ===== verification/Forward_Simulation.thy ===== *)
theory Forward_Simulation
  imports Main
begin

text \<open>
  The contract of a refinement between two step relations: every step of the detailed
  machine, from a state with its invariant, is answered by steps of the abstract one (none,
  one or several) that keep the states related. The component theories interpret the locale
  on their own machines.
\<close>

locale simulation =
  fixes cstep :: "'c \<Rightarrow> 'c \<Rightarrow> bool"
    and astep :: "'a \<Rightarrow> 'a \<Rightarrow> bool"
    and cinv :: "'c \<Rightarrow> bool"
    and ainv :: "'a \<Rightarrow> bool"
    and related :: "'c \<Rightarrow> 'a \<Rightarrow> bool"
  assumes cinv_step: "cinv s \<Longrightarrow> cstep s t \<Longrightarrow> cinv t"
    and ainv_step: "ainv a \<Longrightarrow> astep a b \<Longrightarrow> ainv b"
    and simulates: "cinv s \<Longrightarrow> ainv a \<Longrightarrow> related s a \<Longrightarrow> cstep s t \<Longrightarrow>
      \<exists>b. astep\<^sup>*\<^sup>* a b \<and> related t b"
begin

lemma cinv_runs: "cstep\<^sup>*\<^sup>* s t \<Longrightarrow> cinv s \<Longrightarrow> cinv t"
  by (induction rule: rtranclp_induct) (auto intro: cinv_step)

lemma ainv_runs: "astep\<^sup>*\<^sup>* a b \<Longrightarrow> ainv a \<Longrightarrow> ainv b"
  by (induction rule: rtranclp_induct) (auto intro: ainv_step)

lemma simulates_runs:
  assumes "cstep\<^sup>*\<^sup>* s t" and "cinv s" and "ainv a" and "related s a"
  shows "\<exists>b. astep\<^sup>*\<^sup>* a b \<and> related t b"
  using assms(1)
proof (induction rule: rtranclp_induct)
  case base
  show ?case using assms(4) by blast
next
  case (step t u)
  then obtain b where b: "astep\<^sup>*\<^sup>* a b" "related t b" by blast
  obtain c where "astep\<^sup>*\<^sup>* b c" "related u c"
    using simulates[OF cinv_runs[OF step.hyps(1) assms(2)] ainv_runs[OF b(1) assms(3)] b(2) step.hyps(2)]
    by blast
  then show ?case using b(1) by (meson rtranclp_trans)
qed

text \<open>An abstract property that holds wherever the abstract machine gets to, read off the detailed one.\<close>

lemma transfer:
  assumes "cstep\<^sup>*\<^sup>* s t" and "cinv s" and "ainv a" and "related s a"
    and "\<And>b. astep\<^sup>*\<^sup>* a b \<Longrightarrow> related t b \<Longrightarrow> P t"
  shows "P t"
  using simulates_runs[OF assms(1-4)] assms(5) by blast

end

end
