(* ===== verification/Http_Server_Life.thy ===== *)
theory Http_Server_Life
  imports Http_Server Forward_Simulation
begin

text \<open>
  The HTTP server as its users see it (\<^verbatim>\<open>src/HTTP/server.hpp\<close>): its public operations as
  a type of calls, interleaved with the completions its loop dispatches; the phases
  it goes through; and the independence of its sessions from each other.
\<close>

subsection \<open>Calls and completions\<close>

datatype http_server_call =
    Set_handler MethodType string target_processor
  | Start u16
  | Stop
  | Is_running

text \<open>
  \<open>start\<close> returns only when its loop has ended; the calls after it in a history come from other threads or from
  processors. The answer is what \<open>isRunning\<close> says.
\<close>

fun do_http_server_call :: "server_env \<Rightarrow> http_server_call \<Rightarrow> http_server \<Rightarrow> (bool option \<times> http_server) beh" where
  "do_http_server_call env (Set_handler m t f) s = Returns (None, set_method_handler m t f s)"
| "do_http_server_call env (Start p) s = bind_beh (start_server env p s) (\<lambda>t. Returns (None, t))"
| "do_http_server_call env Stop s = bind_beh (stop_server s) (\<lambda>t. Returns (None, t))"
| "do_http_server_call env Is_running s = Returns (Some (isRunning s), s)"

inductive http_server_step :: "http_server \<Rightarrow> http_server \<Rightarrow> bool" where
  call: "do_http_server_call env x s = Returns (a, t) \<Longrightarrow> http_server_step s t"
| event: "http_server_step s (run_events env [e] s)"

subsection \<open>Phases\<close>

text \<open>The server has no acceptor; its loop runs; or its loop has ended by an exception and the acceptor is left.\<close>

datatype phase = Off | Serving u16 | Ended u16

fun port_of :: "phase \<Rightarrow> u16 set" where
  "port_of Off = {}" | "port_of (Serving p) = {p}" | "port_of (Ended p) = {p}"

record http_life =
  hl_phase :: phase
  hl_handlers :: "string \<times> MethodType \<Rightarrow> target_processor option"

inductive life_step :: "http_life \<Rightarrow> http_life \<Rightarrow> bool" where
  registers: "life_step l (l\<lparr>hl_handlers := (hl_handlers l)((t, m) := Some f)\<rparr>)"
| starts: "\<forall>q. hl_phase l \<noteq> Serving q \<Longrightarrow> life_step l (l\<lparr>hl_phase := Serving p\<rparr>)"
| fails: "hl_phase l = Serving p \<Longrightarrow> life_step l (l\<lparr>hl_phase := Ended p\<rparr>)"
| stops: "hl_phase l = Ended p \<Longrightarrow> life_step l (l\<lparr>hl_phase := Off\<rparr>)"

definition life_of :: "http_server \<Rightarrow> http_life" where
  "life_of s = \<lparr>hl_phase = (case hs_d s of None \<Rightarrow> Off
       | Some d \<Rightarrow> if hs_running s then Serving (im_port d) else Ended (im_port d)),
     hl_handlers = lookup_handler s\<rparr>"

definition server_inv :: "http_server \<Rightarrow> bool" where
  "server_inv s \<longleftrightarrow> (case hs_d s of None \<Rightarrow> \<not> hs_running s | Some d \<Rightarrow> \<not> im_stopped d)"

lemma new_Impl_fields: "new_Impl env p s = Inr d \<Longrightarrow> im_port d = p \<and> \<not> im_stopped d \<and> im_sessions d = []"
  by (auto simp: new_Impl_def split: option.splits if_splits)

lemma on_http_event_fields:
  "im_port (snd (on_http_event env name ps e d)) = im_port d \<and> im_stopped (snd (on_http_event env name ps e d)) = im_stopped d"
  by (cases "(env, name, ps, e, d)" rule: on_http_event.cases)
    (auto simp: on_accept_def on_session_def split: prod.split)

lemma isRunning_iff: "server_inv s \<Longrightarrow> isRunning s \<longleftrightarrow> hl_phase (life_of s) \<noteq> Off"
  by (auto simp: server_inv_def isRunning_def life_of_def split: option.splits)

lemma set_method_handler_fields:
  "hs_d (set_method_handler m t f s) = hs_d s" "hs_running (set_method_handler m t f s) = hs_running s"
  "lookup_handler (set_method_handler m t f s) = (lookup_handler s)((t, m) := Some f)"
proof -
  show "hs_d (set_method_handler m t f s) = hs_d s" "hs_running (set_method_handler m t f s) = hs_running s"
    by (cases m; simp add: setGetHandler_def setPostHandler_def setPutHandler_def setDeleteHandler_def)+
  show "lookup_handler (set_method_handler m t f s) = (lookup_handler s)((t, m) := Some f)"
    using http_handlers.look_reg[of s "(t, m)" f] by (auto simp: register_def fun_eq_iff)
qed

lemma one_event:
  assumes "server_inv s"
  shows "server_inv (run_events env [e] s) \<and> lookup_handler (run_events env [e] s) = lookup_handler s \<and>
    (life_of (run_events env [e] s) = life_of s \<or>
     (\<exists>p. hl_phase (life_of s) = Serving p \<and> life_of (run_events env [e] s) = (life_of s)\<lparr>hl_phase := Ended p\<rparr>))"
proof (cases "\<exists>d. hs_d s = Some d \<and> hs_running s")
  case False
  then have "run_events env [e] s = s" by (auto split: option.split)
  then show ?thesis using assms by simp
next
  case True
  then obtain d where d: "hs_d s = Some d" "hs_running s" by blast
  obtain r d' where r: "on_http_event env (hs_serverName s) (hs_processors s) e d = (r, d')" by fastforce
  have f: "im_port d' = im_port d" "im_stopped d' = im_stopped d"
    using on_http_event_fields[of env "hs_serverName s" "hs_processors s" e d] r by simp_all
  show ?thesis using d r f assms
    by (cases r) (auto simp: server_inv_def life_of_def lookup_handler_def fun_eq_iff)
qed

lemma http_server_step_life:
  assumes "server_inv s" and "http_server_step s t"
  shows "server_inv t \<and> (\<exists>l. life_step\<^sup>*\<^sup>* (life_of s) l \<and> life_of t = l)"
  using assms(2)
proof cases
  case (event env e)
  have e: "server_inv t" "life_of t = life_of s \<or>
      (\<exists>p. hl_phase (life_of s) = Serving p \<and> life_of t = (life_of s)\<lparr>hl_phase := Ended p\<rparr>)"
    using one_event[OF assms(1), of env e] event by simp_all
  then show ?thesis using life_step.fails[of "life_of s"] by (auto intro: r_into_rtranclp)
next
  case (call env x a)
  show ?thesis
  proof (cases x)
    case (Set_handler m u f)
    then have t: "t = set_method_handler m u f s" using call by simp
    then have "life_of t = (life_of s)\<lparr>hl_handlers := (hl_handlers (life_of s))((u, m) := Some f)\<rparr>"
      by (cases "hs_d s") (simp_all add: life_of_def set_method_handler_fields)
    moreover have "server_inv t"
      using assms(1) t by (cases "hs_d s") (simp_all add: server_inv_def set_method_handler_fields)
    ultimately show ?thesis using life_step.registers[of "life_of s" u m f] by auto
  next
    case (Start p)
    then obtain d where d: "new_Impl env p s = Inr d" "\<not> hs_running s" "t = s\<lparr>hs_d := Some d, hs_running := True\<rparr>"
      using call by (auto simp: start_server_def split: sum.splits if_splits)
    then have l: "life_of t = (life_of s)\<lparr>hl_phase := Serving p\<rparr>" "server_inv t"
      using new_Impl_fields[OF d(1)] by (auto simp: life_of_def server_inv_def lookup_handler_def fun_eq_iff)
    have "\<forall>q. hl_phase (life_of s) \<noteq> Serving q" using d(2) by (simp add: life_of_def split: option.split)
    then show ?thesis using life_step.starts[of "life_of s" p] l by auto
  next
    case Stop
    then have st: "stop_server s = Returns t" using call by simp
    show ?thesis
    proof (cases "hs_d s")
      case None
      then show ?thesis using st assms(1) by (auto simp: stop_server_def isRunning_def)
    next
      case (Some d)
      then have t: "\<not> hs_running s" "t = s\<lparr>hs_d := None\<rparr>"
        using st assms(1) by (auto simp: stop_server_def isRunning_def server_inv_def split: if_splits)
      then have "life_of t = (life_of s)\<lparr>hl_phase := Off\<rparr>" "hl_phase (life_of s) = Ended (im_port d)"
        using Some by (auto simp: life_of_def lookup_handler_def fun_eq_iff)
      then show ?thesis using life_step.stops[of "life_of s" "im_port d"] t by (auto simp: server_inv_def)
    qed
  qed (use call assms(1) in auto)
qed

interpretation http: simulation http_server_step life_step server_inv "\<lambda>l. True" "\<lambda>s l. life_of s = l"
  by unfold_locales (use http_server_step_life in blast)+

subsection \<open>Sessions\<close>

definition session_of :: "nat \<Rightarrow> http_server \<Rightarrow> http_session option" where
  "session_of i s = (case hs_d s of None \<Rightarrow> None
     | Some d \<Rightarrow> if i < length (im_sessions d) then Some (im_sessions d ! i) else None)"

fun concerns :: "nat \<Rightarrow> http_event \<Rightarrow> bool" where
  "concerns i (Accepted now ec) = False"
| "concerns i (ReadDone j v ec req) = (j = i)"
| "concerns i (TimerDone j ec) = (j = i)"

text \<open>What a completion of its own does to a session.\<close>

fun session_event :: "server_env \<Rightarrow> processors \<Rightarrow> http_event \<Rightarrow> http_session \<Rightarrow> http_session" where
  "session_event env ps (ReadDone j v ec req) s = snd (readHandler (ve_session env) (session_processors ps) v ec req s)"
| "session_event env ps (TimerDone j ec) s = snd (on_deadline (ve_session env) ec s)"
| "session_event env ps (Accepted now ec) s = s"

lemma event_on_session:
  assumes "i < length (im_sessions d)"
  shows "i < length (im_sessions (snd (on_http_event env name ps e d))) \<and>
    im_sessions (snd (on_http_event env name ps e d)) ! i =
      (if concerns i e then session_event env ps e (im_sessions d ! i) else im_sessions d ! i)"
  using assms
  by (cases "(env, name, ps, e, d)" rule: on_http_event.cases)
    (auto simp: on_accept_def on_session_def nth_append nth_list_update split: prod.split)

lemma session_after_events:
  assumes "session_of i s = Some x" and "hs_running (run_events env es s)"
  shows "session_of i (run_events env es s) =
    Some (fold (session_event env (hs_processors s)) (filter (concerns i) es) x)"
  using assms
proof (induction es arbitrary: s x)
  case (Cons e es)
  obtain d where d: "hs_d s = Some d" "i < length (im_sessions d)" "x = im_sessions d ! i"
    using Cons.prems(1) by (auto simp: session_of_def split: option.splits if_splits)
  have run: "hs_running s" using Cons.prems(2) d(1) by (simp split: if_splits)
  obtain r d' where r: "on_http_event env (hs_serverName s) (hs_processors s) e d = (r, d')" by fastforce
  obtain u where u: "r = Inr u" using Cons.prems(2) d(1) run r by (cases r) simp_all
  let ?t = "s\<lparr>hs_d := Some d'\<rparr>"
  have t: "run_events env (e # es) s = run_events env es ?t" using d(1) run r u by simp
  have "session_of i ?t = Some (if concerns i e then session_event env (hs_processors s) e x else x)"
    using event_on_session[OF d(2), of env "hs_serverName s" "hs_processors s" e] r d(3) by (simp add: session_of_def)
  moreover have "hs_running (run_events env es ?t)" using Cons.prems(2) unfolding t .
  ultimately show ?case unfolding t
    using Cons.IH[of ?t "if concerns i e then session_event env (hs_processors s) e x else x"] by simp
qed simp

subsection \<open>Properties\<close>

text \<open>
  C11. The phases of a server. However calls and completions are interleaved, as long as nothing is
  undefined, the server goes through the phases of the abstract machine and its handlers are
  those registered last. \<open>isRunning\<close> is true also when the loop has ended by an exception
  and nothing is dispatched any more; and \<open>stop\<close> is undefined exactly while the loop runs.
\<close>

theorem http_server_refines_life:
  assumes "http_server_step\<^sup>*\<^sup>* (new_http_server name cert key) s"
  shows "life_step\<^sup>*\<^sup>* \<lparr>hl_phase = Off, hl_handlers = \<lambda>_. None\<rparr> (life_of s) \<and>
    (isRunning s \<longleftrightarrow> hl_phase (life_of s) \<noteq> Off) \<and>
    (stop_server s = UB \<longleftrightarrow> (\<exists>p. hl_phase (life_of s) = Serving p)) \<and>
    ((\<forall>p. hl_phase (life_of s) \<noteq> Serving p) \<longrightarrow> run_events env es s = s)"
proof -
  let ?s0 = "new_http_server name cert key"
  have i: "server_inv ?s0" and l: "life_of ?s0 = \<lparr>hl_phase = Off, hl_handlers = \<lambda>_. None\<rparr>"
    by (simp_all add: server_inv_def new_http_server_def life_of_def lookup_handler_def find_handler_def fun_eq_iff)
  have inv: "server_inv s" by (rule http.cinv_runs[OF assms i])
  have "life_step\<^sup>*\<^sup>* \<lparr>hl_phase = Off, hl_handlers = \<lambda>_. None\<rparr> (life_of s)"
    using http.simulates_runs[OF assms i TrueI l] by blast
  moreover have "stop_server s = UB \<longleftrightarrow> (\<exists>p. hl_phase (life_of s) = Serving p)"
    using inv by (auto simp: stop_server_def isRunning_def server_inv_def life_of_def split: option.splits)
  moreover have "run_events env es s = s" if "\<forall>p. hl_phase (life_of s) \<noteq> Serving p"
    using that by (cases es) (auto simp: life_of_def split: option.splits if_splits)
  ultimately show ?thesis using isRunning_iff[OF inv] by blast
qed

lemma http_server_refines_life_witness:
  "\<exists>s. http_server_step (new_http_server ''srv'' [] []) s \<and> isRunning s \<and> stop_server s = UB"
proof -
  let ?s0 = "new_http_server ''srv'' [] []"
  obtain s where s: "start_server sample_server_env 80 ?s0 = Returns s" "hl_phase (life_of s) = Serving 80"
    by (simp add: start_server_def new_Impl_def sample_server_env_def listening_def new_http_server_def life_of_def)
  have step: "http_server_step ?s0 s" using s(1) by (intro http_server_step.call[of sample_server_env "Start 80"]) simp
  have "isRunning s \<longleftrightarrow> hl_phase (life_of s) \<noteq> Off" "stop_server s = UB \<longleftrightarrow> (\<exists>p. hl_phase (life_of s) = Serving p)"
    using http_server_refines_life[OF r_into_rtranclp[where r = http_server_step, OF step]] by blast+
  then show ?thesis using step s(2) by auto
qed



end
