(* ===== verification/Ws_Client.thy ===== *)
theory Ws_Client
  imports Net_Prelude
begin

text \<open>
  The WebSocket client (\<^verbatim>\<open>src/WebSockets/client.cpp\<close>): connecting, the handlers of the
  connection's events, disconnecting, and pings with their table of pending promises.
  The endpoint of websocketpp is the argument \<open>env\<close>; the frames handed to it are recorded
  in \<open>wc_ops\<close>. Connections are numbered in the order they are made.
\<close>

subsection \<open>Reasons and close codes\<close>

datatype DisconnectReason = Normal | ServerClosed | ConnectionLost | ProtocolError

definition status_normal :: u16 where "status_normal = 1000"
definition status_going_away :: u16 where "status_going_away = 1001"
definition status_protocol_error :: u16 where "status_protocol_error = 1002"
definition status_abnormal_close :: u16 where "status_abnormal_close = 1006"

lemmas status_defs [net_defs] =
  status_normal_def status_going_away_def status_protocol_error_def status_abnormal_close_def

fun close_code :: "DisconnectReason \<Rightarrow> u16" where
  "close_code Normal = status_normal"
| "close_code ServerClosed = status_going_away"
| "close_code ProtocolError = status_protocol_error"
| "close_code ConnectionLost = status_abnormal_close"

definition close_reason :: "u16 \<Rightarrow> DisconnectReason" where
  "close_reason code =
     (if code = status_normal then Normal
      else if code = status_going_away then ServerClosed
      else if code = status_protocol_error then ProtocolError
      else ConnectionLost)"

subsection \<open>State\<close>

text \<open>
  A promise is pending, has its value, or was destroyed without one.
\<close>

datatype promise = Pending | Value int | Broken

datatype ws_client_op = C_send nat string | C_close nat u16 string | C_ping nat string

text \<open>
  \<open>wc_pendingPings\<close> maps a ping id to the number of its promise; \<open>wc_promises\<close> holds the
  states of all the promises made. \<open>wc_thread\<close>: the thread object exists; \<open>wc_loop\<close>: that thread is
  inside \<^verbatim>\<open>client.run()\<close>. \<open>wc_live\<close>: the connections the loop still has work for.
  \<open>wc_log\<close>: the reasons logged by the close handler.
\<close>

record ws_client =
  wc_thread :: bool
  wc_loop :: bool
  wc_live :: "nat set"
  wc_made :: nat
  wc_connection :: "nat option"
  wc_connected :: bool
  wc_pendingPings :: "u64 \<rightharpoonup> nat"
  wc_promises :: "promise list"
  wc_nextPingId :: u64
  wc_ops :: "ws_client_op list"
  wc_log :: "DisconnectReason list"

record ws_client_env =
  wcv_get_connection :: "string \<Rightarrow> exn option"
  wcv_send :: "nat \<Rightarrow> string \<Rightarrow> exn option"
  wcv_close :: "nat \<Rightarrow> u16 \<Rightarrow> exn option"
  wcv_ping :: "nat option \<Rightarrow> string \<Rightarrow> exn option"
  wcv_json :: string

definition new_ws_client :: ws_client where
  "new_ws_client = \<lparr>wc_thread = False, wc_loop = False, wc_live = {}, wc_made = 0,
     wc_connection = None, wc_connected = False, wc_pendingPings = Map.empty, wc_promises = [],
     wc_nextPingId = 0, wc_ops = [], wc_log = []\<rparr>"

definition wc_op :: "ws_client_op \<Rightarrow> ws_client \<Rightarrow> ws_client" where
  "wc_op x c = c\<lparr>wc_ops := wc_ops c @ [x]\<rparr>"

subsection \<open>Connecting and the handlers\<close>

definition ws_uri :: "string \<Rightarrow> u16 \<Rightarrow> string" where
  "ws_uri host port = ''ws://'' @ host @ '':'' @ to_dec (unat port)"

definition connect :: "ws_client_env \<Rightarrow> string \<Rightarrow> u16 \<Rightarrow> ws_client \<Rightarrow> ws_client" where
  "connect env host port c =
     (case wcv_get_connection env (ws_uri host port) of
        Some e \<Rightarrow> c
      | None \<Rightarrow>
          let c1 = c\<lparr>wc_live := insert (wc_made c) (wc_live c), wc_made := Suc (wc_made c)\<rparr>
          in if \<not> wc_thread c1 then c1\<lparr>wc_thread := True, wc_loop := True\<rparr> else c1)"

text \<open>The open handler sends two messages; the first that cannot be sent ends it.\<close>

definition on_open :: "ws_client_env \<Rightarrow> nat \<Rightarrow> ws_client \<Rightarrow> ws_client" where
  "on_open env hdl c =
     (let c1 = c\<lparr>wc_connection := Some hdl, wc_connected := True\<rparr> in
      if wcv_send env hdl ''hello'' \<noteq> None then c1
      else let c2 = wc_op (C_send hdl ''hello'') c1 in
        if wcv_send env hdl (wcv_json env) \<noteq> None then c2
        else wc_op (C_send hdl (wcv_json env)) c2)"

text \<open>A message is only logged, whatever its kind: no receive callback exists.\<close>

definition on_message :: "bool \<Rightarrow> string \<Rightarrow> ws_client \<Rightarrow> ws_client" where
  "on_message text payload c = c"

definition on_close :: "nat \<Rightarrow> u16 \<Rightarrow> ws_client \<Rightarrow> ws_client" where
  "on_close hdl code c =
     c\<lparr>wc_connected := False, wc_log := wc_log c @ [close_reason code], wc_live := wc_live c - {hdl}\<rparr>"

definition on_fail :: "nat \<Rightarrow> ws_client \<Rightarrow> ws_client" where
  "on_fail hdl c = c\<lparr>wc_connected := False, wc_live := wc_live c - {hdl}\<rparr>"

definition isConnected :: "ws_client \<Rightarrow> bool" where
  "isConnected c = wc_connected c"

definition disconnect :: "ws_client_env \<Rightarrow> DisconnectReason \<Rightarrow> ws_client \<Rightarrow> ws_client" where
  "disconnect env reason c =
     (if \<not> wc_connected c then c
      else (case wc_connection c of
              None \<Rightarrow> c\<lparr>wc_connected := False\<rparr>
            | Some hdl \<Rightarrow>
                let code = close_code reason in
                if wcv_close env hdl code \<noteq> None then c\<lparr>wc_connected := False\<rparr>
                else (wc_op (C_close hdl code ''Disconnect by user'') c)\<lparr>wc_connected := False\<rparr>))"

text \<open>\<open>~Impl\<close>: the loop is stopped and joined.\<close>

definition destroy_ws_client :: "ws_client_env \<Rightarrow> ws_client \<Rightarrow> ws_client" where
  "destroy_ws_client env c =
     (let c1 = disconnect env Normal c in if wc_thread c1 then c1\<lparr>wc_loop := False\<rparr> else c1)"

text \<open>
  The sending functions are declared to return a \<^verbatim>\<open>bool\<close> and have empty bodies: flowing
  off their end is undefined. The setters of callbacks have empty bodies.
\<close>

definition sendText :: "string \<Rightarrow> ws_client \<Rightarrow> (bool \<times> ws_client) beh" where
  "sendText data c = UB"

definition sendJson :: "string \<Rightarrow> ws_client \<Rightarrow> (bool \<times> ws_client) beh" where
  "sendJson data c = UB"

definition sendBinary :: "u8 list \<Rightarrow> ws_client \<Rightarrow> (bool \<times> ws_client) beh" where
  "sendBinary data c = UB"

definition setReceiveCallback :: "(string \<Rightarrow> unit) \<Rightarrow> ws_client \<Rightarrow> ws_client" where
  "setReceiveCallback cbk c = c"

definition setReceiveByteCallback :: "(u8 list \<Rightarrow> unit) \<Rightarrow> ws_client \<Rightarrow> ws_client" where
  "setReceiveByteCallback cbk c = c"

subsection \<open>Pings\<close>

text \<open>
  Settling a promise that is no longer pending throws; \<open>set_value\<close> is \<open>None\<close> then.
\<close>

definition set_value :: "nat \<Rightarrow> int \<Rightarrow> ws_client \<Rightarrow> ws_client option" where
  "set_value p v c =
     (if p < length (wc_promises c) \<and> wc_promises c ! p = Pending
      then Some (c\<lparr>wc_promises := (wc_promises c)[p := Value v]\<rparr>) else None)"

text \<open>Find the id, settle its promise, erase the entry.\<close>

definition settle :: "u64 \<Rightarrow> int \<Rightarrow> ws_client \<Rightarrow> ws_client option" where
  "settle pid v c =
     (case wc_pendingPings c pid of
        None \<Rightarrow> Some c
      | Some p \<Rightarrow> map_option (\<lambda>c'. c'\<lparr>wc_pendingPings := (wc_pendingPings c')(pid := None)\<rparr>) (set_value p v c))"

definition on_ping_timer :: "bool \<Rightarrow> u64 \<Rightarrow> ws_client \<Rightarrow> ws_client option" where
  "on_ping_timer ec pid c = (if ec then Some c else settle pid (- 1) c)"

text \<open>The id is copied from the first eight bytes, in the byte order of the machine (little endian here).\<close>

definition memcpy_id :: "string \<Rightarrow> u64" where
  "memcpy_id payload = word_of_nat (foldr (\<lambda>c a. of_char c + 256 * a) (take 8 payload) 0)"

definition on_pong :: "string \<Rightarrow> ws_client \<Rightarrow> ws_client option" where
  "on_pong payload c =
     (if 8 \<le> length payload then settle (memcpy_id payload) 1 c else Some c)"

text \<open>Entering a new promise under the next id; an entry that is still there is replaced and its promise broken.\<close>

definition register_ping :: "ws_client \<Rightarrow> u64 \<times> ws_client" where
  "register_ping c =
     (let pid = wc_nextPingId c;
          old = (case wc_pendingPings c pid of None \<Rightarrow> wc_promises c
                 | Some p \<Rightarrow> (wc_promises c)[p := Broken])
      in (pid, c\<lparr>wc_nextPingId := pid + 1,
            wc_pendingPings := (wc_pendingPings c)(pid \<mapsto> length (wc_promises c)),
            wc_promises := old @ [Pending]\<rparr>))"

text \<open>
  \<^verbatim>\<open>std::copy_n\<close> of \<open>n\<close> elements into an array of \<open>cells\<close> elements: undefined when one of
  the two ranges is too short.
\<close>

definition copy_n :: "'a list \<Rightarrow> nat \<Rightarrow> nat \<Rightarrow> 'a list option" where
  "copy_n src n cells = (if n \<le> length src \<and> n \<le> cells then Some (take n src) else None)"

definition send_ping :: "ws_client_env \<Rightarrow> u64 \<Rightarrow> string \<Rightarrow> ws_client \<Rightarrow> ws_client option" where
  "send_ping env pid payload c =
     (case wcv_ping env (wc_connection c) payload of
        None \<Rightarrow> Some (wc_op (C_ping (case wc_connection c of None \<Rightarrow> 0 | Some h \<Rightarrow> h) payload) c)
      | Some e \<Rightarrow> settle pid (- 1) c)"

text \<open>
  \<open>ping\<close> copies eight elements from the payload into the single object \<open>id\<close>. The result
  is the number of the promise whose future is returned.
\<close>

definition ping :: "ws_client_env \<Rightarrow> nat \<Rightarrow> ws_client \<Rightarrow> (nat \<times> ws_client) beh" where
  "ping env bytes c =
     (let p = length (wc_promises c) in
      if \<not> isConnected c then Returns (p, c\<lparr>wc_promises := wc_promises c @ [Value (- 1)]\<rparr>)
      else if bytes \<ge> 8 then Throws (InvalidArgument ''Invalid ping bytes count (must be >=8)'')
      else
        let (pid, c1) = register_ping c;
            payload = replicate bytes nul
        in case copy_n (payload @ [nul]) 8 1 of
             None \<Rightarrow> UB
           | Some w \<Rightarrow> (case send_ping env (last (map (word_of_nat \<circ> of_char) w)) payload c1 of
                 None \<Rightarrow> Throws (StdException ''promise_already_satisfied'') | Some c2 \<Rightarrow> Returns (p, c2)))"

subsection \<open>Events\<close>

text \<open>
  Steps of the client: the operations as far as they are defined, and while the loop runs
  the events of live connections, pongs and timers. \<^verbatim>\<open>run()\<close> returns when the loop has no work left.
\<close>

inductive ws_client_step :: "ws_client \<Rightarrow> ws_client \<Rightarrow> bool" where
  connects: "ws_client_step c (connect env host port c)"
| disconnects: "ws_client_step c (disconnect env r c)"
| opened: "wc_loop c \<Longrightarrow> hdl \<in> wc_live c \<Longrightarrow> ws_client_step c (on_open env hdl c)"
| closed: "wc_loop c \<Longrightarrow> hdl \<in> wc_live c \<Longrightarrow> ws_client_step c (on_close hdl code c)"
| failed: "wc_loop c \<Longrightarrow> hdl \<in> wc_live c \<Longrightarrow> ws_client_step c (on_fail hdl c)"
| pinged: "ping env bytes c = Returns (p, d) \<Longrightarrow> ws_client_step c d"
| pong: "wc_loop c \<Longrightarrow> on_pong payload c = Some d \<Longrightarrow> ws_client_step c d"
| timer: "wc_loop c \<Longrightarrow> on_ping_timer ec pid c = Some d \<Longrightarrow> ws_client_step c d"
| loop_ends: "wc_loop c \<Longrightarrow> wc_live c = {} \<Longrightarrow> ws_client_step c (c\<lparr>wc_loop := False\<rparr>)"

inductive ws_client_runs :: "ws_client \<Rightarrow> ws_client \<Rightarrow> bool" where
  refl: "ws_client_runs c c"
| step: "ws_client_runs c d \<Longrightarrow> ws_client_step d e \<Longrightarrow> ws_client_runs c e"

text \<open>The operations on the table of pings.\<close>

datatype ping_event = Ping_started | Ping_unsent u64 | Pong_got string | Ping_timer bool u64

fun ping_event_step :: "ping_event \<Rightarrow> ws_client \<Rightarrow> ws_client option" where
  "ping_event_step Ping_started c = Some (snd (register_ping c))"
| "ping_event_step (Ping_unsent pid) c = settle pid (- 1) c"
| "ping_event_step (Pong_got payload) c = on_pong payload c"
| "ping_event_step (Ping_timer ec pid) c = on_ping_timer ec pid c"

fun ping_events :: "ping_event list \<Rightarrow> ws_client \<Rightarrow> ws_client option" where
  "ping_events [] c = Some c"
| "ping_events (e # es) c = (case ping_event_step e c of None \<Rightarrow> None | Some c' \<Rightarrow> ping_events es c')"

subsection \<open>Invariants\<close>

definition ws_client_inv :: "ws_client \<Rightarrow> bool" where
  "ws_client_inv c \<longleftrightarrow> (wc_connected c \<longrightarrow> (\<exists>h \<in> wc_live c. wc_connection c = Some h)) \<and>
     (wc_loop c \<longrightarrow> wc_thread c) \<and> (\<forall>h \<in> wc_live c. h < wc_made c)"

lemma on_open_effect [simp]:
  "wc_connected (on_open env h c)" "wc_connection (on_open env h c) = Some h"
  "wc_live (on_open env h c) = wc_live c" "wc_loop (on_open env h c) = wc_loop c"
  "wc_thread (on_open env h c) = wc_thread c" "wc_made (on_open env h c) = wc_made c"
  by (simp_all add: on_open_def wc_op_def Let_def)

lemma disconnect_effect [simp]:
  "wc_connected (disconnect env r c) = False" "wc_connection (disconnect env r c) = wc_connection c"
  "wc_live (disconnect env r c) = wc_live c" "wc_loop (disconnect env r c) = wc_loop c"
  "wc_thread (disconnect env r c) = wc_thread c" "wc_made (disconnect env r c) = wc_made c"
  by (simp_all add: disconnect_def wc_op_def Let_def split: option.split)

text \<open>What pings leave alone.\<close>

definition same_connection :: "ws_client \<Rightarrow> ws_client \<Rightarrow> bool" where
  "same_connection c d \<longleftrightarrow> wc_thread d = wc_thread c \<and> wc_loop d = wc_loop c \<and> wc_live d = wc_live c \<and>
     wc_made d = wc_made c \<and> wc_connection d = wc_connection c \<and> wc_connected d = wc_connected c \<and>
     wc_ops d = wc_ops c"

lemma settle_same: "settle pid v c = Some d \<Longrightarrow> same_connection c d"
  by (auto simp: settle_def set_value_def same_connection_def split: option.splits if_splits)

lemma ping_returns:
  "ping env bytes c = Returns (p, d) \<Longrightarrow> \<not> isConnected c \<and> d = c\<lparr>wc_promises := wc_promises c @ [Value (- 1)]\<rparr>"
  by (auto simp: ping_def copy_n_def Let_def split: if_splits prod.splits)

lemma pong_timer_same:
  "on_pong payload c = Some d \<Longrightarrow> same_connection c d"
  "on_ping_timer ec pid c = Some d \<Longrightarrow> same_connection c d"
  by (auto simp: on_pong_def on_ping_timer_def settle_same split: if_splits)
    (simp_all add: same_connection_def)

lemma ws_client_step_inv: "ws_client_step c d \<Longrightarrow> ws_client_inv c \<Longrightarrow> ws_client_inv d"
proof (induction rule: ws_client_step.induct)
  case (connects c env host port)
  then show ?case
    by (cases "wcv_get_connection env (ws_uri host port)")
      (auto simp: ws_client_inv_def connect_def Let_def less_Suc_eq)
next
  case (pinged env bytes c p d)
  then show ?case using ping_returns[OF pinged(1)] by (simp add: ws_client_inv_def)
next
  case (pong c payload d)
  then show ?case using pong_timer_same(1)[OF pong(2)] by (simp add: ws_client_inv_def same_connection_def)
next
  case (timer c ec pid d)
  then show ?case using pong_timer_same(2)[OF timer(2)] by (simp add: ws_client_inv_def same_connection_def)
qed (auto simp: ws_client_inv_def on_close_def on_fail_def)

lemma ws_client_runs_inv: "ws_client_runs c d \<Longrightarrow> ws_client_inv c \<Longrightarrow> ws_client_inv d"
  by (induction rule: ws_client_runs.induct) (auto simp: ws_client_step_inv)

lemma ws_client_reachable_inv: "ws_client_runs new_ws_client c \<Longrightarrow> ws_client_inv c"
  by (erule ws_client_runs_inv) (simp add: ws_client_inv_def new_ws_client_def)

definition ws_client_over :: "ws_client \<Rightarrow> bool" where
  "ws_client_over c \<longleftrightarrow> wc_thread c \<and> \<not> wc_loop c \<and> \<not> wc_connected c"

lemma ws_client_over_step: "ws_client_step c d \<Longrightarrow> ws_client_over c \<Longrightarrow> ws_client_over d"
proof (induction rule: ws_client_step.induct)
  case (connects c env host port)
  then show ?case
    by (cases "wcv_get_connection env (ws_uri host port)")
      (auto simp: ws_client_over_def connect_def Let_def)
next
  case (pinged env bytes c p d)
  then show ?case using ping_returns[OF pinged(1)] by (simp add: ws_client_over_def)
qed (auto simp: ws_client_over_def)

lemma ws_client_over_runs: "ws_client_runs c d \<Longrightarrow> ws_client_over c \<Longrightarrow> ws_client_over d"
  by (induction rule: ws_client_runs.induct) (auto simp: ws_client_over_step)

text \<open>The table of pings: the promise of id \<open>k\<close> is the \<open>k\<close>-th, and it is pending exactly while the entry is there.\<close>

definition ping_inv :: "ws_client \<Rightarrow> bool" where
  "ping_inv c \<longleftrightarrow> wc_nextPingId c = word_of_nat (length (wc_promises c)) \<and>
     (\<forall>i p. wc_pendingPings c i = Some p \<longrightarrow> p = unat i \<and> p < length (wc_promises c)) \<and>
     (\<forall>p < length (wc_promises c). (wc_promises c ! p = Pending \<longleftrightarrow> wc_pendingPings c (word_of_nat p) = Some p) \<and>
        wc_promises c ! p \<noteq> Broken)"

lemma ping_inv_next: "ping_inv c \<Longrightarrow> wc_nextPingId c = word_of_nat (length (wc_promises c))"
  and ping_inv_entry: "ping_inv c \<Longrightarrow> wc_pendingPings c i = Some p \<Longrightarrow> p = unat i \<and> p < length (wc_promises c)"
  and ping_inv_pending: "ping_inv c \<Longrightarrow> p < length (wc_promises c) \<Longrightarrow>
    (wc_promises c ! p = Pending \<longleftrightarrow> wc_pendingPings c (word_of_nat p) = Some p) \<and> wc_promises c ! p \<noteq> Broken"
  unfolding ping_inv_def by blast+

lemma settle_inv:
  assumes "ping_inv c" and "length (wc_promises c) < 2 ^ 64"
  shows "\<exists>d. settle i v c = Some d \<and> ping_inv d \<and> length (wc_promises d) = length (wc_promises c)"
proof (cases "wc_pendingPings c i")
  case None
  then show ?thesis using assms by (simp add: settle_def)
next
  case (Some p)
  then have pi: "p = unat i" "p < length (wc_promises c)" using ping_inv_entry[OF assms(1)] by blast+
  then have pw: "word_of_nat p = i" by simp
  then have p: "p = unat i" "p < length (wc_promises c)" "wc_promises c ! p = Pending"
    using pi pw Some ping_inv_pending[OF assms(1) pi(2)] by metis+
  let ?d = "c\<lparr>wc_promises := (wc_promises c)[p := Value v], wc_pendingPings := (wc_pendingPings c)(i := None)\<rparr>"
  have "settle i v c = Some ?d" using Some p(2,3) by (simp add: settle_def set_value_def)
  moreover have "ping_inv ?d"
    unfolding ping_inv_def
  proof (intro conjI allI impI)
    show "wc_nextPingId ?d = word_of_nat (length (wc_promises ?d))" using ping_inv_next[OF assms(1)] by simp
  next
    fix j q assume "wc_pendingPings ?d j = Some q"
    then have "wc_pendingPings c j = Some q" by (simp split: if_splits)
    then show "q = unat j" "q < length (wc_promises ?d)" using ping_inv_entry[OF assms(1)] by simp_all
  next
    fix q assume "q < length (wc_promises ?d)"
    then have q: "q < length (wc_promises c)" by simp
    have c: "(wc_promises c ! q = Pending) = (wc_pendingPings c (word_of_nat q) = Some q)"
      "wc_promises c ! q \<noteq> Broken"
      using ping_inv_pending[OF assms(1) q] by blast+
    have "q < 2 ^ 64" using q assms(2) by linarith
    then have "unat (word_of_nat q :: u64) = q" by (rule unat_of_nat_u64)
    then have "word_of_nat q = i \<longleftrightarrow> q = p" using pi(1) pw by metis
    then show "(wc_promises ?d ! q = Pending) = (wc_pendingPings ?d (word_of_nat q) = Some q)"
      "wc_promises ?d ! q \<noteq> Broken"
      using c q by (cases "q = p"; simp)+
  qed
  ultimately show ?thesis by simp
qed

lemma register_inv:
  assumes "ping_inv c" and "length (wc_promises c) < 2 ^ 64"
  shows "ping_inv (snd (register_ping c)) \<and>
    length (wc_promises (snd (register_ping c))) = Suc (length (wc_promises c))"
proof -
  let ?n = "length (wc_promises c)"
  let ?w = "word_of_nat ?n :: u64"
  let ?d = "c\<lparr>wc_nextPingId := ?w + 1, wc_pendingPings := (wc_pendingPings c)(?w \<mapsto> ?n),
    wc_promises := wc_promises c @ [Pending]\<rparr>"
  have n: "unat ?w = ?n" using assms(2) by (rule unat_of_nat_u64)
  have "wc_pendingPings c ?w = None"
    using ping_inv_entry[OF assms(1), of ?w] n by (cases "wc_pendingPings c ?w") auto
  then have e: "snd (register_ping c) = ?d"
    by (simp add: register_ping_def ping_inv_next[OF assms(1)] Let_def)
  have "ping_inv (snd (register_ping c))"
    unfolding ping_inv_def e
  proof (intro conjI allI impI)
    fix j q
    assume "wc_pendingPings ?d j = Some q"
    then have "j = ?w \<and> q = ?n \<or> wc_pendingPings c j = Some q" by (simp split: if_splits)
    then have "q = unat j \<and> q < Suc ?n" using n ping_inv_entry[OF assms(1), of j q] by auto
    then show "q = unat j" "q < length (wc_promises ?d)"
      by simp_all
  next
    fix q
    assume "q < length (wc_promises ?d)"
    then have q: "q < Suc ?n" by simp
    then have "unat (word_of_nat q :: u64) = q" using assms(2) by (intro unat_of_nat_u64) simp
    then have w: "(word_of_nat q :: u64) = ?w \<longleftrightarrow> q = ?n" using n by metis
    show "(wc_promises ?d ! q = Pending) =
      (wc_pendingPings ?d (word_of_nat q) = Some q)"
      "wc_promises ?d ! q \<noteq> Broken"
      using ping_inv_pending[OF assms(1), of q] q w by (cases "q = ?n"; simp add: nth_append)+
  qed simp
  then show ?thesis using e by simp
qed

lemma ping_events_inv:
  "ping_inv c \<Longrightarrow> length (wc_promises c) + length es < 2 ^ 64 \<Longrightarrow>
   \<exists>d. ping_events es c = Some d \<and> ping_inv d"
proof (induction es arbitrary: c)
  case (Cons e es)
  have l: "length (wc_promises c) < 2 ^ 64" using Cons.prems(2) by simp
  obtain c' where c': "ping_event_step e c = Some c'" "ping_inv c'"
    "length (wc_promises c') \<le> Suc (length (wc_promises c))"
  proof (cases e)
    case Ping_started
    then show thesis using that register_inv[OF Cons.prems(1) l] by simp
  next
    case (Ping_unsent x)
    then show thesis using that settle_inv[OF Cons.prems(1) l, of x "- 1"] by force
  next
    case (Pong_got x)
    then show thesis
      using that settle_inv[OF Cons.prems(1) l, of "memcpy_id x" 1] Cons.prems(1)
      by (cases "8 \<le> length x") (force simp: on_pong_def)+
  next
    case (Ping_timer ec x)
    then show thesis
      using that settle_inv[OF Cons.prems(1) l, of x "- 1"] Cons.prems(1)
      by (cases ec) (force simp: on_ping_timer_def)+
  qed
  then show ?case using Cons.IH[OF c'(2)] Cons.prems(2) by simp
qed simp

lemma ws_client_step_over:
  "ws_client_step c d \<Longrightarrow> ws_client_inv c \<Longrightarrow> (wc_thread c \<and> \<not> wc_loop c \<longrightarrow> ws_client_over c) \<Longrightarrow>
   wc_thread d \<and> \<not> wc_loop d \<longrightarrow> ws_client_over d"
proof (induction rule: ws_client_step.induct)
  case (connects c env host port)
  then show ?case
    by (cases "wcv_get_connection env (ws_uri host port)")
      (auto simp: ws_client_over_def connect_def Let_def)
next
  case (pinged env bytes c p d)
  then show ?case using ping_returns[OF pinged(1)] by (simp add: ws_client_over_def)
next
  case (pong c payload d)
  then show ?case using pong_timer_same(1)[OF pong(2)] by (simp add: same_connection_def)
next
  case (timer c ec pid d)
  then show ?case using pong_timer_same(2)[OF timer(2)] by (simp add: same_connection_def)
next
  case (loop_ends c)
  then show ?case by (auto simp: ws_client_over_def ws_client_inv_def)
qed (auto simp: ws_client_over_def on_close_def on_fail_def)

lemma ws_client_reachable_over:
  "ws_client_runs new_ws_client c \<Longrightarrow> wc_thread c \<and> \<not> wc_loop c \<longrightarrow> ws_client_over c"
proof (induction new_ws_client c rule: ws_client_runs.induct)
  case (step c d)
  then show ?case using ws_client_step_over[OF step.hyps(3) ws_client_reachable_inv[OF step.hyps(1)]] by blast
qed (simp add: new_ws_client_def)

text \<open>No ping was ever entered or sent.\<close>

definition unpinged :: "ws_client \<Rightarrow> bool" where
  "unpinged c \<longleftrightarrow> wc_pendingPings c = Map.empty \<and> (\<forall>h p. C_ping h p \<notin> set (wc_ops c)) \<and>
     set (wc_promises c) \<subseteq> {Value (- 1)}"

lemma ws_client_step_unpinged: "ws_client_step c d \<Longrightarrow> unpinged c \<Longrightarrow> unpinged d"
proof (induction rule: ws_client_step.induct)
  case (connects c env host port)
  then show ?case
    by (cases "wcv_get_connection env (ws_uri host port)") (auto simp: unpinged_def connect_def Let_def)
next
  case (disconnects c env r)
  then show ?case by (auto simp: unpinged_def disconnect_def wc_op_def Let_def split: option.split)
next
  case (opened c hdl env)
  then show ?case by (auto simp: unpinged_def on_open_def wc_op_def Let_def)
next
  case (pinged env bytes c p d)
  then show ?case using ping_returns[OF pinged(1)] by (auto simp: unpinged_def)
next
  case (pong c payload d)
  then show ?case by (auto simp: unpinged_def on_pong_def settle_def split: if_splits)
next
  case (timer c ec pid d)
  then show ?case by (auto simp: unpinged_def on_ping_timer_def settle_def split: if_splits)
qed (auto simp: unpinged_def on_close_def on_fail_def)

lemma unpinged_new: "unpinged new_ws_client"
  by (simp add: unpinged_def new_ws_client_def)

lemma ws_client_runs_unpinged: "ws_client_runs new_ws_client c \<Longrightarrow> unpinged c"
  by (induction new_ws_client c rule: ws_client_runs.induct)
    (auto intro: ws_client_step_unpinged unpinged_new)

subsection \<open>Properties\<close>

text \<open>
  C34. Pings. No execution in which nothing is undefined ever sends a ping: in every
  reachable state the table of pings is empty, no ping was handed to the library, and
  every future that was returned already holds -1. On a connected client \<open>ping\<close> throws
  \<open>invalid_argument\<close> for eight bytes or more (the default, and what the documentation asks
  for), and for fewer it overruns the ping id on the stack.
\<close>

theorem ping_never_pings:
  assumes "ws_client_runs new_ws_client c"
  shows "wc_pendingPings c = Map.empty \<and> (\<forall>h p. C_ping h p \<notin> set (wc_ops c)) \<and>
    set (wc_promises c) \<subseteq> {Value (- 1)} \<and>
    (isConnected c \<longrightarrow> ping env bytes c =
      (if 8 \<le> bytes then Throws (InvalidArgument ''Invalid ping bytes count (must be >=8)'') else UB))"
proof -
  have "ping env bytes c =
      (if 8 \<le> bytes then Throws (InvalidArgument ''Invalid ping bytes count (must be >=8)'') else UB)"
    if "isConnected c"
    using that by (simp add: ping_def copy_n_def Let_def split: prod.split)
  then show ?thesis using ws_client_runs_unpinged[OF assms] by (auto simp: unpinged_def new_ws_client_def)
qed

lemma ping_never_pings_witness:
  "\<forall>env. wc_promises (connect env ''h'' 80 new_ws_client) = [] \<and>
     (\<forall>h p. C_ping h p \<notin> set (wc_ops (connect env ''h'' 80 new_ws_client)))"
proof
  fix env
  have "ws_client_runs new_ws_client (connect env ''h'' 80 new_ws_client)"
    by (meson ws_client_runs.intros ws_client_step.connects)
  from ping_never_pings[OF this] show "wc_promises (connect env ''h'' 80 new_ws_client) = [] \<and>
     (\<forall>h p. C_ping h p \<notin> set (wc_ops (connect env ''h'' 80 new_ws_client)))"
    by (simp add: connect_def new_ws_client_def Let_def split: option.split)
qed



text \<open>
  C35. One connection per client. The I/O thread runs until the client has no connection
  left and is never started again: once its loop has ended, the client is not connected
  in any later state, however often \<open>connect\<close> is called.
\<close>

theorem client_never_reconnects:
  assumes "ws_client_runs new_ws_client c" and "wc_thread c" and "\<not> wc_loop c"
    and "ws_client_runs c d"
  shows "\<not> isConnected d"
proof -
  have "wc_thread c \<and> \<not> wc_loop c \<longrightarrow> ws_client_over c"
    using ws_client_reachable_over[OF assms(1)] .
  then show ?thesis
    using ws_client_over_runs[OF assms(4)] assms(2,3) by (simp add: ws_client_over_def isConnected_def)
qed

lemma client_never_reconnects_witness:
  "\<exists>c. ws_client_runs new_ws_client c \<and> wc_thread c \<and> (\<forall>env. \<not> isConnected (connect env ''h'' 80 c))"
proof -
  let ?env = "\<lparr>wcv_get_connection = \<lambda>_. None, wcv_send = \<lambda>_ _. None, wcv_close = \<lambda>_ _. None,
    wcv_ping = \<lambda>_ _. None, wcv_json = []\<rparr>"
  let ?a = "connect ?env ''h'' 80 new_ws_client"
  let ?b = "on_close 0 1000 (on_open ?env 0 ?a)"
  let ?c = "?b\<lparr>wc_loop := False\<rparr>"
  have a: "wc_loop ?a" "wc_live ?a = {0}" "wc_thread ?a"
    by (simp_all add: connect_def new_ws_client_def Let_def)
  have "ws_client_step new_ws_client ?a" by (rule ws_client_step.connects)
  moreover have "ws_client_step ?a (on_open ?env 0 ?a)" using a by (intro ws_client_step.opened) simp_all
  moreover have "ws_client_step (on_open ?env 0 ?a) ?b" using a by (intro ws_client_step.closed) simp_all
  moreover have "ws_client_step ?b ?c" using a by (intro ws_client_step.loop_ends) (simp_all add: on_close_def)
  ultimately have run: "ws_client_runs new_ws_client ?c" by (meson ws_client_runs.intros)
  have "ws_client_runs ?c (connect env ''h'' 80 ?c)" for env
    by (meson ws_client_runs.intros ws_client_step.connects)
  moreover have "wc_thread ?c" "\<not> wc_loop ?c" using a by (simp_all add: on_close_def)
  ultimately show ?thesis using run client_never_reconnects[OF run] by blast
qed

text \<open>
  Disconnecting. A connected client with an open connection tells the library to
  close it with the code of the given reason; the close handler maps every code of a
  reason back to that reason. Afterwards the client is not connected, also when the
  library refuses; calling it again does nothing.
\<close>

theorem disconnect_closes_with_reason:
  assumes "ws_client_runs new_ws_client c" and "isConnected c"
    and "\<forall>h code. wcv_close env h code = None"
  shows "\<exists>h \<in> wc_live c. wc_ops (disconnect env r c) = wc_ops c @ [C_close h (close_code r) ''Disconnect by user''] \<and>
    close_reason (close_code r) = r \<and>
    \<not> isConnected (disconnect env r c) \<and> disconnect env r' (disconnect env r c) = disconnect env r c"
proof -
  obtain h where h: "h \<in> wc_live c" "wc_connection c = Some h"
    using ws_client_reachable_inv[OF assms(1)] assms(2) by (auto simp: ws_client_inv_def isConnected_def)
  have "close_reason (close_code r) = r" by (cases r) (simp_all add: close_reason_def net_defs)
  moreover have "disconnect env r' d = d" if "\<not> wc_connected d" for d using that by (simp add: disconnect_def)
  ultimately show ?thesis using h assms(2,3)
    by (intro bexI[of _ h]) (simp_all add: isConnected_def, simp add: disconnect_def wc_op_def Let_def)
qed

lemma disconnect_closes_with_reason_witness:
  "\<exists>c env. wc_ops (disconnect env ProtocolError c) = wc_ops c @ [C_close 0 1002 ''Disconnect by user'']"
proof -
  let ?env = "\<lparr>wcv_get_connection = \<lambda>_. None, wcv_send = \<lambda>_ _. None, wcv_close = \<lambda>_ _. None,
    wcv_ping = \<lambda>_ _. None, wcv_json = []\<rparr>"
  let ?a = "connect ?env ''h'' 80 new_ws_client"
  have a: "wc_loop ?a" "wc_live ?a = {0}"
    by (simp_all add: connect_def new_ws_client_def Let_def)
  have "ws_client_step new_ws_client ?a" by (rule ws_client_step.connects)
  moreover have "ws_client_step ?a (on_open ?env 0 ?a)" using a by (intro ws_client_step.opened) simp_all
  ultimately have run: "ws_client_runs new_ws_client (on_open ?env 0 ?a)" by (meson ws_client_runs.intros)
  have "isConnected (on_open ?env 0 ?a)" "\<forall>h code. wcv_close ?env h code = None"
    by (simp_all add: isConnected_def)
  from disconnect_closes_with_reason[OF run this, of ProtocolError] a show ?thesis
    by (auto simp: net_defs)
qed

end
