(* ===== verification/Ws_Client_Calls.thy ===== *)
theory Ws_Client_Calls
  imports Ws_Client
begin

text \<open>
  The WebSocket client as its users see it (\<^verbatim>\<open>src/WebSockets/client.hpp\<close>): the public
  operations as a type of calls, the events its I/O thread delivers, histories of both, a
  small abstract machine that says what every history does, and the proof that the client of
  \<open>Ws_Client\<close> refines it.
\<close>

subsection \<open>Calls and events\<close>

datatype ws_client_call =
    Connect string u16
  | Send_text string
  | Send_json string
  | Send_binary "u8 list"
  | Set_receive_callback "string \<Rightarrow> unit"
  | Set_receive_byte_callback "u8 list \<Rightarrow> unit"
  | Is_connected
  | Ping nat
  | Disconnect DisconnectReason

text \<open>What a call gives back: nothing, a truth value, a future in its state, or an exception.\<close>

datatype ws_answer = Nothing | Answer bool | Future promise | Threw exn

fun do_ws_call :: "ws_client_env \<Rightarrow> ws_client_call \<Rightarrow> ws_client \<Rightarrow> (ws_answer \<times> ws_client) beh" where
  "do_ws_call env (Connect h p) c = Returns (Nothing, connect env h p c)"
| "do_ws_call env (Send_text s) c = bind_beh (sendText s c) (\<lambda>(b, d). Returns (Answer b, d))"
| "do_ws_call env (Send_json s) c = bind_beh (sendJson s c) (\<lambda>(b, d). Returns (Answer b, d))"
| "do_ws_call env (Send_binary s) c = bind_beh (sendBinary s c) (\<lambda>(b, d). Returns (Answer b, d))"
| "do_ws_call env (Set_receive_callback f) c = Returns (Nothing, setReceiveCallback f c)"
| "do_ws_call env (Set_receive_byte_callback f) c = Returns (Nothing, setReceiveByteCallback f c)"
| "do_ws_call env Is_connected c = Returns (Answer (isConnected c), c)"
| "do_ws_call env (Ping n) c = (case ping env n c of UB \<Rightarrow> UB | Throws e \<Rightarrow> Returns (Threw e, c)
     | Returns (p, d) \<Rightarrow> Returns (Future (wc_promises d ! p), d))"
| "do_ws_call env (Disconnect r) c = Returns (Nothing, disconnect env r c)"

text \<open>
  The events of the I/O thread. One happens only while the thread is in its loop, an event
  of a connection only while that connection is alive; otherwise it is skipped. A promise
  that is settled twice would throw out of the thread (\<open>Throws\<close>).
\<close>

datatype ws_event =
    Opened nat | Closed nat u16 | Failed nat | Message bool string | Pong string | Ping_expired bool u64 | Loop_ends

definition of_settled :: "ws_client option \<Rightarrow> ws_client beh" where
  "of_settled r = (case r of None \<Rightarrow> Throws (StdException ''promise_already_satisfied'') | Some d \<Rightarrow> Returns d)"

fun handle_event :: "ws_client_env \<Rightarrow> ws_event \<Rightarrow> ws_client \<Rightarrow> ws_client beh" where
  "handle_event env (Opened h) c = Returns (if h \<in> wc_live c then on_open env h c else c)"
| "handle_event env (Closed h code) c = Returns (if h \<in> wc_live c then on_close h code c else c)"
| "handle_event env (Failed h) c = Returns (if h \<in> wc_live c then on_fail h c else c)"
| "handle_event env (Message text m) c = Returns (on_message text m c)"
| "handle_event env (Pong m) c = of_settled (on_pong m c)"
| "handle_event env (Ping_expired ec i) c = of_settled (on_ping_timer ec i c)"
| "handle_event env Loop_ends c = Returns (if wc_live c = {} then c\<lparr>wc_loop := False\<rparr> else c)"

definition do_ws_event :: "ws_client_env \<Rightarrow> ws_event \<Rightarrow> ws_client \<Rightarrow> ws_client beh" where
  "do_ws_event env e c = (if wc_loop c then handle_event env e c else Returns c)"

text \<open>Histories: calls and events in the order they take effect, each with the library's answers.\<close>

datatype ws_act = Call ws_client_call | Event ws_event

fun do_ws_act :: "ws_client_env \<Rightarrow> ws_act \<Rightarrow> ws_client \<Rightarrow> (ws_answer \<times> ws_client) beh" where
  "do_ws_act env (Call x) c = do_ws_call env x c"
| "do_ws_act env (Event e) c = bind_beh (do_ws_event env e c) (\<lambda>d. Returns (Nothing, d))"

fun ws_history :: "(ws_client_env \<times> ws_act) list \<Rightarrow> ws_client \<Rightarrow> (ws_answer list \<times> ws_client) beh" where
  "ws_history [] c = Returns ([], c)"
| "ws_history ((env, x) # xs) c =
     bind_beh (do_ws_act env x c) (\<lambda>(a, d). bind_beh (ws_history xs d) (\<lambda>(as, e). Returns (a # as, e)))"

subsection \<open>The abstract machine\<close>

text \<open>
  The life of a client: no connection was made yet; its loop runs, with the number of
  connections made, those alive and the open one; or the loop has ended.
\<close>

datatype life = Idle | Active nat "nat set" "nat option" | Over

fun open_in :: "life \<Rightarrow> nat option" where
  "open_in (Active n live x) = x"
| "open_in l = None"

text \<open>The frames a handler of the open event sends: up to the first that cannot be sent.\<close>

definition greeting :: "ws_client_env \<Rightarrow> nat \<Rightarrow> ws_client_op list" where
  "greeting env h = map (C_send h) (takeWhile (\<lambda>m. wcv_send env h m = None) [''hello'', wcv_json env])"

definition farewell :: "ws_client_env \<Rightarrow> DisconnectReason \<Rightarrow> nat \<Rightarrow> ws_client_op list" where
  "farewell env r h = (if wcv_close env h (close_code r) = None
     then [C_close h (close_code r) ''Disconnect by user''] else [])"

text \<open>One call: its answer, the frames it sends and the life after it.\<close>

fun spec_call :: "ws_client_env \<Rightarrow> ws_client_call \<Rightarrow> life \<Rightarrow> (ws_answer \<times> ws_client_op list \<times> life) beh" where
  "spec_call env (Connect h p) l =
     Returns (Nothing, [], if wcv_get_connection env (ws_uri h p) \<noteq> None then l else
       (case l of Idle \<Rightarrow> Active 1 {0} None | Active n live x \<Rightarrow> Active (Suc n) (insert n live) x | Over \<Rightarrow> Over))"
| "spec_call env Is_connected l = Returns (Answer (open_in l \<noteq> None), [], l)"
| "spec_call env (Ping n) l =
     (if open_in l = None then Returns (Future (Value (- 1)), [], l)
      else if 8 \<le> n then Returns (Threw (InvalidArgument ''Invalid ping bytes count (must be >=8)''), [], l)
      else UB)"
| "spec_call env (Disconnect r) l =
     (case l of Active n live (Some h) \<Rightarrow> Returns (Nothing, farewell env r h, Active n live None)
      | _ \<Rightarrow> Returns (Nothing, [], l))"
| "spec_call env (Set_receive_callback f) l = Returns (Nothing, [], l)"
| "spec_call env (Set_receive_byte_callback f) l = Returns (Nothing, [], l)"
| "spec_call env _ l = UB"

text \<open>One event of a running client; messages, pongs and timers change nothing.\<close>

fun spec_event :: "ws_client_env \<Rightarrow> ws_event \<Rightarrow> life \<Rightarrow> ws_client_op list \<times> life" where
  "spec_event env (Opened h) (Active n live x) =
     (if h \<in> live then (greeting env h, Active n live (Some h)) else ([], Active n live x))"
| "spec_event env (Closed h code) (Active n live x) =
     ([], if h \<in> live then Active n (live - {h}) None else Active n live x)"
| "spec_event env (Failed h) (Active n live x) =
     ([], if h \<in> live then Active n (live - {h}) None else Active n live x)"
| "spec_event env Loop_ends (Active n live x) = ([], if live = {} then Over else Active n live x)"
| "spec_event env _ l = ([], l)"

fun spec_act :: "ws_client_env \<Rightarrow> ws_act \<Rightarrow> life \<Rightarrow> (ws_answer \<times> ws_client_op list \<times> life) beh" where
  "spec_act env (Call x) l = spec_call env x l"
| "spec_act env (Event e) l = (case spec_event env e l of (ys, l') \<Rightarrow> Returns (Nothing, ys, l'))"

fun spec_history :: "(ws_client_env \<times> ws_act) list \<Rightarrow> life \<Rightarrow> (ws_answer list \<times> ws_client_op list \<times> life) beh" where
  "spec_history [] l = Returns ([], [], l)"
| "spec_history ((env, x) # xs) l =
     bind_beh (spec_act env x l) (\<lambda>(a, ys, l').
       bind_beh (spec_history xs l') (\<lambda>(as, zs, l''). Returns (a # as, ys @ zs, l'')))"

subsection \<open>The client refines it\<close>

definition life_of :: "ws_client \<Rightarrow> life" where
  "life_of c =
     (if \<not> wc_thread c then Idle
      else if \<not> wc_loop c then Over
      else Active (wc_made c) (wc_live c) (if wc_connected c then wc_connection c else None))"

definition ws_life_inv :: "ws_client \<Rightarrow> bool" where
  "ws_life_inv c \<longleftrightarrow> ws_client_inv c \<and> (wc_thread c \<and> \<not> wc_loop c \<longrightarrow> ws_client_over c) \<and> unpinged c \<and>
     (\<not> wc_thread c \<longrightarrow> wc_made c = 0 \<and> wc_live c = {})"

text \<open>One act from a state with the invariant: undefined in both, or the same answer, frames and life.\<close>

definition act_refines :: "ws_client \<Rightarrow> (ws_answer \<times> ws_client) beh \<Rightarrow> (ws_answer \<times> ws_client_op list \<times> life) beh \<Rightarrow> bool" where
  "act_refines c r s \<longleftrightarrow> (case r of
     UB \<Rightarrow> s = UB
   | Throws e \<Rightarrow> False
   | Returns (a, d) \<Rightarrow> \<exists>ys. s = Returns (a, ys, life_of d) \<and> wc_ops d = wc_ops c @ ys \<and> ws_life_inv d)"

lemma act_refines_Returns [simp]:
  "act_refines c (Returns (a, d)) s \<longleftrightarrow>
     (\<exists>ys. s = Returns (a, ys, life_of d) \<and> wc_ops d = wc_ops c @ ys \<and> ws_life_inv d)"
  by (simp add: act_refines_def)

text \<open>The invariant along steps: only a call of \<open>connect\<close> starts the thread, and it makes a connection.\<close>

lemma ws_life_inv_step:
  assumes "ws_life_inv c" and "ws_client_step c d"
    and "\<not> wc_thread d \<Longrightarrow> wc_made d = wc_made c \<and> wc_live d = wc_live c \<and> \<not> wc_thread c"
  shows "ws_life_inv d"
  unfolding ws_life_inv_def
proof (intro conjI)
  have c: "ws_client_inv c" "wc_thread c \<and> \<not> wc_loop c \<longrightarrow> ws_client_over c" "unpinged c"
    "\<not> wc_thread c \<longrightarrow> wc_made c = 0 \<and> wc_live c = {}"
    using assms(1) by (simp_all add: ws_life_inv_def)
  show "ws_client_inv d" by (rule ws_client_step_inv[OF assms(2) c(1)])
  show "wc_thread d \<and> \<not> wc_loop d \<longrightarrow> ws_client_over d" by (rule ws_client_step_over[OF assms(2) c(1,2)])
  show "unpinged d" by (rule ws_client_step_unpinged[OF assms(2) c(3)])
  show "\<not> wc_thread d \<longrightarrow> wc_made d = 0 \<and> wc_live d = {}" using assms(3) c(4) by simp
qed

lemma ws_life_invD:
  assumes "ws_life_inv c"
  shows "unpinged c" "wc_loop c \<Longrightarrow> wc_thread c" "wc_thread c \<Longrightarrow> \<not> wc_loop c \<Longrightarrow> \<not> wc_connected c"
    "\<not> wc_thread c \<Longrightarrow> wc_made c = 0 \<and> wc_live c = {} \<and> \<not> wc_connected c \<and> \<not> wc_loop c"
    "wc_connected c \<Longrightarrow> wc_loop c \<and> wc_thread c \<and> (\<exists>h \<in> wc_live c. wc_connection c = Some h)"
proof -
  have c: "wc_connected c \<longrightarrow> (\<exists>h \<in> wc_live c. wc_connection c = Some h)" "wc_loop c \<longrightarrow> wc_thread c"
    "wc_thread c \<and> \<not> wc_loop c \<longrightarrow> \<not> wc_connected c" "unpinged c"
    "\<not> wc_thread c \<longrightarrow> wc_made c = 0 \<and> wc_live c = {}"
    using assms unfolding ws_life_inv_def ws_client_inv_def ws_client_over_def by blast+
  show "unpinged c" "wc_loop c \<Longrightarrow> wc_thread c" "wc_thread c \<Longrightarrow> \<not> wc_loop c \<Longrightarrow> \<not> wc_connected c"
    using c(2,3,4) by blast+
  show "\<not> wc_thread c \<Longrightarrow> wc_made c = 0 \<and> wc_live c = {} \<and> \<not> wc_connected c \<and> \<not> wc_loop c"
    using c(1,2,5) by auto
  show "wc_connected c \<Longrightarrow> wc_loop c \<and> wc_thread c \<and> (\<exists>h \<in> wc_live c. wc_connection c = Some h)"
    using c(1,3,5) by (cases "wc_thread c") auto
qed

lemma open_in_life_of: "ws_life_inv c \<Longrightarrow> open_in (life_of c) = None \<longleftrightarrow> \<not> wc_connected c"
proof (cases "wc_connected c")
  case True
  assume "ws_life_inv c"
  from ws_life_invD(5)[OF this True] show ?thesis by (auto simp: life_of_def)
qed (simp add: life_of_def)

lemma connect_refines:
  assumes "ws_life_inv c"
  shows "act_refines c (Returns (Nothing, connect env h p c)) (spec_call env (Connect h p) (life_of c))"
proof -
  have "ws_life_inv (connect env h p c)"
    using assms by (rule ws_life_inv_step[OF _ ws_client_step.connects])
      (auto simp: connect_def Let_def split: option.splits if_splits)
  moreover have "wc_ops (connect env h p c) = wc_ops c"
    by (simp add: connect_def Let_def split: option.split)
  moreover have "spec_call env (Connect h p) (life_of c) = Returns (Nothing, [], life_of (connect env h p c))"
  proof (cases "wcv_get_connection env (ws_uri h p) = None \<and> \<not> wc_thread c")
    case True
    then have "wc_made c = 0" "wc_live c = {}" "\<not> wc_connected c" using ws_life_invD(4)[OF assms] by blast+
    then show ?thesis using True by (simp add: connect_def life_of_def)
  next
    case False
    then show ?thesis by (auto simp: connect_def Let_def life_of_def split: option.split)
  qed
  ultimately show ?thesis by simp
qed

lemma disconnect_refines:
  assumes "ws_life_inv c"
  shows "act_refines c (Returns (Nothing, disconnect env r c)) (spec_call env (Disconnect r) (life_of c))"
proof -
  have inv: "ws_life_inv (disconnect env r c)"
    using assms by (rule ws_life_inv_step[OF _ ws_client_step.disconnects]) simp
  show ?thesis
  proof (cases "wc_connected c")
    case True
    then obtain h where h: "wc_connection c = Some h" "wc_loop c" "wc_thread c" using ws_life_invD(5)[OF assms] by blast
    have l: "life_of c = Active (wc_made c) (wc_live c) (Some h)" using True h by (simp add: life_of_def)
    have "life_of (disconnect env r c) = Active (wc_made c) (wc_live c) None" using h by (simp add: life_of_def)
    moreover have "wc_ops (disconnect env r c) = wc_ops c @ farewell env r h"
      using True h by (simp add: disconnect_def farewell_def wc_op_def Let_def)
    ultimately show ?thesis using inv by (simp add: l)
  next
    case False
    then have "disconnect env r c = c" by (simp add: disconnect_def)
    then show ?thesis using False inv by (simp add: life_of_def)
  qed
qed

lemma ping_refines:
  assumes "ws_life_inv c"
  shows "act_refines c (do_ws_call env (Ping n) c) (spec_call env (Ping n) (life_of c))"
proof (cases "wc_connected c")
  case True
  then show ?thesis using assms open_in_life_of[OF assms]
    by (auto simp: ping_def isConnected_def copy_n_def Let_def act_refines_def split: prod.split)
next
  case False
  let ?d = "c\<lparr>wc_promises := wc_promises c @ [Value (- 1)]\<rparr>"
  have p: "ping env n c = Returns (length (wc_promises c), ?d)"
    using False by (simp add: ping_def isConnected_def)
  have "ws_life_inv ?d" using assms by (rule ws_life_inv_step[OF _ ws_client_step.pinged[OF p]]) simp
  moreover have "life_of ?d = life_of c" by (simp add: life_of_def)
  ultimately show ?thesis using False open_in_life_of[OF assms] p by simp
qed

lemma event_refines:
  assumes "ws_life_inv c"
  shows "act_refines c (do_ws_act env (Event e) c) (spec_act env (Event e) (life_of c))"
proof (cases "wc_loop c")
  case False
  then have "spec_event env e (life_of c) = ([], life_of c)" by (cases e) (simp_all add: life_of_def)
  then show ?thesis using False assms by (simp add: do_ws_event_def)
next
  case True
  then have l: "life_of c = Active (wc_made c) (wc_live c) (if wc_connected c then wc_connection c else None)"
    using ws_life_invD(2)[OF assms] by (simp add: life_of_def)
  have t: "wc_thread c" using True ws_life_invD(2)[OF assms] by blast
  have u: "wc_pendingPings c = Map.empty" using ws_life_invD(1)[OF assms] by (simp add: unpinged_def)
  show ?thesis
  proof (cases e)
    case (Opened h)
    show ?thesis
    proof (cases "h \<in> wc_live c")
      case h: True
      have "ws_life_inv (on_open env h c)"
        using assms by (rule ws_life_inv_step[OF _ ws_client_step.opened[OF True h]]) (simp add: t)
      moreover have "wc_ops (on_open env h c) = wc_ops c @ greeting env h"
        by (simp add: on_open_def wc_op_def greeting_def Let_def)
      moreover have "life_of (on_open env h c) = Active (wc_made c) (wc_live c) (Some h)"
        using True t by (simp add: life_of_def)
      ultimately show ?thesis using Opened True h l by (simp add: do_ws_event_def)
    qed (use Opened True assms l in \<open>simp add: do_ws_event_def\<close>)
  next
    case (Closed h code)
    show ?thesis
    proof (cases "h \<in> wc_live c")
      case h: True
      have "ws_life_inv (on_close h code c)"
        using assms by (rule ws_life_inv_step[OF _ ws_client_step.closed[OF True h]]) (simp add: t on_close_def)
      then show ?thesis using Closed True t h l by (simp add: do_ws_event_def on_close_def life_of_def)
    qed (use Closed True assms l in \<open>simp add: do_ws_event_def\<close>)
  next
    case (Failed h)
    show ?thesis
    proof (cases "h \<in> wc_live c")
      case h: True
      have "ws_life_inv (on_fail h c)"
        using assms by (rule ws_life_inv_step[OF _ ws_client_step.failed[OF True h]]) (simp add: t on_fail_def)
      then show ?thesis using Failed True t h l by (simp add: do_ws_event_def on_fail_def life_of_def)
    qed (use Failed True assms l in \<open>simp add: do_ws_event_def\<close>)
  next
    case (Message is_text m)
    then show ?thesis using True assms l by (simp add: do_ws_event_def on_message_def)
  next
    case (Pong m)
    then show ?thesis using True assms l u
      by (simp add: do_ws_event_def on_pong_def settle_def of_settled_def)
  next
    case (Ping_expired ec i)
    then show ?thesis using True assms l u
      by (simp add: do_ws_event_def on_ping_timer_def settle_def of_settled_def)
  next
    case Loop_ends
    show ?thesis
    proof (cases "wc_live c = {}")
      case h: True
      have "ws_life_inv (c\<lparr>wc_loop := False\<rparr>)"
        using assms by (rule ws_life_inv_step[OF _ ws_client_step.loop_ends[OF True h]]) (simp add: t)
      then show ?thesis using Loop_ends True t h l by (simp add: do_ws_event_def life_of_def)
    qed (use Loop_ends True assms l in \<open>simp add: do_ws_event_def\<close>)
  qed
qed

lemma ws_act_refines:
  assumes "ws_life_inv c"
  shows "act_refines c (do_ws_act env x c) (spec_act env x (life_of c))"
proof (cases x)
  case (Call y)
  show ?thesis
  proof (cases y)
    case Is_connected
    then show ?thesis using Call assms open_in_life_of[OF assms] by (simp add: isConnected_def)
  qed (use Call assms connect_refines disconnect_refines ping_refines in
      \<open>auto simp: sendText_def sendJson_def sendBinary_def setReceiveCallback_def setReceiveByteCallback_def act_refines_def\<close>)
next
  case (Event e)
  then show ?thesis using event_refines[OF assms] by simp
qed

definition history_view :: "(ws_answer list \<times> ws_client) beh \<Rightarrow> (ws_answer list \<times> ws_client_op list \<times> life) beh" where
  "history_view r = bind_beh r (\<lambda>(as, c). Returns (as, wc_ops c, life_of c))"

lemma ws_history_refines:
  "ws_life_inv c \<Longrightarrow> history_view (ws_history xs c) =
     bind_beh (spec_history xs (life_of c)) (\<lambda>(as, ys, l). Returns (as, wc_ops c @ ys, l))"
proof (induction xs arbitrary: c)
  case Nil
  then show ?case by (simp add: history_view_def)
next
  case (Cons ex xs)
  obtain env x where ex: "ex = (env, x)" by fastforce
  note a = ws_act_refines[OF Cons.prems, of env x]
  show ?case
  proof (cases "do_ws_act env x c")
    case UB
    then show ?thesis using a ex by (simp add: act_refines_def history_view_def)
  next
    case (Throws e)
    then show ?thesis using a by (simp add: act_refines_def)
  next
    case (Returns ad)
    obtain b d where ad: "ad = (b, d)" by fastforce
    then obtain ys where ys: "spec_act env x (life_of c) = Returns (b, ys, life_of d)" "wc_ops d = wc_ops c @ ys" "ws_life_inv d"
      using a Returns by auto
    have "history_view (ws_history (ex # xs) c) =
        bind_beh (history_view (ws_history xs d)) (\<lambda>(as, os, l). Returns (b # as, os, l))"
      using Returns ad ex by (cases "ws_history xs d") (auto simp: history_view_def)
    also have "\<dots> = bind_beh (spec_history xs (life_of d)) (\<lambda>(as, zs, l). Returns (b # as, wc_ops c @ ys @ zs, l))"
      unfolding Cons.IH[OF ys(3)] using ys(2) by (cases "spec_history xs (life_of d)") auto
    finally show ?thesis using ex ys(1) by (cases "spec_history xs (life_of d)") auto
  qed
qed

subsection \<open>Properties\<close>

text \<open>
  C24. What a WebSocket client does. For every history of calls and events on a new client,
  the answers (truth values, states of the returned futures, exceptions), the frames handed to the library, whether anything is undefined, and
  the life of the client are those of the abstract machine, which has no table of pings, no promises,
  no callbacks and no message handler: pings and received messages have no effect at all.
\<close>

theorem ws_client_implements:
  "history_view (ws_history xs new_ws_client) = spec_history xs Idle"
proof -
  have "ws_life_inv new_ws_client"
    by (simp add: ws_life_inv_def ws_client_inv_def new_ws_client_def unpinged_def)
  from ws_history_refines[OF this, of xs] show ?thesis
    by (cases "spec_history xs Idle") (auto simp: life_of_def new_ws_client_def)
qed

end
