(* ===== verification/Ws_Server.thy ===== *)
theory Ws_Server
  imports Ws_Client Udp_Server
begin

text \<open>
  The WebSocket server (\<^verbatim>\<open>src/WebSockets/server.cpp\<close>): listening, the handlers of
  its connections' events, and stopping. The endpoint of websocketpp is the argument
  \<open>env\<close>; it is told whether its acceptor is already listening. What the server asks of the
  endpoint is recorded in \<open>wr_ops\<close>.
\<close>

datatype ServerReason = SR_Normal | SR_ServerShutdown | SR_ProtocolError | SR_ConnectionLost | SR_Unknown

fun ServerReason_code :: "ServerReason \<Rightarrow> int" where
  "ServerReason_code SR_Normal = 0" | "ServerReason_code SR_ServerShutdown = 1"
| "ServerReason_code SR_ProtocolError = 2" | "ServerReason_code SR_ConnectionLost = 3"
| "ServerReason_code SR_Unknown = 4"

definition server_reason :: "u16 \<Rightarrow> ServerReason" where
  "server_reason code =
     (if code = status_normal then SR_Normal
      else if code = status_going_away then SR_ServerShutdown
      else if code = status_protocol_error then SR_ProtocolError
      else SR_ConnectionLost)"

datatype ws_server_op = R_close nat u16 string | R_http_body nat string u32 | R_stop_listening

text \<open>
  \<open>wr_acceptor\<close>: the endpoint's acceptor is listening. \<open>wr_listening\<close>: the server's own
  flag. \<open>wr_thread\<close>: the I/O thread exists, \<open>wr_loop\<close>: it is inside \<^verbatim>\<open>run()\<close>;
  \<open>wr_stopped\<close>: the I/O service has been stopped (it is never restarted). \<open>wr_opened\<close>:
  the connections whose open handler has run.
\<close>

record ws_server =
  wr_acceptor :: bool
  wr_listening :: bool
  wr_thread :: bool
  wr_loop :: bool
  wr_stopped :: bool
  wr_connections :: "nat set"
  wr_opened :: "nat list"
  wr_ops :: "ws_server_op list"
  wr_log :: "ServerReason list"

record ws_server_env =
  wrv_make_address :: "string \<Rightarrow> exn option"
  wrv_listen :: "bool \<Rightarrow> u16 \<Rightarrow> exn option"
  wrv_start_accept :: "exn option"
  wrv_stop_listening :: "exn option"
  wrv_close :: "nat \<Rightarrow> exn option"

definition new_ws_server :: ws_server where
  "new_ws_server = \<lparr>wr_acceptor = False, wr_listening = False, wr_thread = False, wr_loop = False,
     wr_stopped = False, wr_connections = {}, wr_opened = [], wr_ops = [], wr_log = []\<rparr>"

definition wr_op :: "ws_server_op \<Rightarrow> ws_server \<Rightarrow> ws_server" where
  "wr_op x s = s\<lparr>wr_ops := wr_ops s @ [x]\<rparr>"

subsection \<open>Handlers\<close>

definition server_open :: "nat \<Rightarrow> ws_server \<Rightarrow> ws_server" where
  "server_open hdl s = s\<lparr>wr_connections := insert hdl (wr_connections s), wr_opened := wr_opened s @ [hdl]\<rparr>"

definition server_close :: "nat \<Rightarrow> u16 \<Rightarrow> ws_server \<Rightarrow> ws_server" where
  "server_close hdl code s =
     s\<lparr>wr_connections := wr_connections s - {hdl}, wr_log := wr_log s @ [server_reason code]\<rparr>"

text \<open>Messages and failed connections are only logged.\<close>

definition server_message :: "bool \<Rightarrow> string \<Rightarrow> ws_server \<Rightarrow> ws_server" where
  "server_message text payload s = s"

definition server_fail :: "nat \<Rightarrow> ws_server \<Rightarrow> ws_server" where
  "server_fail hdl s = s"

definition server_http :: "nat \<Rightarrow> ws_server \<Rightarrow> ws_server" where
  "server_http hdl s = wr_op (R_http_body hdl ''Invalid protocol (connect using WebSockets)'' 200) s"

subsection \<open>Listening and stopping\<close>

text \<open>What \<^verbatim>\<open>make_address\<close> throws leaves \<open>listen\<close>.\<close>

definition listen :: "ws_server_env \<Rightarrow> string \<Rightarrow> u16 \<Rightarrow> ws_server \<Rightarrow> unit res \<times> ws_server" where
  "listen env host port s =
     (case wrv_make_address env host of
        Some e \<Rightarrow> (Inl e, s)
      | None \<Rightarrow>
          if wrv_listen env (wr_acceptor s) port \<noteq> None then (Inr (), s)
          else let s1 = s\<lparr>wr_acceptor := True\<rparr> in
            if wrv_start_accept env \<noteq> None then (Inr (), s1)
            else let s2 = s1\<lparr>wr_listening := True\<rparr> in
              (Inr (), if wr_thread s2 then s2 else s2\<lparr>wr_thread := True, wr_loop := \<not> wr_stopped s2\<rparr>))"

definition isListening :: "ws_server \<Rightarrow> bool" where
  "isListening s = wr_listening s"

text \<open>Errors of closing a connection are ignored. The order of the closes is that of the set.\<close>

definition stop_listener :: "ws_server_env \<Rightarrow> ws_server \<Rightarrow> ws_server" where
  "stop_listener env s =
     (if wr_listening s then
        (if wrv_stop_listening env = None then wr_op R_stop_listening (s\<lparr>wr_acceptor := False\<rparr>) else s)
          \<lparr>wr_listening := False\<rparr>
      else s)"

definition stop_connections :: "ws_server_env \<Rightarrow> ws_server \<Rightarrow> ws_server" where
  "stop_connections env s =
     (foldl (\<lambda>s hdl. if wrv_close env hdl = None then wr_op (R_close hdl status_going_away ''Server shutdown'') s else s)
        s (sorted_list_of_set (wr_connections s)))\<lparr>wr_connections := {}\<rparr>"

definition stop_io :: "ws_server \<Rightarrow> ws_server" where
  "stop_io s = (if wr_thread s then s\<lparr>wr_stopped := True, wr_loop := False, wr_thread := False\<rparr> else s)"

definition stop :: "ws_server_env \<Rightarrow> ws_server \<Rightarrow> ws_server" where
  "stop env s = stop_io (stop_connections env (stop_listener env s))"

definition destroy_ws_server :: "ws_server_env \<Rightarrow> ws_server \<Rightarrow> ws_server" where
  "destroy_ws_server env s = stop env s"

text \<open>Steps: the operations, and the events the loop dispatches.\<close>

inductive ws_server_step :: "ws_server_env \<Rightarrow> ws_server \<Rightarrow> ws_server \<Rightarrow> bool" for env where
  listens: "ws_server_step env s (snd (listen env host port s))"
| stops: "ws_server_step env s (stop env s)"
| opened: "wr_loop s \<Longrightarrow> ws_server_step env s (server_open hdl s)"
| closed: "wr_loop s \<Longrightarrow> ws_server_step env s (server_close hdl code s)"
| http: "wr_loop s \<Longrightarrow> ws_server_step env s (server_http hdl s)"

inductive ws_server_runs :: "ws_server_env \<Rightarrow> ws_server \<Rightarrow> ws_server \<Rightarrow> bool" for env where
  refl: "ws_server_runs env s s"
| step: "ws_server_runs env s t \<Longrightarrow> ws_server_step env t u \<Longrightarrow> ws_server_runs env s u"

subsection \<open>What stopping does\<close>

lemma close_all_effect:
  "foldl (\<lambda>s hdl. if wrv_close env hdl = None then wr_op (R_close hdl c m) s else s) s hs =
   s\<lparr>wr_ops := wr_ops s @ map (\<lambda>h. R_close h c m) (filter (\<lambda>h. wrv_close env h = None) hs)\<rparr>"
  by (induction hs arbitrary: s) (simp_all add: wr_op_def)

lemma stop_listener_effect [simp]:
  "wr_listening (stop_listener env s) = False"
  "wr_connections (stop_listener env s) = wr_connections s" "wr_opened (stop_listener env s) = wr_opened s"
  "wr_loop (stop_listener env s) = wr_loop s" "wr_thread (stop_listener env s) = wr_thread s"
  "wr_stopped (stop_listener env s) = wr_stopped s"
  "wr_acceptor (stop_listener env s) =
     (if wr_listening s \<and> wrv_stop_listening env = None then False else wr_acceptor s)"
  "filter (\<lambda>x. x \<noteq> R_stop_listening) (wr_ops (stop_listener env s)) =
     filter (\<lambda>x. x \<noteq> R_stop_listening) (wr_ops s)"
  by (simp_all add: stop_listener_def wr_op_def)

lemma stop_connections_eq:
  "stop_connections env s = s\<lparr>wr_ops := wr_ops s @
     map (\<lambda>h. R_close h status_going_away ''Server shutdown'')
       (filter (\<lambda>h. wrv_close env h = None) (sorted_list_of_set (wr_connections s))),
     wr_connections := {}\<rparr>"
  by (simp only: stop_connections_def close_all_effect)

lemma stop_effect:
  "wr_listening (stop env s) = False" "wr_connections (stop env s) = {}"
  "wr_opened (stop env s) = wr_opened s" "wr_loop (stop env s) = (wr_loop s \<and> \<not> wr_thread s)"
  "wr_thread (stop env s) = False" "wr_stopped (stop env s) = (wr_stopped s \<or> wr_thread s)"
  "wr_acceptor (stop env s) =
     (if wr_listening s \<and> wrv_stop_listening env = None then False else wr_acceptor s)"
  "wr_ops (stop env s) = wr_ops (stop_listener env s) @
     map (\<lambda>h. R_close h status_going_away ''Server shutdown'')
       (filter (\<lambda>h. wrv_close env h = None) (sorted_list_of_set (wr_connections s)))"
  by (simp_all add: stop_def stop_io_def stop_connections_eq)

lemma listen_effect:
  "wr_stopped (snd (listen env h p s)) = wr_stopped s" "wr_opened (snd (listen env h p s)) = wr_opened s"
  "wr_listening s \<Longrightarrow> wr_listening (snd (listen env h p s))"
  "\<not> wr_loop s \<Longrightarrow> wr_stopped s \<Longrightarrow> \<not> wr_loop (snd (listen env h p s))"
  by (simp_all add: listen_def Let_def split: option.split)

definition start_listening ::
  "ws_server_env \<Rightarrow> string \<times> u16 \<Rightarrow> ws_server \<Rightarrow> (bool \<times> ws_server) option" where
  "start_listening env hp s = Some (isListening (snd (listen env (fst hp) (snd hp) s)) \<and> \<not> isListening s,
     snd (listen env (fst hp) (snd hp) s))"

lemma start_listening_Some:
  "start_listening env hp s = Some (ok, t) \<Longrightarrow> t = snd (listen env (fst hp) (snd hp) s) \<and>
    ok = (isListening t \<and> \<not> isListening s) \<and> (isListening s \<longrightarrow> isListening t)"
  by (auto simp: start_listening_def isListening_def listen_effect)

interpretation ws: lifecycle "start_listening env" "stop env" isListening for env
proof unfold_locales
  show "\<not> isListening (stop env s)" for s by (simp add: isListening_def stop_effect)
qed (use start_listening_Some in blast)+

definition ws_server_inv :: "ws_server \<Rightarrow> bool" where
  "ws_server_inv s \<longleftrightarrow> wr_loop s = (wr_thread s \<and> \<not> wr_stopped s) \<and> (wr_listening s \<longrightarrow> wr_thread s) \<and> finite (wr_connections s) \<and>
     wr_connections s \<subseteq> set (wr_opened s)"

lemma listen_cases:
  obtains "snd (listen env h p s) = s" | "snd (listen env h p s) = s\<lparr>wr_acceptor := True\<rparr>"
  | "wr_thread s" "snd (listen env h p s) = s\<lparr>wr_acceptor := True, wr_listening := True\<rparr>"
  | "\<not> wr_thread s" "snd (listen env h p s) =
      s\<lparr>wr_acceptor := True, wr_listening := True, wr_thread := True, wr_loop := \<not> wr_stopped s\<rparr>"
proof (cases "wrv_make_address env h = None \<and> wrv_listen env (wr_acceptor s) p = None \<and> wrv_start_accept env = None")
  case True
  then show ?thesis using that(3,4) by (cases "wr_thread s") (simp_all add: listen_def Let_def)
next
  case False
  then show ?thesis using that(1,2)
    by (cases "wrv_make_address env h"; cases "wrv_listen env (wr_acceptor s) p") (simp_all add: listen_def Let_def)
qed

lemma listen_inv: "ws_server_inv s \<Longrightarrow> ws_server_inv (snd (listen env h p s))"
  by (rule listen_cases[of env h p s]) (simp_all add: ws_server_inv_def)

lemma stop_inv: "ws_server_inv s \<Longrightarrow> ws_server_inv (stop env s)"
  unfolding ws_server_inv_def stop_effect(1-6) by simp

lemma ws_server_step_inv: "ws_server_step env s t \<Longrightarrow> ws_server_inv s \<Longrightarrow> ws_server_inv t"
proof (induction rule: ws_server_step.induct)
  case (listens s host port)
  then show ?case by (rule listen_inv)
next
  case (stops s)
  then show ?case by (rule stop_inv)
next
  case (opened s hdl)
  then show ?case by (auto simp: ws_server_inv_def server_open_def)
next
  case (closed s hdl code)
  then show ?case by (auto simp: ws_server_inv_def server_close_def)
next
  case (http s hdl)
  then show ?case by (simp add: ws_server_inv_def server_http_def wr_op_def)
qed

lemma ws_server_runs_inv: "ws_server_runs env s t \<Longrightarrow> ws_server_inv s \<Longrightarrow> ws_server_inv t"
  by (induction rule: ws_server_runs.induct) (auto simp: ws_server_step_inv)

lemma ws_server_reachable_inv: "ws_server_runs env new_ws_server s \<Longrightarrow> ws_server_inv s"
  by (erule ws_server_runs_inv) (simp add: ws_server_inv_def new_ws_server_def)

lemma ws_server_over_step:
  "ws_server_step env s t \<Longrightarrow> \<not> wr_loop s \<and> wr_stopped s \<Longrightarrow>
   (\<not> wr_loop t \<and> wr_stopped t) \<and> wr_opened t = wr_opened s"
  by (induction rule: ws_server_step.induct) (auto simp: stop_effect listen_effect)

lemma ws_server_over_runs:
  "ws_server_runs env s t \<Longrightarrow> \<not> wr_loop s \<and> wr_stopped s \<Longrightarrow>
   (\<not> wr_loop t \<and> wr_stopped t) \<and> wr_opened t = wr_opened s"
  by (induction rule: ws_server_runs.induct) (auto dest: ws_server_over_step)

lemma ws_server_stuck_step:
  "ws_server_step env s t \<Longrightarrow> (\<forall>p. wrv_listen env True p \<noteq> None) \<Longrightarrow> wr_acceptor s \<and> \<not> wr_listening s \<Longrightarrow>
   wr_acceptor t \<and> \<not> wr_listening t"
  by (induction rule: ws_server_step.induct)
    (auto simp: stop_effect listen_def server_open_def server_close_def server_http_def wr_op_def
      split: option.split)

lemma ws_server_stuck_runs:
  "ws_server_runs env s t \<Longrightarrow> (\<forall>p. wrv_listen env True p \<noteq> None) \<Longrightarrow> wr_acceptor s \<and> \<not> wr_listening s \<Longrightarrow>
   wr_acceptor t \<and> \<not> wr_listening t"
  by (induction rule: ws_server_runs.induct) (auto dest: ws_server_stuck_step)

subsection \<open>Properties\<close>

text \<open>
  C36. Stopping. In every reachable state \<open>stop\<close> leaves the server not listening, without
  connections and without a thread, and it asks the library to close exactly the
  connections that were open, once each, with the code for going away.
\<close>

theorem stop_closes_connections:
  assumes "ws_server_runs env new_ws_server s" and "\<forall>h. wrv_close env h = None"
  shows "\<not> isListening (stop env s) \<and> wr_connections (stop env s) = {} \<and> \<not> wr_loop (stop env s) \<and>
    (\<exists>hs. set hs = wr_connections s \<and> distinct hs \<and>
       filter (\<lambda>x. x \<noteq> R_stop_listening) (wr_ops (stop env s)) =
         filter (\<lambda>x. x \<noteq> R_stop_listening) (wr_ops s) @
         map (\<lambda>h. R_close h status_going_away ''Server shutdown'') hs)"
proof -
  have inv: "ws_server_inv s" using ws_server_reachable_inv[OF assms(1)] .
  let ?hs = "sorted_list_of_set (wr_connections s)"
  have "set ?hs = wr_connections s" "distinct ?hs" using inv by (simp_all add: ws_server_inv_def)
  moreover have "filter (\<lambda>x. x \<noteq> R_stop_listening) (wr_ops (stop env s)) =
      filter (\<lambda>x. x \<noteq> R_stop_listening) (wr_ops s) @
      map (\<lambda>h. R_close h status_going_away ''Server shutdown'') ?hs"
    using assms(2) by (simp add: stop_effect filter_map comp_def)
  moreover have "\<not> wr_loop (stop env s)" using inv by (simp add: stop_effect ws_server_inv_def)
  ultimately show ?thesis unfolding isListening_def using stop_effect(1,2)[of env s] by blast
qed

definition sample_ws_server_env :: "exn option \<Rightarrow> ws_server_env" where
  "sample_ws_server_env accept = \<lparr>wrv_make_address = \<lambda>_. None,
     wrv_listen = \<lambda>l _. if l then Some (StdException ''invalid state'') else None,
     wrv_start_accept = accept, wrv_stop_listening = None, wrv_close = \<lambda>_. None\<rparr>"

lemma sample_listening:
  "ws_server_runs (sample_ws_server_env None) new_ws_server (snd (listen (sample_ws_server_env None) ''h'' 1 new_ws_server))"
  "wr_loop (snd (listen (sample_ws_server_env None) ''h'' 1 new_ws_server))"
  "wr_thread (snd (listen (sample_ws_server_env None) ''h'' 1 new_ws_server))"
  "isListening (snd (listen (sample_ws_server_env None) ''h'' 1 new_ws_server))"
  by (meson ws_server_runs.intros ws_server_step.listens)
    (simp_all add: listen_def sample_ws_server_env_def new_ws_server_def isListening_def)

lemma stop_closes_connections_witness:
  "let s = server_open 5 (snd (listen (sample_ws_server_env None) ''h'' 1 new_ws_server))
   in \<not> isListening (stop (sample_ws_server_env None) s) \<and> wr_connections s = {5}"
proof -
  let ?l = "snd (listen (sample_ws_server_env None) ''h'' 1 new_ws_server)"
  have "ws_server_runs (sample_ws_server_env None) new_ws_server (server_open 5 ?l)"
    using sample_listening(1,2) by (meson ws_server_runs.intros ws_server_step.opened)
  from stop_closes_connections[OF this] have "\<not> isListening (stop (sample_ws_server_env None) (server_open 5 ?l))"
    by (simp add: sample_ws_server_env_def)
  moreover have "wr_connections ?l = {}"
    by (simp add: listen_def sample_ws_server_env_def new_ws_server_def)
  ultimately show ?thesis by (simp add: server_open_def)
qed

text \<open>
  C15. A server listens once. After it has been listening and was stopped, no connection
  is ever opened again, whatever is called later, although \<open>listen\<close> succeeds and
  \<open>isListening\<close> is true; and after a \<open>listen\<close> that could not start to accept,
  \<open>isListening\<close> is false for ever if the library refuses to listen on an endpoint that
  is already listening.
\<close>

theorem server_listens_once:
  assumes "ws_server_runs env new_ws_server s"
  shows "(isListening s \<longrightarrow> ws_server_runs env (stop env s) t \<longrightarrow> wr_opened t = wr_opened s) \<and>
    ((\<forall>p. wrv_listen env True p \<noteq> None) \<longrightarrow> wrv_start_accept env \<noteq> None \<longrightarrow>
       wrv_make_address env host = None \<longrightarrow> \<not> isListening s \<longrightarrow>
       ws_server_runs env (snd (listen env host port s)) t \<longrightarrow> wrv_listen env (wr_acceptor s) port = None \<longrightarrow>
       \<not> isListening t)"
proof (intro conjI impI)
  assume l: "isListening s" and run: "ws_server_runs env (stop env s) t"
  have "\<not> wr_loop (stop env s) \<and> wr_stopped (stop env s)"
    using ws_server_reachable_inv[OF assms] l by (simp add: ws_server_inv_def stop_effect isListening_def)
  from ws_server_over_runs[OF run this] show "wr_opened t = wr_opened s" by (simp add: stop_effect)
next
  assume a: "\<forall>p. wrv_listen env True p \<noteq> None" "wrv_start_accept env \<noteq> None"
    "wrv_make_address env host = None" "\<not> isListening s" "wrv_listen env (wr_acceptor s) port = None"
    and run: "ws_server_runs env (snd (listen env host port s)) t"
  have "wr_acceptor (snd (listen env host port s)) \<and> \<not> wr_listening (snd (listen env host port s))"
    using a by (simp add: listen_def isListening_def)
  from ws_server_stuck_runs[OF run a(1) this] show "\<not> isListening t" by (simp add: isListening_def)
qed

lemma server_listens_once_witness:
  "let env = sample_ws_server_env None; s = snd (listen env ''h'' 1 new_ws_server);
       t = snd (listen env ''h'' 1 (stop env s))
   in isListening t \<and> wr_opened t = []"
proof -
  let ?e = "sample_ws_server_env None"
  let ?s = "snd (listen ?e ''h'' 1 new_ws_server)"
  let ?t = "snd (listen ?e ''h'' 1 (stop ?e ?s))"
  have run: "ws_server_runs ?e (stop ?e ?s) ?t" by (meson ws_server_runs.intros ws_server_step.listens)
  have "wr_opened ?t = wr_opened ?s"
    using server_listens_once[OF sample_listening(1), of ?t] sample_listening(4) run by blast
  moreover have "wr_opened ?s = []" by (simp add: listen_effect new_ws_server_def)
  moreover have "isListening ?t"
    by (simp add: listen_def isListening_def stop_effect sample_ws_server_env_def new_ws_server_def Let_def)
  ultimately show ?thesis by (simp add: Let_def)
qed

end
