(* ===== verification/Ws_Server_Life.thy ===== *)
theory Ws_Server_Life
  imports Ws_Server Forward_Simulation
begin

text \<open>
  The WebSocket server as its users see it (\<^verbatim>\<open>src/WebSockets/server.hpp\<close>): its public
  operations as a type of calls, interleaved with the events its loop dispatches, and the phases
  it goes through.
\<close>

subsection \<open>Calls and events\<close>

datatype ws_server_call = Listen string u16 | Stop | Is_listening

datatype ws_server_answer = Nothing | Threw exn | Listening bool

fun do_ws_server_call ::
  "ws_server_env \<Rightarrow> ws_server_call \<Rightarrow> ws_server \<Rightarrow> ws_server_answer \<times> ws_server" where
  "do_ws_server_call env (Listen host port) s =
     (case listen env host port s of (Inl e, t) \<Rightarrow> (Threw e, t) | (Inr u, t) \<Rightarrow> (Nothing, t))"
| "do_ws_server_call env Stop s = (Nothing, stop env s)"
| "do_ws_server_call env Is_listening s = (Listening (isListening s), s)"

datatype ws_server_event = Opened nat | Closed nat u16 | Message bool string | Failed nat | Http_request nat

fun on_server_event :: "ws_server_event \<Rightarrow> ws_server \<Rightarrow> ws_server" where
  "on_server_event (Opened hdl) s = server_open hdl s"
| "on_server_event (Closed hdl code) s = server_close hdl code s"
| "on_server_event (Message text payload) s = server_message text payload s"
| "on_server_event (Failed hdl) s = server_fail hdl s"
| "on_server_event (Http_request hdl) s = server_http hdl s"

datatype ws_server_act = Call ws_server_call | Event ws_server_event

text \<open>An event is dispatched while the thread is in the loop; the environment may differ from call to call.\<close>

fun do_ws_server_act :: "ws_server_env \<Rightarrow> ws_server_act \<Rightarrow> ws_server \<Rightarrow> ws_server_answer \<times> ws_server" where
  "do_ws_server_act env (Call x) s = do_ws_server_call env x s"
| "do_ws_server_act env (Event e) s = (Nothing, if wr_loop s then on_server_event e s else s)"

inductive ws_server_act_step :: "ws_server \<Rightarrow> ws_server \<Rightarrow> bool" where
  act: "ws_server_act_step s (snd (do_ws_server_act env x s))"

subsection \<open>Phases\<close>

text \<open>
  A server has never listened; it serves; it was stopped after it had listened; or it listens again and is
  deaf, since its I/O service stays stopped.
\<close>

datatype ws_phase = Fresh | Serving | Over | Deaf

record ws_life =
  wl_phase :: ws_phase
  wl_acceptor :: bool
  wl_connections :: "nat set"

inductive ws_life_step :: "ws_life \<Rightarrow> ws_life \<Rightarrow> bool" where
  opens: "ws_life_step l (l\<lparr>wl_acceptor := True\<rparr>)"
| serves: "wl_phase l = Fresh \<Longrightarrow> ws_life_step l (l\<lparr>wl_phase := Serving, wl_acceptor := True\<rparr>)"
| deafens: "wl_phase l = Over \<Longrightarrow> ws_life_step l (l\<lparr>wl_phase := Deaf, wl_acceptor := True\<rparr>)"
| stops: "wl_phase l \<in> {Serving, Deaf} \<Longrightarrow> ws_life_step l (l\<lparr>wl_phase := Over, wl_acceptor := b, wl_connections := {}\<rparr>)"
| connects: "wl_phase l = Serving \<Longrightarrow> ws_life_step l (l\<lparr>wl_connections := insert h (wl_connections l)\<rparr>)"
| leaves: "wl_phase l = Serving \<Longrightarrow> ws_life_step l (l\<lparr>wl_connections := wl_connections l - {h}\<rparr>)"

definition ws_life_of :: "ws_server \<Rightarrow> ws_life" where
  "ws_life_of s = \<lparr>wl_phase = (if wr_listening s then if wr_stopped s then Deaf else Serving
       else if wr_stopped s then Over else Fresh),
     wl_acceptor = wr_acceptor s, wl_connections = wr_connections s\<rparr>"

text \<open>Connections exist only while the server serves.\<close>

definition ws_life_ok :: "ws_life \<Rightarrow> bool" where
  "ws_life_ok l \<longleftrightarrow> (wl_phase l \<noteq> Serving \<longrightarrow> wl_connections l = {})"

definition ws_server_ok :: "ws_server \<Rightarrow> bool" where
  "ws_server_ok s \<longleftrightarrow> ws_server_inv s \<and> (wr_thread s \<longrightarrow> wr_listening s) \<and> ws_life_ok (ws_life_of s)"

lemma ws_life_step_ok: "ws_life_step l m \<Longrightarrow> ws_life_ok l \<Longrightarrow> ws_life_ok m"
  by (induction rule: ws_life_step.induct) (auto simp: ws_life_ok_def)

text \<open>Once over, never serving again.\<close>

lemma ws_life_step_over: "ws_life_step l m \<Longrightarrow> wl_phase l \<in> {Over, Deaf} \<Longrightarrow> wl_phase m \<in> {Over, Deaf}"
  by (induction rule: ws_life_step.induct) auto

lemma ws_life_over: "ws_life_step\<^sup>*\<^sup>* l m \<Longrightarrow> wl_phase l \<in> {Over, Deaf} \<Longrightarrow> wl_phase m \<in> {Over, Deaf}"
  by (induction rule: rtranclp_induct) (auto dest: ws_life_step_over)

lemma ws_loop_iff: "ws_server_ok s \<Longrightarrow> wr_loop s \<longleftrightarrow> wl_phase (ws_life_of s) = Serving"
  by (auto simp: ws_server_ok_def ws_server_inv_def ws_life_of_def)

lemma listen_life:
  assumes "ws_server_ok s"
  shows "ws_life_step\<^sup>*\<^sup>* (ws_life_of s) (ws_life_of (snd (listen env h p s))) \<and> ws_server_ok (snd (listen env h p s))"
proof -
  let ?t = "snd (listen env h p s)"
  have inv: "ws_server_inv ?t" using assms listen_inv by (simp add: ws_server_ok_def)
  have "?t = s \<or> ws_life_of ?t = (ws_life_of s)\<lparr>wl_acceptor := True\<rparr> \<or>
      wl_phase (ws_life_of s) = Fresh \<and> ws_life_of ?t = (ws_life_of s)\<lparr>wl_phase := Serving, wl_acceptor := True\<rparr> \<or>
      wl_phase (ws_life_of s) = Over \<and> ws_life_of ?t = (ws_life_of s)\<lparr>wl_phase := Deaf, wl_acceptor := True\<rparr>"
    using assms by (cases rule: listen_cases[of env h p s]) (auto simp: ws_server_ok_def ws_life_of_def)
  then have run: "ws_life_step\<^sup>*\<^sup>* (ws_life_of s) (ws_life_of ?t)"
    using ws_life_step.opens ws_life_step.serves ws_life_step.deafens
    by (metis r_into_rtranclp rtranclp.rtrancl_refl)
  have "ws_life_ok (ws_life_of ?t)"
    using run ws_life_step_ok assms unfolding ws_server_ok_def
    by (induction rule: rtranclp_induct) auto
  moreover have "wr_thread ?t \<longrightarrow> wr_listening ?t"
    using assms by (cases rule: listen_cases[of env h p s]) (auto simp: ws_server_ok_def)
  ultimately show ?thesis using run inv by (simp add: ws_server_ok_def)
qed

lemma stop_life:
  assumes "ws_server_ok s"
  shows "ws_life_step\<^sup>*\<^sup>* (ws_life_of s) (ws_life_of (stop env s)) \<and> ws_server_ok (stop env s)"
proof -
  let ?t = "stop env s"
  have inv: "ws_server_inv ?t" using assms stop_inv by (simp add: ws_server_ok_def)
  have ok: "ws_server_ok ?t" using inv by (auto simp: ws_server_ok_def ws_life_ok_def ws_life_of_def stop_effect)
  show ?thesis
  proof (cases "wr_listening s")
    case True
    then have "wr_thread s" using assms by (auto simp: ws_server_ok_def ws_server_inv_def)
    then have "ws_life_of ?t = (ws_life_of s)\<lparr>wl_phase := Over, wl_acceptor := wr_acceptor ?t, wl_connections := {}\<rparr>"
      by (simp add: ws_life_of_def stop_effect(1-6))
    moreover have "wl_phase (ws_life_of s) \<in> {Serving, Deaf}" using True by (simp add: ws_life_of_def)
    ultimately show ?thesis using ws_life_step.stops ok by (metis r_into_rtranclp)
  next
    case False
    then have "\<not> wr_thread s" "wr_connections s = {}"
      using assms by (auto simp: ws_server_ok_def ws_life_ok_def ws_life_of_def split: if_splits)
    then have "ws_life_of ?t = ws_life_of s" using False by (simp add: ws_life_of_def stop_effect)
    then show ?thesis using ok by simp
  qed
qed

lemma event_life:
  assumes "ws_server_ok s" and "wr_loop s"
  shows "ws_life_step\<^sup>*\<^sup>* (ws_life_of s) (ws_life_of (on_server_event e s)) \<and> ws_server_ok (on_server_event e s)"
proof -
  have ph: "wl_phase (ws_life_of s) = Serving" using ws_loop_iff[OF assms(1)] assms(2) by simp
  show ?thesis
  proof (cases e)
    case (Opened h)
    then have "ws_life_of (on_server_event e s) = (ws_life_of s)\<lparr>wl_connections := insert h (wl_connections (ws_life_of s))\<rparr>"
      by (simp add: ws_life_of_def server_open_def)
    then show ?thesis using ws_life_step.connects[OF ph, of h] assms ph Opened
      by (auto simp: ws_server_ok_def ws_server_inv_def server_open_def ws_life_ok_def)
  next
    case (Closed h code)
    then have "ws_life_of (on_server_event e s) = (ws_life_of s)\<lparr>wl_connections := wl_connections (ws_life_of s) - {h}\<rparr>"
      by (simp add: ws_life_of_def server_close_def)
    then show ?thesis using ws_life_step.leaves[OF ph, of h] assms ph Closed
      by (auto simp: ws_server_ok_def ws_server_inv_def server_close_def ws_life_ok_def)
  qed (use assms in \<open>auto simp: server_message_def server_fail_def server_http_def wr_op_def ws_server_ok_def
        ws_server_inv_def ws_life_of_def\<close>)
qed

lemma ws_server_act_life:
  assumes "ws_server_ok s" and "ws_server_act_step s t"
  shows "ws_life_step\<^sup>*\<^sup>* (ws_life_of s) (ws_life_of t) \<and> ws_server_ok t"
  using assms(2)
proof cases
  case (act env x)
  show ?thesis
  proof (cases x)
    case (Call c)
    then show ?thesis using act listen_life[OF assms(1)] stop_life[OF assms(1)] assms(1)
      by (cases c) (auto split: prod.split sum.split simp: prod.case_eq_if)
  next
    case (Event e)
    then show ?thesis using act event_life[OF assms(1)] assms(1) by simp
  qed
qed

interpretation ws_life: simulation ws_server_act_step ws_life_step ws_server_ok ws_life_ok "\<lambda>s l. ws_life_of s = l"
  by unfold_locales (use ws_server_act_life ws_life_step_ok in blast)+

subsection \<open>Properties\<close>

lemma over_opens_nothing:
  assumes "ws_server_act_step\<^sup>*\<^sup>* s t" and "ws_server_ok s" and "wl_phase (ws_life_of s) \<in> {Over, Deaf}"
  shows "wr_opened t = wr_opened s"
  using assms(1)
proof (induction rule: rtranclp_induct)
  case (step t u)
  obtain l where l: "ws_life_step\<^sup>*\<^sup>* (ws_life_of s) l" "ws_life_of t = l"
    using ws_life.simulates_runs[OF step.hyps(1) assms(2) _ HOL.refl] assms(2) by (auto simp: ws_server_ok_def)
  have "ws_server_ok t" by (rule ws_life.cinv_runs[OF step.hyps(1) assms(2)])
  then have quiet: "\<not> wr_loop t" using ws_loop_iff ws_life_over[OF l(1) assms(3)] l(2) by fastforce
  from step.hyps(2) have "wr_opened u = wr_opened t"
  proof cases
    case (act env x)
    then show ?thesis
    proof (cases x)
      case (Call c)
      then show ?thesis using act listen_effect(2)
        by (cases c) (auto simp: stop_effect split: prod.split sum.split simp: prod.case_eq_if)
    qed (use quiet in simp)
  qed
  then show ?case using step.IH by simp
qed simp

text \<open>
  C14. The phases of the server. However calls and events are interleaved, and whatever the library answers to
  each call, the server goes through the phases of the abstract machine. \<open>isListening\<close> is true when it serves and
  when it is deaf; it has connections and handles events only while it serves; and once it was
  stopped after serving it never serves again: no connection is opened any more.
\<close>

theorem ws_server_refines_life:
  assumes "ws_server_act_step\<^sup>*\<^sup>* new_ws_server s"
  shows "ws_life_step\<^sup>*\<^sup>* \<lparr>wl_phase = Fresh, wl_acceptor = False, wl_connections = {}\<rparr> (ws_life_of s) \<and>
    (isListening s \<longleftrightarrow> wl_phase (ws_life_of s) \<in> {Serving, Deaf}) \<and>
    (wl_phase (ws_life_of s) \<noteq> Serving \<longrightarrow>
       wr_connections s = {} \<and> do_ws_server_act env (Event e) s = (Nothing, s)) \<and>
    (wl_phase (ws_life_of s) \<in> {Over, Deaf} \<longrightarrow> ws_server_act_step\<^sup>*\<^sup>* s t \<longrightarrow>
       wl_phase (ws_life_of t) \<in> {Over, Deaf} \<and> wr_opened t = wr_opened s)"
proof -
  have new: "ws_life_of new_ws_server = \<lparr>wl_phase = Fresh, wl_acceptor = False, wl_connections = {}\<rparr>"
    "ws_server_ok new_ws_server"
    by (simp_all add: ws_life_of_def new_ws_server_def ws_server_ok_def ws_server_inv_def ws_life_ok_def)
  have ok: "ws_server_ok s" by (rule ws_life.cinv_runs[OF assms new(2)])
  have lok: "ws_life_ok (ws_life_of s)" using ok by (simp add: ws_server_ok_def)
  have "ws_life_step\<^sup>*\<^sup>* (ws_life_of new_ws_server) (ws_life_of s)"
    using ws_life.simulates_runs[OF assms new(2) _ HOL.refl] new(2) by (auto simp: ws_server_ok_def)
  moreover have "isListening s \<longleftrightarrow> wl_phase (ws_life_of s) \<in> {Serving, Deaf}"
    by (simp add: isListening_def ws_life_of_def)
  moreover have "wr_connections s = {} \<and> do_ws_server_act env (Event e) s = (Nothing, s)"
    if "wl_phase (ws_life_of s) \<noteq> Serving"
    using that lok ws_loop_iff[OF ok] by (simp add: ws_life_ok_def) (simp add: ws_life_of_def)
  moreover have "wl_phase (ws_life_of t) \<in> {Over, Deaf} \<and> wr_opened t = wr_opened s"
    if p: "wl_phase (ws_life_of s) \<in> {Over, Deaf}" and run: "ws_server_act_step\<^sup>*\<^sup>* s t"
    using ws_life.simulates_runs[OF run ok lok HOL.refl] ws_life_over[OF _ p] over_opens_nothing[OF run ok p] by blast
  ultimately show ?thesis using new(1) by simp
qed

lemma ws_server_refines_life_witness:
  "\<exists>s. ws_server_act_step\<^sup>*\<^sup>* new_ws_server s \<and> isListening s \<and>
     do_ws_server_act (sample_ws_server_env None) (Event (Opened 5)) s = (Nothing, s)"
proof -
  let ?env = "sample_ws_server_env None"
  let ?do = "\<lambda>x s. snd (do_ws_server_act ?env (Call x) s)"
  let ?s = "?do (Listen ''h'' 1) (?do Stop (?do (Listen ''h'' 1) new_ws_server))"
  have run: "ws_server_act_step\<^sup>*\<^sup>* new_ws_server ?s"
    by (meson ws_server_act_step.act converse_rtranclp_into_rtranclp rtranclp.rtrancl_refl)
  have "wl_phase (ws_life_of ?s) = Deaf"
    by (simp add: ws_life_of_def listen_def stop_effect sample_ws_server_env_def new_ws_server_def Let_def)
  with ws_server_refines_life[OF run, of ?env] run show ?thesis by (intro exI[of _ ?s]) auto
qed

end
