(* ===== verification/Ws_Session.thy ===== *)
theory Ws_Session
  imports Http_Types
begin

text \<open>
  The client sessions over WebSocket (\<^verbatim>\<open>src/WebSockets/websocketsession.cpp\<close>), plain and
  over TLS: resolving, connecting, the handshake, the read loop, sending and closing. The
  calls of Boost are recorded in \<open>wss_ops\<close>; the answers of the blocking ones are the
  argument \<open>env\<close>. Both sessions read into one buffer; what that means for the data they deliver is
  the locale \<open>accumulating_reader\<close>.
\<close>

subsection \<open>Readers that never consume their buffer\<close>

locale accumulating_reader =
  fixes receive :: "string \<Rightarrow> 's \<Rightarrow> 's"
    and buffer :: "'s \<Rightarrow> string"
    and delivered :: "'s \<Rightarrow> string list"
    and ready :: "'s \<Rightarrow> bool"
  assumes buffer_receive: "buffer (receive m s) = buffer s @ m"
    and delivered_receive: "ready s \<Longrightarrow> delivered (receive m s) = delivered s @ [buffer s @ m]"
    and ready_receive: "ready s \<Longrightarrow> ready (receive m s)"
begin

lemma buffer_foldl: "buffer (foldl (\<lambda>s m. receive m s) s ms) = buffer s @ concat ms"
  by (induction ms arbitrary: s) (simp_all add: buffer_receive)

lemma ready_foldl: "ready s \<Longrightarrow> ready (foldl (\<lambda>s m. receive m s) s ms)"
  by (induction ms arbitrary: s) (simp_all add: ready_receive)

lemma delivered_foldl:
  "ready s \<Longrightarrow> delivered (foldl (\<lambda>s m. receive m s) s ms) =
     delivered s @ map (\<lambda>k. buffer s @ concat (take (Suc k) ms)) [0..<length ms]"
proof (induction ms rule: rev_induct)
  case (snoc m ms)
  let ?t = "foldl (\<lambda>s m. receive m s) s ms"
  have "delivered (receive m ?t) = delivered ?t @ [buffer s @ concat ms @ m]"
    using delivered_receive[OF ready_foldl[OF snoc.prems, of ms], of m] by (simp add: buffer_foldl)
  moreover have "map (\<lambda>k. buffer s @ concat (take (Suc k) (ms @ [m]))) [0..<length ms] =
      map (\<lambda>k. buffer s @ concat (take (Suc k) ms)) [0..<length ms]"
    by (intro map_cong) auto
  ultimately show ?case using snoc.IH[OF snoc.prems] by simp
qed simp

end

subsection \<open>State\<close>

datatype ws_session_op =
    W_resolve string string | W_expires_after nat | W_async_connect | W_expires_never
  | W_suggested_timeouts | W_async_handshake string | W_async_read | W_write string
  | W_cancel_resolver | W_close u16 | W_tls_handshake | W_verify_none

record ws_session =
  wss_host :: string
  wss_buffer :: string
  wss_isConnected :: bool
  wss_readCallback :: bool
  wss_closeCallback :: bool
  wss_delivered :: "string list"
  wss_closes :: nat
  wss_ops :: "ws_session_op list"

record ws_session_env =
  wsv_resolve :: "string \<Rightarrow> string \<Rightarrow> exn option"
  wsv_connect :: "exn option"
  wsv_tls :: "exn option"
  wsv_write :: "string \<Rightarrow> exn + nat"
  wsv_close :: "ws_session_op list \<Rightarrow> exn option"

definition new_ws_session :: ws_session where
  "new_ws_session = \<lparr>wss_host = [], wss_buffer = [], wss_isConnected = False, wss_readCallback = False,
     wss_closeCallback = False, wss_delivered = [], wss_closes = 0, wss_ops = []\<rparr>"

definition w_op :: "ws_session_op \<Rightarrow> ws_session \<Rightarrow> ws_session" where
  "w_op x s = s\<lparr>wss_ops := wss_ops s @ [x]\<rparr>"

definition call_closeCallback :: "ws_session \<Rightarrow> ws_session" where
  "call_closeCallback s = (if wss_closeCallback s then s\<lparr>wss_closes := Suc (wss_closes s)\<rparr> else s)"

subsection \<open>The plain session\<close>

definition start :: "string \<Rightarrow> string \<Rightarrow> ws_session \<Rightarrow> ws_session" where
  "start host port s = w_op (W_resolve host port) (s\<lparr>wss_host := host\<rparr>)"

definition isConnected :: "ws_session \<Rightarrow> bool" where
  "isConnected s = wss_isConnected s"

definition on_resolve :: "error_code \<Rightarrow> ws_session \<Rightarrow> ws_session" where
  "on_resolve ec s = (if ec \<noteq> Success then s else w_op W_async_connect (w_op (W_expires_after 10) s))"

definition on_connect :: "error_code \<Rightarrow> u16 \<Rightarrow> ws_session \<Rightarrow> ws_session" where
  "on_connect ec port s =
     (if ec \<noteq> Success then call_closeCallback (s\<lparr>wss_isConnected := False\<rparr>)
      else let s1 = w_op W_suggested_timeouts (w_op W_expires_never s);
               s2 = s1\<lparr>wss_host := wss_host s1 @ '':'' @ to_dec (unat port)\<rparr>
           in (w_op (W_async_handshake (wss_host s2)) s2)\<lparr>wss_isConnected := True\<rparr>)"

definition on_handshake :: "error_code \<Rightarrow> ws_session \<Rightarrow> ws_session" where
  "on_handshake ec s = (if ec \<noteq> Success then s else w_op W_async_read (s\<lparr>wss_isConnected := True\<rparr>))"

text \<open>The bytes read are appended to the buffer; the callback gets all it holds.\<close>

definition on_read :: "error_code \<Rightarrow> string \<Rightarrow> ws_session \<Rightarrow> ws_session" where
  "on_read ec message s =
     (let s0 = s\<lparr>wss_buffer := wss_buffer s @ message\<rparr> in
      if ec \<noteq> Success then call_closeCallback s0
      else let s1 = (if wss_readCallback s0 then s0\<lparr>wss_delivered := wss_delivered s0 @ [wss_buffer s0]\<rparr> else s0)
           in w_op W_async_read s1)"

definition send :: "ws_session_env \<Rightarrow> string \<Rightarrow> ws_session \<Rightarrow> bool res \<times> ws_session" where
  "send env iStr s =
     (let s1 = w_op (W_write iStr) s in
      (case wsv_write env iStr of Inl e \<Rightarrow> Inl e | Inr n \<Rightarrow> Inr (n \<noteq> 0), s1))"

definition setReadCallback :: "bool \<Rightarrow> ws_session \<Rightarrow> ws_session" where
  "setReadCallback nonempty s = s\<lparr>wss_readCallback := nonempty\<rparr>"

definition setCloseCallback :: "bool \<Rightarrow> ws_session \<Rightarrow> ws_session" where
  "setCloseCallback nonempty s = s\<lparr>wss_closeCallback := nonempty\<rparr>"

definition close :: "ws_session_env \<Rightarrow> ws_session \<Rightarrow> unit res \<times> ws_session" where
  "close env s =
     (if \<not> wss_isConnected s then (Inr (), s)
      else let s1 = w_op W_cancel_resolver s; s2 = w_op (W_close 1000) s1 in
        (case wsv_close env (wss_ops s1) of Some e \<Rightarrow> (Inl e, s2) | None \<Rightarrow> (Inr (), s2)))"

text \<open>The destructor calls \<open>close\<close>; an exception that leaves it terminates the process (\<open>None\<close>).\<close>

definition destroy_session :: "ws_session_env \<Rightarrow> ws_session \<Rightarrow> ws_session option" where
  "destroy_session env s = (case close env s of (Inl e, _) \<Rightarrow> None | (Inr _, s') \<Rightarrow> Some s')"

subsection \<open>The session over TLS\<close>

text \<open>The constructor turns the verification of certificates off.\<close>

definition new_secure_session :: ws_session where
  "new_secure_session = w_op W_verify_none new_ws_session"

text \<open>Resolving, connecting and the TLS handshake block and may throw.\<close>

definition secure_start :: "ws_session_env \<Rightarrow> string \<Rightarrow> string \<Rightarrow> ws_session \<Rightarrow> unit res \<times> ws_session" where
  "secure_start env host port s =
     (let s1 = w_op (W_resolve host port) (s\<lparr>wss_host := host\<rparr>) in
      case wsv_resolve env host port of Some e \<Rightarrow> (Inl e, s1) | None \<Rightarrow>
      case wsv_connect env of Some e \<Rightarrow> (Inl e, s1) | None \<Rightarrow>
      let s2 = w_op W_tls_handshake s1 in
      case wsv_tls env of Some e \<Rightarrow> (Inl e, s2) | None \<Rightarrow>
      (Inr (), w_op (W_async_handshake host) s2))"

definition secure_on_handshake :: "error_code \<Rightarrow> ws_session \<Rightarrow> ws_session" where
  "secure_on_handshake ec s = (if ec \<noteq> Success then s else w_op W_async_read (s\<lparr>wss_isConnected := True\<rparr>))"

definition secure_on_read :: "error_code \<Rightarrow> string \<Rightarrow> ws_session \<Rightarrow> ws_session" where
  "secure_on_read ec message s =
     (let s0 = s\<lparr>wss_buffer := wss_buffer s @ message\<rparr> in
      if ec \<noteq> Success then call_closeCallback s0
      else let s1 = (if wss_readCallback s0 then s0\<lparr>wss_delivered := wss_delivered s0 @ [wss_buffer s0]\<rparr> else s0)
           in w_op W_async_read s1)"

definition secure_send :: "ws_session_env \<Rightarrow> string \<Rightarrow> ws_session \<Rightarrow> bool res \<times> ws_session" where
  "secure_send env iStr s =
     (let s1 = w_op (W_write iStr) s in
      (case wsv_write env iStr of Inl e \<Rightarrow> Inl e | Inr n \<Rightarrow> Inr (n \<noteq> 0), s1))"

definition secure_setReadCallback :: "bool \<Rightarrow> ws_session \<Rightarrow> ws_session" where
  "secure_setReadCallback nonempty s = s\<lparr>wss_readCallback := nonempty\<rparr>"

definition secure_setCloseCallback :: "bool \<Rightarrow> ws_session \<Rightarrow> ws_session" where
  "secure_setCloseCallback nonempty s = s\<lparr>wss_closeCallback := nonempty\<rparr>"

definition secure_close :: "ws_session_env \<Rightarrow> ws_session \<Rightarrow> unit res \<times> ws_session" where
  "secure_close env s =
     (if \<not> wss_isConnected s then (Inr (), s)
      else let s1 = w_op W_cancel_resolver s; s2 = w_op (W_close 1000) s1 in
        (case wsv_close env (wss_ops s1) of Some e \<Rightarrow> (Inl e, s2) | None \<Rightarrow> (Inr (), s2)))"

definition secure_destroy_session :: "ws_session_env \<Rightarrow> ws_session \<Rightarrow> ws_session option" where
  "secure_destroy_session env s = (case secure_close env s of (Inl e, _) \<Rightarrow> None | (Inr _, s') \<Rightarrow> Some s')"

interpretation plain: accumulating_reader "on_read Success" wss_buffer wss_delivered wss_readCallback
  by unfold_locales (simp_all add: on_read_def w_op_def Let_def)

interpretation tls: accumulating_reader "secure_on_read Success" wss_buffer wss_delivered wss_readCallback
  by unfold_locales (simp_all add: secure_on_read_def w_op_def Let_def)

subsection \<open>Properties\<close>

definition read_all :: "(string \<Rightarrow> ws_session \<Rightarrow> ws_session) \<Rightarrow> string list \<Rightarrow> ws_session \<Rightarrow> ws_session" where
  "read_all f ms s = foldl (\<lambda>s m. f m s) s ms"

text \<open>
  C35. What the read callback gets. Since the buffer is never consumed, the callback is
  called once per message, but with everything received so far: the \<open>k\<close>-th call gets the
  first \<open>k\<close> messages, joined. The plain session and the one over TLS agree.
\<close>

theorem messages_accumulate:
  assumes "wss_readCallback s" and "wss_buffer s = []" and "wss_delivered s = []"
  shows "wss_delivered (read_all (on_read Success) ms s) =
      map (\<lambda>k. concat (take (Suc k) ms)) [0..<length ms] \<and>
    wss_delivered (read_all (secure_on_read Success) ms s) =
      wss_delivered (read_all (on_read Success) ms s)"
  using plain.delivered_foldl[OF assms(1), of ms] tls.delivered_foldl[OF assms(1), of ms] assms(2,3)
  by (simp add: read_all_def)

lemma messages_accumulate_witness:
  "wss_delivered (read_all (on_read Success) [''a'', ''b''] (new_ws_session\<lparr>wss_readCallback := True\<rparr>)) = [''a'', ''ab'']"
  using messages_accumulate[of "new_ws_session\<lparr>wss_readCallback := True\<rparr>" "[''a'', ''b'']"]
  by (simp add: new_ws_session_def upt_rec)

text \<open>
  The connected flag of the plain session is set as soon as the TCP connection is
  made. When the handshake then fails nothing is read and the close callback is not
  called, yet the session reports that it is connected; and a session that was closed, or whose
  read failed, keeps reporting it.
\<close>

theorem connected_flag_sticks:
  "isConnected (on_handshake ec (on_connect Success port s)) \<and>
   (ec \<noteq> Success \<longrightarrow> W_async_read \<notin> set (drop (length (wss_ops s)) (wss_ops (on_handshake ec (on_connect Success port s)))) \<and>
      wss_closes (on_handshake ec (on_connect Success port s)) = wss_closes s) \<and>
   (isConnected s \<longrightarrow> isConnected (snd (close env s)) \<and> isConnected (on_read ec' m s))"
  by (auto simp: isConnected_def on_handshake_def on_connect_def on_read_def close_def w_op_def
      call_closeCallback_def Let_def split: option.split)

lemma connected_flag_sticks_witness:
  "let s = on_handshake (OtherError 1) (on_connect Success 80 new_ws_session)
   in isConnected s \<and> W_async_read \<notin> set (drop 0 (wss_ops s))"
  using connected_flag_sticks[of "OtherError 1" 80 new_ws_session]
  by (simp add: new_ws_session_def Let_def)

text \<open>
  Destroying a session after closing it. If closing a stream that was closed before
  throws, then a session that was closed cannot be destroyed: the exception leaves its
  destructor and the process is terminated.
\<close>

theorem destroy_after_close_terminates:
  assumes "isConnected s" and "\<forall>ops. wsv_close env ops \<noteq> None \<longleftrightarrow> W_close 1000 \<in> set ops"
    and "W_close 1000 \<notin> set (wss_ops s)"
  shows "fst (close env s) = Inr () \<and> destroy_session env (snd (close env s)) = None \<and>
    (\<exists>t. destroy_session env s = Some t)"
proof -
  let ?s1 = "w_op W_cancel_resolver s"
  have "wsv_close env (wss_ops ?s1) = None" using assms(2)[rule_format, of "wss_ops ?s1"] assms(3) by (auto simp: w_op_def)
  then have c: "close env s = (Inr (), w_op (W_close 1000) ?s1)"
    using assms(1) by (simp add: close_def isConnected_def Let_def)
  have "W_close 1000 \<in> set (wss_ops (w_op W_cancel_resolver (w_op (W_close 1000) ?s1)))"
    by (simp add: w_op_def)
  then obtain e where "wsv_close env (wss_ops (w_op W_cancel_resolver (w_op (W_close 1000) ?s1))) = Some e"
    using assms(2) by blast
  moreover have "wss_isConnected (w_op (W_close 1000) ?s1)" using assms(1) by (simp add: w_op_def isConnected_def)
  ultimately have "close env (w_op (W_close 1000) ?s1) =
      (Inl e, w_op (W_close 1000) (w_op W_cancel_resolver (w_op (W_close 1000) ?s1)))"
    by (simp add: close_def Let_def)
  then show ?thesis using c by (simp add: destroy_session_def)
qed

lemma destroy_after_close_terminates_witness:
  "\<exists>env. destroy_session env (snd (close env (new_ws_session\<lparr>wss_isConnected := True\<rparr>))) = None"
proof -
  let ?env = "\<lparr>wsv_resolve = \<lambda>_ _. None, wsv_connect = None, wsv_tls = None, wsv_write = \<lambda>m. Inr (length m),
    wsv_close = \<lambda>ops. if W_close 1000 \<in> set ops then Some (StdException ''aborted'') else None\<rparr>"
  have "isConnected (new_ws_session\<lparr>wss_isConnected := True\<rparr>)"
    "\<forall>ops. wsv_close ?env ops \<noteq> None \<longleftrightarrow> W_close 1000 \<in> set ops"
    "W_close 1000 \<notin> set (wss_ops (new_ws_session\<lparr>wss_isConnected := True\<rparr>))"
    by (simp_all add: isConnected_def new_ws_session_def)
  from destroy_after_close_terminates[OF this] show ?thesis by blast
qed

end
