(* ===== verification/Ws_Session_Life.thy ===== *)
theory Ws_Session_Life
  imports Ws_Session
begin

text \<open>
  The lifetime of the client sessions over WebSocket (\<^verbatim>\<open>src/WebSockets/websocketsession.h\<close>):
  who owns a session, which of its asynchronous operations are outstanding, and when its
  destructor runs. The handlers of the plain session hold a shared pointer to it, those
  of the session over TLS a bare \<^verbatim>\<open>this\<close>.
\<close>

subsection \<open>A session, its owner and its operations\<close>

datatype session_kind = Plain | Secure

text \<open>
  \<open>sr_owner\<close>: the user still holds the shared pointer. \<open>sr_pending\<close>: the
  asynchronous operations that have not completed, oldest first. \<open>sr_alive\<close>: the destructor
  has not run.
\<close>

record session_run =
  sr_session :: ws_session
  sr_owner :: bool
  sr_alive :: bool
  sr_pending :: "ws_session_op list"

definition make_session :: "session_kind \<Rightarrow> session_run" where
  "make_session k = \<lparr>sr_session = (case k of Plain \<Rightarrow> new_ws_session | Secure \<Rightarrow> new_secure_session),
     sr_owner = True, sr_alive = True, sr_pending = []\<rparr>"

text \<open>Resolving is asynchronous in the plain session only.\<close>

fun is_async :: "session_kind \<Rightarrow> ws_session_op \<Rightarrow> bool" where
  "is_async Plain (W_resolve h p) = True"
| "is_async Plain W_async_connect = True"
| "is_async k (W_async_handshake h) = True"
| "is_async k W_async_read = True"
| "is_async k _ = False"

text \<open>The session after an operation; what that started is outstanding.\<close>

definition update_session :: "session_kind \<Rightarrow> (ws_session \<Rightarrow> ws_session) \<Rightarrow> session_run \<Rightarrow> session_run" where
  "update_session k f r =
     (let s = sr_session r; t = f s in
      r\<lparr>sr_session := t,
        sr_pending := sr_pending r @ filter (is_async k) (drop (length (wss_ops s)) (wss_ops t))\<rparr>)"

subsection \<open>Acts\<close>

text \<open>The owner's calls, giving up ownership, and the completion of the oldest outstanding operation.\<close>

datatype session_call =
    Start string string
  | Send string
  | Set_read_callback bool
  | Set_close_callback bool
  | Close

datatype session_act = Owner session_call | Release | Complete error_code u16 string

text \<open>An exception of a call reaches the caller and changes nothing else.\<close>

fun call_session :: "session_kind \<Rightarrow> ws_session_env \<Rightarrow> session_call \<Rightarrow> ws_session \<Rightarrow> ws_session" where
  "call_session Plain env (Start h p) s = start h p s"
| "call_session Plain env (Send m) s = snd (send env m s)"
| "call_session Plain env (Set_read_callback b) s = setReadCallback b s"
| "call_session Plain env (Set_close_callback b) s = setCloseCallback b s"
| "call_session Plain env Close s = snd (close env s)"
| "call_session Secure env (Start h p) s = snd (secure_start env h p s)"
| "call_session Secure env (Send m) s = snd (secure_send env m s)"
| "call_session Secure env (Set_read_callback b) s = secure_setReadCallback b s"
| "call_session Secure env (Set_close_callback b) s = secure_setCloseCallback b s"
| "call_session Secure env Close s = snd (secure_close env s)"

text \<open>The handler of an operation.\<close>

fun complete :: "session_kind \<Rightarrow> ws_session_op \<Rightarrow> error_code \<Rightarrow> u16 \<Rightarrow> string \<Rightarrow> ws_session \<Rightarrow> ws_session" where
  "complete Plain (W_resolve h p) ec port m s = on_resolve ec s"
| "complete Plain W_async_connect ec port m s = on_connect ec port s"
| "complete Plain (W_async_handshake h) ec port m s = on_handshake ec s"
| "complete Plain W_async_read ec port m s = on_read ec m s"
| "complete Secure (W_async_handshake h) ec port m s = secure_on_handshake ec s"
| "complete Secure W_async_read ec port m s = secure_on_read ec m s"
| "complete k _ ec port m s = s"

text \<open>
  Whether a handler uses the session: a failed handshake over TLS, alone, is only logged.
\<close>

fun uses_session :: "ws_session_op \<Rightarrow> error_code \<Rightarrow> bool" where
  "uses_session (W_async_handshake h) ec = (ec = Success)"
| "uses_session x ec = True"

text \<open>
  The destructor runs when the last shared pointer is gone: the owner's, and in the plain session
  those of the outstanding handlers. It closes the session; an exception there
  leaves the destructor, which ends the process (\<open>Throws\<close>).
\<close>

definition reap :: "session_kind \<Rightarrow> ws_session_env \<Rightarrow> session_run \<Rightarrow> session_run beh" where
  "reap k env r =
     (if \<not> sr_alive r \<or> sr_owner r \<or> (k = Plain \<and> sr_pending r \<noteq> []) then Returns r
      else (case (case k of Plain \<Rightarrow> destroy_session env (sr_session r)
                  | Secure \<Rightarrow> secure_destroy_session env (sr_session r)) of
              None \<Rightarrow> Throws (StdException ''terminate'')
            | Some s \<Rightarrow> Returns (r\<lparr>sr_session := s, sr_alive := False\<rparr>)))"

fun do_session_act :: "session_kind \<Rightarrow> ws_session_env \<Rightarrow> session_act \<Rightarrow> session_run \<Rightarrow> session_run beh" where
  "do_session_act k env (Owner x) r =
     (if \<not> sr_owner r then Returns r
      else if \<not> sr_alive r then UB
      else Returns (update_session k (call_session k env x) r))"
| "do_session_act k env Release r = reap k env (r\<lparr>sr_owner := False\<rparr>)"
| "do_session_act k env (Complete ec port m) r =
     (case sr_pending r of
        [] \<Rightarrow> Returns r
      | x # xs \<Rightarrow>
          if sr_alive r then reap k env (update_session k (complete k x ec port m) (r\<lparr>sr_pending := xs\<rparr>))
          else if k = Plain \<or> uses_session x ec then UB
          else Returns (r\<lparr>sr_pending := xs\<rparr>))"

fun session_acts :: "session_kind \<Rightarrow> (ws_session_env \<times> session_act) list \<Rightarrow> session_run \<Rightarrow> session_run beh" where
  "session_acts k [] r = Returns r"
| "session_acts k ((env, x) # xs) r = bind_beh (do_session_act k env x r) (\<lambda>r'. session_acts k xs r')"

lemma session_acts_append:
  "session_acts k (xs @ ys) r = bind_beh (session_acts k xs r) (\<lambda>r'. session_acts k ys r')"
proof (induction xs arbitrary: r)
  case (Cons x xs)
  then show ?case by (cases x, cases "do_session_act k (fst x) (snd x) r") auto
qed simp

subsection \<open>Lifetime\<close>

text \<open>A plain session lives exactly as long as somebody can still reach it.\<close>

definition plain_alive_inv :: "session_run \<Rightarrow> bool" where
  "plain_alive_inv r \<longleftrightarrow> (sr_alive r \<longleftrightarrow> sr_owner r \<or> sr_pending r \<noteq> [])"

lemma update_session_fields [simp]:
  "sr_owner (update_session k f r) = sr_owner r" "sr_alive (update_session k f r) = sr_alive r"
  "sr_session (update_session k f r) = f (sr_session r)"
  by (simp_all add: update_session_def Let_def)

lemma reap_plain:
  assumes "sr_alive r"
  shows "reap Plain env r \<noteq> UB" "reap Plain env r = Returns t \<Longrightarrow> plain_alive_inv t"
  using assms by (auto simp: reap_def plain_alive_inv_def split: option.splits if_splits)

lemma plain_act_alive:
  assumes "plain_alive_inv r"
  shows "do_session_act Plain env x r \<noteq> UB" "do_session_act Plain env x r = Returns t \<Longrightarrow> plain_alive_inv t"
proof -
  have "do_session_act Plain env x r \<noteq> UB \<and> (\<forall>t. do_session_act Plain env x r = Returns t \<longrightarrow> plain_alive_inv t)"
  proof (cases x)
    case (Owner y)
    then show ?thesis using assms by (auto simp: plain_alive_inv_def)
  next
    case Release
    show ?thesis
    proof (cases "sr_alive r")
      case True
      then show ?thesis using Release reap_plain[of "r\<lparr>sr_owner := False\<rparr>"] by simp
    next
      case False
      then show ?thesis using Release assms by (simp add: reap_def plain_alive_inv_def)
    qed
  next
    case (Complete ec port m)
    show ?thesis
    proof (cases "sr_pending r")
      case Nil
      then show ?thesis using Complete assms by simp
    next
      case (Cons y ys)
      then have "sr_alive r" using assms by (simp add: plain_alive_inv_def)
      then show ?thesis
        using Complete Cons reap_plain[of "update_session Plain (complete Plain y ec port m) (r\<lparr>sr_pending := ys\<rparr>)"]
        by simp
    qed
  qed
  then show "do_session_act Plain env x r \<noteq> UB" "do_session_act Plain env x r = Returns t \<Longrightarrow> plain_alive_inv t" by auto
qed

lemma plain_acts_alive:
  "plain_alive_inv r \<Longrightarrow> session_acts Plain xs r \<noteq> UB \<and> (\<forall>t. session_acts Plain xs r = Returns t \<longrightarrow> plain_alive_inv t)"
proof (induction xs arbitrary: r)
  case (Cons ex xs)
  obtain env x where ex: "ex = (env, x)" by fastforce
  show ?case
  proof (cases "do_session_act Plain env x r")
    case (Returns t)
    then show ?thesis using Cons.IH[OF plain_act_alive(2)[OF Cons.prems Returns]] ex by simp
  qed (use plain_act_alive(1)[OF Cons.prems] ex in simp_all)
qed simp

subsection \<open>Outstanding operations\<close>

definition started_by :: "session_kind \<Rightarrow> (ws_session \<Rightarrow> ws_session) \<Rightarrow> ws_session \<Rightarrow> ws_session_op list" where
  "started_by k f s = filter (is_async k) (drop (length (wss_ops s)) (wss_ops (f s)))"

lemma pending_update: "sr_pending (update_session k f r) = sr_pending r @ started_by k f (sr_session r)"
  by (simp add: update_session_def started_by_def Let_def)

lemma call_closeCallback_ops [simp]: "wss_ops (call_closeCallback s) = wss_ops s"
  by (simp add: call_closeCallback_def)

lemma started_by_complete: "length (started_by k (complete k x ec port m) s) \<le> 1"
proof (cases "(k, x, ec, port, m, s)" rule: complete.cases)
  case (1 h p ec port m s)
  then show ?thesis by (auto simp: started_by_def on_resolve_def w_op_def)
next
  case (2 ec port m s)
  then show ?thesis by (auto simp: started_by_def on_connect_def w_op_def Let_def)
next
  case (3 h ec port m s)
  then show ?thesis by (auto simp: started_by_def on_handshake_def w_op_def)
next
  case (4 ec port m s)
  then show ?thesis by (auto simp: started_by_def on_read_def w_op_def Let_def)
next
  case (5 h ec port m s)
  then show ?thesis by (auto simp: started_by_def secure_on_handshake_def w_op_def)
next
  case (6 ec port m s)
  then show ?thesis by (auto simp: started_by_def secure_on_read_def w_op_def Let_def)
qed (simp_all add: started_by_def)

fun is_start :: "session_act \<Rightarrow> bool" where
  "is_start (Owner (Start h p)) = True"
| "is_start x = False"

lemma started_by_call: "length (started_by k (call_session k env x) s) \<le> (if is_start (Owner x) then 1 else 0)"
  by (cases "(k, env, x, s)" rule: call_session.cases)
    (auto simp: started_by_def start_def send_def secure_send_def setReadCallback_def setCloseCallback_def
      secure_setReadCallback_def secure_setCloseCallback_def close_def secure_close_def secure_start_def
      w_op_def Let_def split: option.split)

lemma reap_pending: "reap k env r = Returns t \<Longrightarrow> sr_pending t = sr_pending r"
  by (auto simp: reap_def split: if_splits option.splits)

lemma session_act_pending:
  assumes "do_session_act k env x r = Returns t"
  shows "length (sr_pending t) \<le> length (sr_pending r) + (if is_start x then 1 else 0)"
proof (cases x)
  case (Owner y)
  then show ?thesis using assms started_by_call[of k env y "sr_session r"]
    by (auto simp: pending_update split: if_splits)
next
  case Release
  then show ?thesis using assms reap_pending[of k env "r\<lparr>sr_owner := False\<rparr>" t] by simp
next
  case (Complete ec port m)
  show ?thesis
  proof (cases "sr_pending r")
    case (Cons y ys)
    let ?u = "update_session k (complete k y ec port m) (r\<lparr>sr_pending := ys\<rparr>)"
    have "length (sr_pending ?u) \<le> Suc (length ys)"
      using started_by_complete[of k y ec port m "sr_session r"] by (simp add: pending_update)
    then show ?thesis using assms Complete Cons reap_pending[of k env ?u t] by (auto split: if_splits)
  qed (use assms Complete in simp)
qed

lemma session_acts_pending:
  "session_acts k xs r = Returns t \<Longrightarrow>
   length (sr_pending t) \<le> length (sr_pending r) + length (filter (\<lambda>(env, x). is_start x) xs)"
proof (induction xs arbitrary: r)
  case (Cons ex xs)
  obtain env x where ex: "ex = (env, x)" by fastforce
  obtain u where u: "do_session_act k env x r = Returns u" "session_acts k xs u = Returns t"
    using Cons.prems ex by auto
  show ?case using Cons.IH[OF u(2)] session_act_pending[OF u(1)] ex by (auto split: if_splits)
qed simp

subsection \<open>Properties\<close>





text \<open>
  C39. Outstanding operations. A session of either kind never has more asynchronous operations
  outstanding than it was started times; one that is started once never reads twice at the same
  time, which the stream does not allow.
\<close>

theorem one_operation_per_start:
  assumes "session_acts k xs (make_session k) = Returns t"
  shows "length (sr_pending t) \<le> length (filter (\<lambda>(env, x). is_start x) xs)"
  using session_acts_pending[OF assms] by (simp add: make_session_def)

lemma one_operation_per_start_witness:
  "\<forall>env. \<exists>t. session_acts Plain [(env, Owner (Start ''h'' ''80'')), (env, Complete Success 80 [])] (make_session Plain) = Returns t \<and>
     length (sr_pending t) \<le> 1"
proof
  fix env :: ws_session_env
  let ?xs = "[(env, Owner (Start ''h'' ''80'')), (env, Complete Success 80 [])]"
  have "\<exists>t. session_acts Plain ?xs (make_session Plain) = Returns t"
    by (simp add: make_session_def reap_def update_session_def start_def on_resolve_def w_op_def new_ws_session_def Let_def)
  then obtain t where t: "session_acts Plain ?xs (make_session Plain) = Returns t" by blast
  with one_operation_per_start[OF t] show "\<exists>t. session_acts Plain ?xs (make_session Plain) = Returns t \<and>
     length (sr_pending t) \<le> 1" by auto
qed

end
