(* ===== verification/Socket_Session.thy ===== *)
theory Socket_Session
  imports Http_Types
begin

text \<open>
  The client session over a plain TCP socket (\<^verbatim>\<open>src/BasicSocket/socketsession.cpp\<close>):
  connecting, the read loop over the fixed buffer, sending and closing. The buffer is
  modelled with its size, and what a read leaves in it. The calls of Boost are recorded in
  \<open>bs_ops\<close>; the answers of the blocking ones are the argument \<open>env\<close>, which is told
  whether the socket is open and connected.
\<close>

datatype socket_op = B_resolve string string | B_async_connect | B_read | B_write string | B_cancel | B_shutdown | B_close

record socket_session =
  bs_host :: string
  bs_bufferData :: string
  bs_isConnected :: bool
  bs_open :: bool
  bs_linked :: bool
  bs_readCallback :: bool
  bs_closeCallback :: bool
  bs_delivered :: "string list"
  bs_ops :: "socket_op list"

record socket_env =
  bsv_resolve :: "string \<Rightarrow> string \<Rightarrow> exn option"
  bsv_write :: "string \<Rightarrow> exn + nat"
  bsv_cancel :: "bool \<Rightarrow> exn option"
  bsv_shutdown :: "bool \<Rightarrow> exn option"
  bsv_close :: "exn option"

definition m_bufferSize :: nat where
  "m_bufferSize = 4096"

text \<open>\<open>indet\<close> stands for the uninitialised bytes of the buffer.\<close>

definition new_socket_session :: "string \<Rightarrow> socket_session" where
  "new_socket_session indet = \<lparr>bs_host = [], bs_bufferData = indet, bs_isConnected = False, bs_open = False,
     bs_linked = False, bs_readCallback = False, bs_closeCallback = False, bs_delivered = [], bs_ops = []\<rparr>"

definition b_op :: "socket_op \<Rightarrow> socket_session \<Rightarrow> socket_session" where
  "b_op x s = s\<lparr>bs_ops := bs_ops s @ [x]\<rparr>"

definition read :: "socket_session \<Rightarrow> socket_session" where
  "read s = b_op B_read s"

definition start :: "socket_env \<Rightarrow> string \<Rightarrow> string \<Rightarrow> socket_session \<Rightarrow> unit res \<times> socket_session" where
  "start env host port s =
     (let s1 = b_op (B_resolve host port) (s\<lparr>bs_host := host\<rparr>) in
      (case bsv_resolve env host port of
         Some e \<Rightarrow> (Inl e, s1)
       | None \<Rightarrow> (Inr (), b_op B_async_connect s1)))"

text \<open>An attempt on an address opens the socket, which stays open when the last attempt fails.\<close>

definition on_connected :: "error_code \<Rightarrow> bool \<Rightarrow> socket_session \<Rightarrow> socket_session" where
  "on_connected ec attempted s =
     (if ec \<noteq> Success then s\<lparr>bs_open := attempted\<rparr>
      else (read (s\<lparr>bs_open := True, bs_linked := True\<rparr>))\<lparr>bs_isConnected := True\<rparr>)"

definition isConnected :: "socket_session \<Rightarrow> bool" where
  "isConnected s = bs_isConnected s"

definition on_read_some :: "error_code \<Rightarrow> string \<Rightarrow> socket_session \<Rightarrow> socket_session" where
  "on_read_some ec received s =
     (let s0 = s\<lparr>bs_bufferData := overwrite received (bs_bufferData s)\<rparr> in
      if ec \<noteq> Success then s0
      else let response = take (length received) (bs_bufferData s0);
               s1 = (if bs_readCallback s0 then s0\<lparr>bs_delivered := bs_delivered s0 @ [response]\<rparr> else s0)
           in read s1)"

definition send :: "socket_env \<Rightarrow> string \<Rightarrow> socket_session \<Rightarrow> bool res \<times> socket_session" where
  "send env iStr s =
     (let data = iStr @ [CHR 0x0A]; s1 = b_op (B_write data) s in
      (case bsv_write env data of Inl e \<Rightarrow> Inl e | Inr n \<Rightarrow> Inr (n \<noteq> 0), s1))"

definition setReadCallback :: "bool \<Rightarrow> socket_session \<Rightarrow> socket_session" where
  "setReadCallback nonempty s = s\<lparr>bs_readCallback := nonempty\<rparr>"

definition setCloseCallback :: "bool \<Rightarrow> socket_session \<Rightarrow> socket_session" where
  "setCloseCallback nonempty s = s\<lparr>bs_closeCallback := nonempty\<rparr>"

definition close :: "socket_env \<Rightarrow> socket_session \<Rightarrow> unit res \<times> socket_session" where
  "close env s =
     (let s1 = b_op B_cancel s in
      case bsv_cancel env (bs_open s) of Some e \<Rightarrow> (Inl e, s1) | None \<Rightarrow>
      let s2 = b_op B_shutdown s1 in
      case bsv_shutdown env (bs_linked s) of Some e \<Rightarrow> (Inl e, s2) | None \<Rightarrow>
      let s3 = b_op B_close s2 in
      case bsv_close env of Some e \<Rightarrow> (Inl e, s3) | None \<Rightarrow>
      (Inr (), s3\<lparr>bs_open := False, bs_linked := False\<rparr>))"

text \<open>The destructor; an exception that leaves it terminates the process (\<open>None\<close>).\<close>

definition destroy_socket :: "socket_env \<Rightarrow> socket_session \<Rightarrow> socket_session option" where
  "destroy_socket env s = (case close env s of (Inl e, _) \<Rightarrow> None | (Inr _, s') \<Rightarrow> Some s')"

subsection \<open>Properties\<close>

lemma on_read_some_effect:
  assumes "length m \<le> length (bs_bufferData s)" and "bs_readCallback s"
  shows "bs_delivered (on_read_some Success m s) = bs_delivered s @ [m]"
    and "length (bs_bufferData (on_read_some Success m s)) = length (bs_bufferData s)"
    and "bs_readCallback (on_read_some Success m s)"
  using assms by (simp_all add: on_read_some_def read_def b_op_def overwrite_fits Let_def)

text \<open>
  Delivery. Each chunk the socket reads, up to the size of the buffer, is given to
  the read callback exactly as it was received, in order, and nothing of an earlier chunk
  with it.
\<close>

theorem chunks_delivered:
  assumes "length (bs_bufferData s) = m_bufferSize" and "bs_readCallback s"
    and "\<forall>m \<in> set ms. length m \<le> m_bufferSize"
  shows "bs_delivered (foldl (\<lambda>s m. on_read_some Success m s) s ms) = bs_delivered s @ ms"
  using assms
proof (induction ms arbitrary: s)
  case (Cons m ms)
  have "length m \<le> length (bs_bufferData s)" using Cons.prems by simp
  note e = on_read_some_effect[OF this Cons.prems(2)]
  show ?case using Cons.IH[of "on_read_some Success m s"] e Cons.prems by simp
qed simp

lemma chunks_delivered_witness:
  "bs_delivered (foldl (\<lambda>s m. on_read_some Success m s)
     (setReadCallback True (new_socket_session (replicate m_bufferSize nul))) [''abc'', ''d'']) = [''abc'', ''d'']"
  using chunks_delivered[of "setReadCallback True (new_socket_session (replicate m_bufferSize nul))" "[''abc'', ''d'']"]
  by (simp add: setReadCallback_def new_socket_session_def m_bufferSize_def)

text \<open>
  Destroying a session that is not connected (never started, failed to connect, or
  closed before) terminates the process, if shutting down an unconnected
  socket throws: the destructor closes without a check.
\<close>

theorem destroy_unconnected_terminates:
  assumes "\<forall>b. bsv_shutdown env b \<noteq> None \<longleftrightarrow> \<not> b"
    and "\<not> bs_linked s"
  shows "destroy_socket env s = None \<and>
    destroy_socket env (on_connected (OtherError v) attempted s) = None \<and>
    (fst (close env t) = Inr () \<longrightarrow> destroy_socket env (snd (close env t)) = None)"
proof -
  obtain e where e: "bsv_shutdown env False = Some e" using assms(1) by blast
  have *: "destroy_socket env u = None" if "\<not> bs_linked u" for u
    using that e by (simp add: destroy_socket_def close_def Let_def split: option.split)
  have "\<not> bs_linked (snd (close env t))" if "fst (close env t) = Inr ()"
    using that by (auto simp: close_def Let_def split: option.splits)
  then show ?thesis using assms(2) * by (simp add: on_connected_def)
qed

lemma destroy_unconnected_terminates_witness:
  "\<exists>env. destroy_socket env (new_socket_session []) = None"
proof -
  let ?env = "\<lparr>bsv_resolve = \<lambda>_ _. None, bsv_write = \<lambda>m. Inr (length m),
    bsv_cancel = \<lambda>b. if b then None else Some (StdException ''bad descriptor''),
    bsv_shutdown = \<lambda>b. if b then None else Some (StdException ''not connected''), bsv_close = None\<rparr>"
  have "\<forall>b. bsv_shutdown ?env b \<noteq> None \<longleftrightarrow> \<not> b"
    "\<not> bs_linked (new_socket_session [])"
    by (simp_all add: new_socket_session_def)
  from destroy_unconnected_terminates[OF this] show ?thesis by blast
qed

end
