(* ===== verification/Socket_Stream.thy ===== *)
theory Socket_Stream
  imports Socket_Session
begin

text \<open>
  The basic socket session on its connection (\<^verbatim>\<open>src/BasicSocket/socketsession.h\<close>): its public
  operations as a type of calls, the stream of bytes its peer sends, and the reads, which
  put their bytes into the one buffer of the session some time before their handler looks at it.
\<close>

subsection \<open>Calls\<close>

datatype socket_call =
    Start string string
  | Is_connected
  | Read
  | Send string
  | Set_read_callback bool
  | Set_close_callback bool
  | Close

datatype socket_answer = Nothing | Answer bool | Threw exn

fun do_socket_call :: "socket_env \<Rightarrow> socket_call \<Rightarrow> socket_session \<Rightarrow> socket_answer \<times> socket_session" where
  "do_socket_call env (Start host port) s =
     (case start env host port s of (Inl e, t) \<Rightarrow> (Threw e, t) | (Inr u, t) \<Rightarrow> (Nothing, t))"
| "do_socket_call env Is_connected s = (Answer (isConnected s), s)"
| "do_socket_call env Read s = (Nothing, read s)"
| "do_socket_call env (Send d) s =
     (case send env d s of (Inl e, t) \<Rightarrow> (Threw e, t) | (Inr b, t) \<Rightarrow> (Answer b, t))"
| "do_socket_call env (Set_read_callback b) s = (Nothing, setReadCallback b s)"
| "do_socket_call env (Set_close_callback b) s = (Nothing, setCloseCallback b s)"
| "do_socket_call env Close s =
     (case close env s of (Inl e, t) \<Rightarrow> (Threw e, t) | (Inr u, t) \<Rightarrow> (Nothing, t))"

subsection \<open>The session on its stream\<close>

text \<open>
  \<open>st_peer\<close>: all bytes the peer has sent; \<open>st_incoming\<close>: those not read yet. \<open>st_reads\<close> and \<open>st_connects\<close>:
  the operations that are outstanding. \<open>st_landed\<close>: the lengths of the reads that have put
  their bytes into the buffer and whose handler has not run.
\<close>

record socket_stream =
  st_session :: socket_session
  st_peer :: string
  st_incoming :: string
  st_reads :: nat
  st_connects :: nat
  st_landed :: "nat list"

definition new_stream :: "string \<Rightarrow> socket_stream" where
  "new_stream indet = \<lparr>st_session = new_socket_session indet, st_peer = [], st_incoming = [], st_reads = 0,
     st_connects = 0, st_landed = []\<rparr>"

text \<open>The session goes to a new state; the operations it has started are outstanding.\<close>

definition started :: "socket_op \<Rightarrow> socket_session \<Rightarrow> socket_session \<Rightarrow> nat" where
  "started x s t = length (filter (\<lambda>y. y = x) (drop (length (bs_ops s)) (bs_ops t)))"

definition session_to :: "socket_session \<Rightarrow> socket_stream \<Rightarrow> socket_stream" where
  "session_to t x = x\<lparr>st_session := t, st_reads := st_reads x + started B_read (st_session x) t,
     st_connects := st_connects x + started B_async_connect (st_session x) t\<rparr>"

text \<open>A read ends by putting bytes into the buffer; its handler then takes as many from there.\<close>

definition bytes_land :: "nat \<Rightarrow> socket_stream \<Rightarrow> socket_stream" where
  "bytes_land n x = x\<lparr>st_session := (st_session x)\<lparr>bs_bufferData :=
       overwrite (take n (st_incoming x)) (bs_bufferData (st_session x))\<rparr>,
     st_incoming := drop n (st_incoming x), st_reads := st_reads x - 1, st_landed := st_landed x @ [n]\<rparr>"

definition run_read_handler :: "nat \<Rightarrow> socket_session \<Rightarrow> socket_session" where
  "run_read_handler n s = on_read_some Success (take n (bs_bufferData s)) s"

text \<open>\<open>A\<close>: the calls the owner makes.\<close>

inductive socket_step :: "socket_call set \<Rightarrow> socket_stream \<Rightarrow> socket_stream \<Rightarrow> bool" for A where
  calls: "c \<in> A \<Longrightarrow> socket_step A x (session_to (snd (do_socket_call env c (st_session x))) x)"
| connected: "0 < st_connects x \<Longrightarrow>
     socket_step A x (session_to (on_connected ec attempted (st_session x)) (x\<lparr>st_connects := st_connects x - 1\<rparr>))"
| peer: "bs_linked (st_session x) \<Longrightarrow>
     socket_step A x (x\<lparr>st_peer := st_peer x @ bytes, st_incoming := st_incoming x @ bytes\<rparr>)"
| lands: "0 < st_reads x \<Longrightarrow> bs_linked (st_session x) \<Longrightarrow> 0 < n \<Longrightarrow> n \<le> length (st_incoming x) \<Longrightarrow>
     n \<le> length (bs_bufferData (st_session x)) \<Longrightarrow> socket_step A x (bytes_land n x)"
| handles: "st_landed x = n # ns \<Longrightarrow>
     socket_step A x (session_to (run_read_handler n (st_session x)) (x\<lparr>st_landed := ns\<rparr>))"
| fails: "0 < st_reads x \<Longrightarrow> ec \<noteq> Success \<Longrightarrow>
     socket_step A x (session_to (on_read_some ec [] (st_session x)) (x\<lparr>st_reads := st_reads x - 1\<rparr>))"

subsection \<open>One read at a time\<close>

text \<open>
  What holds of a session that is started once: at most one operation is under way, and the bytes delivered, those
  in the buffer and those still to be read are what the peer sent.
\<close>

definition one_reader :: "socket_stream \<Rightarrow> bool" where
  "one_reader x \<longleftrightarrow> st_reads x + st_connects x + length (st_landed x) \<le> 1 \<and> bs_readCallback (st_session x) \<and>
     (\<forall>n \<in> set (st_landed x). n \<le> length (bs_bufferData (st_session x))) \<and>
     concat (bs_delivered (st_session x)) @ concat (map (\<lambda>n. take n (bs_bufferData (st_session x))) (st_landed x)) @
       st_incoming x = st_peer x"

text \<open>The calls of an owner that leaves the reading to the session.\<close>

definition leaves_reading :: "socket_call \<Rightarrow> bool" where
  "leaves_reading c \<longleftrightarrow> (case c of Start h p \<Rightarrow> False | Read \<Rightarrow> False | Set_read_callback b \<Rightarrow> b | _ \<Rightarrow> True)"

lemma call_keeps:
  assumes "leaves_reading c"
  shows "started B_read s (snd (do_socket_call env c s)) = 0 \<and> started B_async_connect s (snd (do_socket_call env c s)) = 0 \<and>
    bs_bufferData (snd (do_socket_call env c s)) = bs_bufferData s \<and>
    bs_delivered (snd (do_socket_call env c s)) = bs_delivered s \<and>
    (bs_readCallback s \<longrightarrow> bs_readCallback (snd (do_socket_call env c s)))"
  using assms
  by (cases c) (auto simp: leaves_reading_def started_def send_def setReadCallback_def setCloseCallback_def
      close_def b_op_def Let_def split: option.split sum.split)

lemma handler_delivers:
  assumes "n \<le> length (bs_bufferData s)" and "bs_readCallback s"
  shows "bs_delivered (run_read_handler n s) = bs_delivered s @ [take n (bs_bufferData s)]"
    "bs_bufferData (run_read_handler n s) = bs_bufferData s" "bs_readCallback (run_read_handler n s)"
    "started B_read s (run_read_handler n s) = 1" "started B_async_connect s (run_read_handler n s) = 0"
proof -
  have "overwrite (take n (bs_bufferData s)) (bs_bufferData s) = bs_bufferData s"
    using assms(1) by (simp add: overwrite_fits)
  then have "run_read_handler n s = read (s\<lparr>bs_delivered := bs_delivered s @ [take n (bs_bufferData s)]\<rparr>)"
    using assms by (simp add: run_read_handler_def on_read_some_def min_absorb2)
  then show "bs_delivered (run_read_handler n s) = bs_delivered s @ [take n (bs_bufferData s)]"
    "bs_bufferData (run_read_handler n s) = bs_bufferData s" "bs_readCallback (run_read_handler n s)"
    "started B_read s (run_read_handler n s) = 1" "started B_async_connect s (run_read_handler n s) = 0"
    using assms(2) by (simp_all add: read_def b_op_def started_def)
qed

lemma one_reader_step:
  assumes "socket_step {c. leaves_reading c} x y" and "one_reader x"
  shows "one_reader y"
  using assms(1)
proof cases
  case (calls c env)
  then show ?thesis using call_keeps[of c "st_session x" env] assms(2) by (auto simp: one_reader_def session_to_def)
next
  case (connected ec attempted)
  then have "length (st_landed x) = 0 \<and> st_reads x = 0 \<and> st_connects x = 1"
    using assms(2) unfolding one_reader_def by linarith
  then show ?thesis using assms(2) connected
    by (auto simp: one_reader_def session_to_def on_connected_def read_def b_op_def started_def)
next
  case (peer bytes)
  then show ?thesis using assms(2) by (auto simp: one_reader_def)
next
  case (lands n)
  then have "length (st_landed x) = 0 \<and> st_reads x = 1 \<and> st_connects x = 0"
    using assms(2) unfolding one_reader_def by linarith
  then show ?thesis using assms(2) lands by (auto simp: one_reader_def bytes_land_def overwrite_fits min_absorb2)
next
  case (handles n ns)
  then have "ns = []" "st_reads x = 0" "st_connects x = 0" using assms(2) by (auto simp: one_reader_def)
  then show ?thesis using assms(2) handles handler_delivers[of n "st_session x"]
    by (auto simp: one_reader_def session_to_def)
next
  case (fails ec)
  then show ?thesis using assms(2)
    by (auto simp: one_reader_def session_to_def on_read_some_def started_def overwrite_def)
qed

lemma read_keeps:
  "bs_linked (read s) = bs_linked s" "bs_bufferData (read s) = bs_bufferData s"
  "bs_readCallback (read s) = bs_readCallback s" "bs_delivered (read s) = bs_delivered s"
  by (simp_all add: read_def b_op_def)

lemma two_land:
  assumes "st_incoming x = a @ b" and "st_landed x = []" and "length a \<le> length (bs_bufferData (st_session x))"
    and "length b = length a"
  defines "y \<equiv> bytes_land (length a) (bytes_land (length a) x)"
  shows "st_incoming y = []" "st_landed y = [length a, length a]" "st_peer y = st_peer x"
    "take (length a) (bs_bufferData (st_session y)) = b" "bs_readCallback (st_session y) = bs_readCallback (st_session x)"
    "length (bs_bufferData (st_session y)) = length (bs_bufferData (st_session x))"
    "bs_delivered (st_session y) = bs_delivered (st_session x)"
  using assms(1-4) by (simp_all add: y_def bytes_land_def overwrite_fits)

subsection \<open>Properties\<close>

definition connecting :: "socket_env \<Rightarrow> string \<Rightarrow> string \<Rightarrow> string \<Rightarrow> socket_stream" where
  "connecting env host port indet =
     (let s = setReadCallback True (new_socket_session indet) in
      session_to (snd (do_socket_call env (Start host port) s)) (new_stream indet\<lparr>st_session := s\<rparr>))"

text \<open>
  C16. The stream arrives. A session that is started once, with a read callback, and whose reading its owner leaves
  alone: whatever else is called and however the bytes arrive, land and are handled, what the callback got, what waits in the
  buffer and what has not been read are together exactly the bytes the peer sent, in order, and
  at most one operation is outstanding.
\<close>

theorem socket_stream_intact:
  assumes "(socket_step {c. leaves_reading c})\<^sup>*\<^sup>* (connecting env host port indet) x"
  shows "concat (bs_delivered (st_session x)) @
      concat (map (\<lambda>n. take n (bs_bufferData (st_session x))) (st_landed x)) @ st_incoming x = st_peer x \<and>
    st_reads x + st_connects x + length (st_landed x) \<le> 1"
proof -
  have "one_reader (connecting env host port indet)"
    by (auto simp: one_reader_def connecting_def session_to_def new_stream_def start_def b_op_def started_def
        setReadCallback_def new_socket_session_def Let_def split: option.split)
  then have "one_reader x" using assms by (induction rule: rtranclp_induct[OF assms]) (auto intro: one_reader_step)
  then show ?thesis by (simp add: one_reader_def)
qed


text \<open>A session that has connected, and its peer has sent some bytes.\<close>

definition sample_socket_env :: socket_env where
  "sample_socket_env = \<lparr>bsv_resolve = \<lambda>_ _. None, bsv_write = \<lambda>m. Inr (length m), bsv_cancel = \<lambda>_. None,
     bsv_shutdown = \<lambda>_. None, bsv_close = None\<rparr>"

definition linked_stream :: socket_stream where
  "linked_stream = (let c = connecting sample_socket_env ''h'' ''1'' (replicate m_bufferSize nul) in
     session_to (on_connected Success True (st_session c)) (c\<lparr>st_connects := st_connects c - 1\<rparr>))"

lemma linked_stream_facts:
  "st_reads linked_stream = 1" "st_landed linked_stream = []" "st_incoming linked_stream = []"
  "bs_linked (st_session linked_stream)" "bs_readCallback (st_session linked_stream)"
  "length (bs_bufferData (st_session linked_stream)) = m_bufferSize"
  "bs_delivered (st_session linked_stream) = []" "st_peer linked_stream = []"
  by (simp_all add: linked_stream_def connecting_def session_to_def new_stream_def start_def b_op_def started_def
      sample_socket_env_def setReadCallback_def new_socket_session_def on_connected_def read_def Let_def)

lemma socket_stream_intact_witness:
  "\<exists>x. (socket_step {c. leaves_reading c})\<^sup>*\<^sup>* (connecting sample_socket_env ''h'' ''1'' (replicate m_bufferSize nul)) x \<and>
     st_peer x = ''abc'' \<and> concat (bs_delivered (st_session x)) @
       concat (map (\<lambda>n. take n (bs_bufferData (st_session x))) (st_landed x)) @ st_incoming x = ''abc''"
proof -
  let ?c = "connecting sample_socket_env ''h'' ''1'' (replicate m_bufferSize nul)"
  let ?x = "linked_stream\<lparr>st_peer := st_peer linked_stream @ ''abc'', st_incoming := st_incoming linked_stream @ ''abc''\<rparr>"
  have "0 < st_connects ?c"
    by (simp add: connecting_def session_to_def new_stream_def start_def b_op_def started_def
        sample_socket_env_def setReadCallback_def new_socket_session_def Let_def)
  then have "socket_step {c. leaves_reading c} ?c linked_stream"
    unfolding linked_stream_def Let_def by (rule socket_step.connected)
  moreover have "socket_step {c. leaves_reading c} linked_stream ?x"
    by (rule socket_step.peer) (rule linked_stream_facts(4))
  ultimately have run: "(socket_step {c. leaves_reading c})\<^sup>*\<^sup>* ?c ?x"
    by (meson converse_rtranclp_into_rtranclp rtranclp.rtrancl_refl)
  have p: "st_peer ?x = ''abc''" by (simp add: linked_stream_facts)
  show ?thesis
    by (rule exI[of _ ?x]) (use run p socket_stream_intact[OF run] in simp)
qed


end
