(* ===== verification/Legacy_Http.thy ===== *)
theory Legacy_Http
  imports Http_Types
begin

text \<open>
  The earlier HTTP server (\<^verbatim>\<open>Legacy/Implementation/HTTP\<close>): the session that answers one
  request (\<^verbatim>\<open>clientsession.cpp\<close>) and the server that accepts connections and hands its
  four processors to every session (\<^verbatim>\<open>server.cpp\<close>). The answers of Boost, of the
  hash function and of the operating system are the argument \<open>env\<close>.
\<close>

subsection \<open>Packets and responses\<close>

datatype ResponseType = RT_ErrorText | RT_PlainText | RT_HTML | RT_JSON

datatype ResponseResult = RR_Ok | RR_NotFound | RR_BadRequest | RR_NotImplemented | RR_NoContent | RR_Unauthorized

record PacketMeta =
  pm_responseResult :: ResponseResult
  pm_responseType :: ResponseType
  pm_sessionId :: string
  pm_target :: string
  pm_body :: string

definition new_PacketMeta :: PacketMeta where
  "new_PacketMeta = \<lparr>pm_responseResult = RR_BadRequest, pm_responseType = RT_PlainText, pm_sessionId = [],
     pm_target = [], pm_body = []\<rparr>"

text \<open>A processor changes the packet it is given, or throws.\<close>

type_synonym meta_processor = "PacketMeta \<Rightarrow> PacketMeta res"

record old_response =
  or_version :: nat
  or_keep_alive :: bool
  or_server :: string
  or_content_type :: "string option"
  or_result :: u32
  or_body :: string
  or_content_length :: "nat option"

definition empty_old_response :: old_response where
  "empty_old_response = \<lparr>or_version = 11, or_keep_alive = True, or_server = [], or_content_type = None,
     or_result = 200, or_body = [], or_content_length = None\<rparr>"

fun type_name :: "ResponseType \<Rightarrow> string" where
  "type_name RT_ErrorText = ''text/plain''"
| "type_name RT_PlainText = ''text/plain''"
| "type_name RT_HTML = ''text/html''"
| "type_name RT_JSON = ''application/json''"

fun result_status :: "ResponseResult \<Rightarrow> u32" where
  "result_status RR_Ok = 200"
| "result_status RR_BadRequest = 400"
| "result_status RR_NotFound = 404"
| "result_status RR_NotImplemented = 501"
| "result_status RR_NoContent = 204"
| "result_status RR_Unauthorized = 401"

subsection \<open>The session\<close>

datatype old_op = O_read | O_write old_response | O_shutdown_send

record old_session =
  ol_get :: "meta_processor option"
  ol_post :: "meta_processor option"
  ol_put :: "meta_processor option"
  ol_delete :: "meta_processor option"
  ol_response :: old_response
  ol_waits :: nat
  ol_ops :: "old_op list"

record old_env =
  oe_remote_address :: "exn + string"
  oe_sha256 :: "string \<Rightarrow> string"
  oe_verb_name :: "verb \<Rightarrow> string"
  oe_bind :: "u16 \<Rightarrow> exn option"
  oe_acceptor_cancel :: "bool \<Rightarrow> exn option"
  oe_socket_cancel :: "bool \<Rightarrow> exn option"

definition oldServerName :: string where
  "oldServerName = ''ManagementServer''"

definition new_old_session ::
  "meta_processor option \<Rightarrow> meta_processor option \<Rightarrow> meta_processor option \<Rightarrow> meta_processor option \<Rightarrow> old_session" where
  "new_old_session get post put delete = \<lparr>ol_get = get, ol_post = post, ol_put = put, ol_delete = delete,
     ol_response = empty_old_response, ol_waits = 0, ol_ops = []\<rparr>"

definition ol_op :: "old_op \<Rightarrow> old_session \<Rightarrow> old_session" where
  "ol_op x s = s\<lparr>ol_ops := ol_ops s @ [x]\<rparr>"

definition readRequest :: "old_session \<Rightarrow> unit res \<times> old_session" where
  "readRequest s =
     (if ol_get s = None \<or> ol_post s = None \<or> ol_put s = None \<or> ol_delete s = None
      then (Inl (RuntimeError ''Not set processors for connection handling''), s)
      else (Inr (), ol_op O_read s))"

text \<open>
  The timeout: a response with status 504 is prepared, but the one written is \<open>m_response\<close>.
  Nothing in the sources calls \<open>restartTimeout\<close>.
\<close>

definition restartTimeout :: "old_session \<Rightarrow> old_session" where
  "restartTimeout s = s\<lparr>ol_waits := 1\<rparr>"

definition on_timeout :: "error_code \<Rightarrow> nat \<Rightarrow> old_session \<Rightarrow> old_response \<times> old_session" where
  "on_timeout ec version s =
     (let timeoutResponse = empty_old_response\<lparr>or_version := version, or_keep_alive := False,
            or_server := oldServerName, or_result := 504\<rparr>
      in (timeoutResponse, if ec = Success then ol_op (O_write (ol_response s)) s else s))"

fun processor_for :: "verb \<Rightarrow> old_session \<Rightarrow> meta_processor option" where
  "processor_for V_get s = ol_get s"
| "processor_for V_post s = ol_post s"
| "processor_for V_put s = ol_put s"
| "processor_for V_delete s = ol_delete s"
| "processor_for (V_other n) s = None"

definition unknown_method_body :: "string \<Rightarrow> string" where
  "unknown_method_body name = ''{\"info\":\"Unknown method: '' @ name @ [CHR 0x22]"

text \<open>Calling an empty \<^verbatim>\<open>std::function\<close> throws.\<close>

definition processRequest :: "old_env \<Rightarrow> http_request \<Rightarrow> old_session \<Rightarrow> unit res \<times> old_session" where
  "processRequest env req s =
     (let r0 = (ol_response s)\<lparr>or_version := rq_version req, or_keep_alive := False, or_server := oldServerName\<rparr>;
          s0 = s\<lparr>ol_response := r0\<rparr>
      in case oe_remote_address env of
           Inl e \<Rightarrow> (Inl e, s0)
         | Inr address \<Rightarrow>
             let meta = new_PacketMeta\<lparr>pm_target := rq_target req, pm_body := rq_body req,
                   pm_sessionId := oe_sha256 env address\<rparr>
             in (case rq_verb req of
                   V_other n \<Rightarrow>
                     let r1 = r0\<lparr>or_result := 400, or_content_type := Some ''text/plain'',
                           or_body := or_body r0 @ unknown_method_body (oe_verb_name env (rq_verb req))\<rparr>
                     in (Inr (), ol_op (O_write r1) (s0\<lparr>ol_response := r1\<rparr>))
                 | _ \<Rightarrow>
                     (case processor_for (rq_verb req) s of
                        None \<Rightarrow> (Inl (StdException ''bad_function_call''), s0)
                      | Some f \<Rightarrow>
                          (case f meta of
                             Inl e \<Rightarrow> (Inl e, s0)
                           | Inr response \<Rightarrow>
                               let r1 = r0\<lparr>or_content_type := Some (type_name (pm_responseType response)),
                                     or_result := result_status (pm_responseResult response),
                                     or_body := or_body r0 @ pm_body response,
                                     or_content_length := Some (length (or_body r0 @ pm_body response))\<rparr>
                               in (Inr (), ol_op (O_write r1) (s0\<lparr>ol_response := r1\<rparr>))))))"

definition old_on_read :: "old_env \<Rightarrow> error_code \<Rightarrow> http_request \<Rightarrow> old_session \<Rightarrow> unit res \<times> old_session" where
  "old_on_read env ec req s =
     (if ec \<noteq> Success then (Inr (), s\<lparr>ol_waits := 0\<rparr>) else processRequest env req s)"

definition old_on_write :: "old_session \<Rightarrow> old_session" where
  "old_on_write s = ol_op O_shutdown_send (s\<lparr>ol_waits := 0\<rparr>)"

subsection \<open>The server\<close>

text \<open>
  \<open>os_socket_open\<close>: the socket member that accepts move connections into. \<open>os_loop\<close>: a
  thread is inside \<^verbatim>\<open>ioc.run()\<close>; \<open>os_accepting\<close>: an accept is pending.
\<close>

record old_server =
  os_get :: "meta_processor option"
  os_post :: "meta_processor option"
  os_put :: "meta_processor option"
  os_delete :: "meta_processor option"
  os_port :: u16
  os_acceptor_open :: bool
  os_socket_open :: bool
  os_accepting :: bool
  os_loop :: bool
  os_stopped :: bool
  os_sessions :: "old_session list"

definition new_old_server :: old_server where
  "new_old_server = \<lparr>os_get = None, os_post = None, os_put = None, os_delete = None, os_port = 9001,
     os_acceptor_open = False, os_socket_open = False, os_accepting = False, os_loop = False,
     os_stopped = False, os_sessions = []\<rparr>"

definition setProcessorGet :: "meta_processor option \<Rightarrow> old_server \<Rightarrow> old_server" where
  "setProcessorGet p s = s\<lparr>os_get := p\<rparr>"
definition setProcessorPost :: "meta_processor option \<Rightarrow> old_server \<Rightarrow> old_server" where
  "setProcessorPost p s = s\<lparr>os_post := p\<rparr>"
definition setProcessorPut :: "meta_processor option \<Rightarrow> old_server \<Rightarrow> old_server" where
  "setProcessorPut p s = s\<lparr>os_put := p\<rparr>"
definition setProcessorDelete :: "meta_processor option \<Rightarrow> old_server \<Rightarrow> old_server" where
  "setProcessorDelete p s = s\<lparr>os_delete := p\<rparr>"

definition acceptConnections :: "old_server \<Rightarrow> old_server" where
  "acceptConnections s = s\<lparr>os_accepting := True\<rparr>"

text \<open>The accepted socket is moved into the session, which leaves the member closed.\<close>

definition old_on_accept :: "error_code \<Rightarrow> old_server \<Rightarrow> unit res \<times> old_server" where
  "old_on_accept ec s =
     (let s0 = s\<lparr>os_accepting := False\<rparr> in
      if ec \<noteq> Success then (Inr (), acceptConnections s0)
      else
        let con = new_old_session (os_get s0) (os_post s0) (os_put s0) (os_delete s0);
            s1 = s0\<lparr>os_socket_open := False\<rparr>
        in (case readRequest con of
              (Inl e, _) \<Rightarrow> (Inl e, s1)
            | (Inr _, con') \<Rightarrow> (Inr (), acceptConnections (s1\<lparr>os_sessions := os_sessions s1 @ [con']\<rparr>))))"

text \<open>
  \<open>start\<close> closes and opens the acceptor, waits for a connection and runs the loop. A throw
  of \<^verbatim>\<open>bind\<close> or \<^verbatim>\<open>listen\<close> leaves \<open>start\<close>.
\<close>

definition old_start :: "old_env \<Rightarrow> u16 \<Rightarrow> old_server \<Rightarrow> unit res \<times> old_server" where
  "old_start env port s =
     (let s1 = s\<lparr>os_port := port, os_acceptor_open := True\<rparr> in
      case oe_bind env port of
        Some e \<Rightarrow> (Inl e, s1)
      | None \<Rightarrow> (Inr (), (acceptConnections s1)\<lparr>os_loop := \<not> os_stopped s1\<rparr>))"

datatype old_event = Old_accepted error_code | Old_read nat error_code http_request | Old_written nat

fun old_event_step :: "old_env \<Rightarrow> old_event \<Rightarrow> old_server \<Rightarrow> unit res \<times> old_server" where
  "old_event_step env (Old_accepted ec) s = (if os_accepting s then old_on_accept ec s else (Inr (), s))"
| "old_event_step env (Old_read i ec req) s =
     (if i < length (os_sessions s) then
        (case old_on_read env ec req (os_sessions s ! i) of (r, t) \<Rightarrow> (r, s\<lparr>os_sessions := (os_sessions s)[i := t]\<rparr>))
      else (Inr (), s))"
| "old_event_step env (Old_written i) s =
     (if i < length (os_sessions s) then (Inr (), s\<lparr>os_sessions := (os_sessions s)[i := old_on_write (os_sessions s ! i)]\<rparr>)
      else (Inr (), s))"

text \<open>The loop: an exception of a handler is caught in \<open>start\<close>, which then returns.\<close>

fun old_run :: "old_env \<Rightarrow> old_event list \<Rightarrow> old_server \<Rightarrow> old_server" where
  "old_run env [] s = s"
| "old_run env (e # es) s =
     (if \<not> os_loop s then s
      else (case old_event_step env e s of
              (Inr _, t) \<Rightarrow> old_run env es t
            | (Inl _, t) \<Rightarrow> t\<lparr>os_loop := False\<rparr>))"

definition old_stop :: "old_env \<Rightarrow> old_server \<Rightarrow> unit res \<times> old_server" where
  "old_stop env s =
     (case oe_acceptor_cancel env (os_acceptor_open s) of
        Some e \<Rightarrow> (Inl e, s)
      | None \<Rightarrow>
          let s1 = s\<lparr>os_acceptor_open := False\<rparr> in
          (case oe_socket_cancel env (os_socket_open s1) of
             Some e \<Rightarrow> (Inl e, s1)
           | None \<Rightarrow> (Inr (), s1\<lparr>os_socket_open := False, os_stopped := True, os_loop := False\<rparr>)))"

subsection \<open>Properties\<close>


definition sample_old_env :: old_env where
  "sample_old_env = \<lparr>oe_remote_address = Inr ''10.0.0.1'', oe_sha256 = (\<lambda>a. ''#'' @ a),
     oe_verb_name = (\<lambda>v. case v of V_other n \<Rightarrow> n | _ \<Rightarrow> []), oe_bind = (\<lambda>_. None),
     oe_acceptor_cancel = (\<lambda>b. if b then None else Some (StdException ''Bad file descriptor'')),
     oe_socket_cancel = (\<lambda>b. if b then None else Some (StdException ''Bad file descriptor''))\<rparr>"


lemma old_accept_failure: "os_accepting s \<Longrightarrow> ec \<noteq> Success \<Longrightarrow> old_event_step env (Old_accepted ec) s = (Inr (), s)"
  by (simp add: old_on_accept_def acceptConnections_def)

lemma old_accept_failures:
  "os_accepting s \<Longrightarrow> \<forall>ec \<in> set ecs. ec \<noteq> Success \<Longrightarrow> old_run env (map Old_accepted ecs) s = s"
  by (induction ecs) (auto simp: old_accept_failure simp del: old_event_step.simps)

text \<open>
  C40. Stopping never stops. If cancelling a socket that is not open throws, \<open>stop\<close> on a
  server that waits for connections ends with that exception before it stops the loop:
  the acceptor is closed, and however many accepts then fail, the loop goes on and waits
  for the next.
\<close>

theorem old_stop_never_stops:
  assumes "oe_acceptor_cancel env True = None" and "oe_socket_cancel env False = Some e"
    and "os_acceptor_open s" and "\<not> os_socket_open s" and "os_loop s" and "os_accepting s"
    and "\<forall>ec \<in> set ecs. ec \<noteq> Success"
  shows "fst (old_stop env s) = Inl e \<and>
    (let t = old_run env (map Old_accepted ecs) (snd (old_stop env s))
     in os_loop t \<and> os_accepting t \<and> \<not> os_acceptor_open t)"
proof -
  have "old_stop env s = (Inl e, s\<lparr>os_acceptor_open := False\<rparr>)"
    using assms(1-4) by (simp add: old_stop_def Let_def)
  then show ?thesis
    using assms(5,6) old_accept_failures[OF _ assms(7), of "s\<lparr>os_acceptor_open := False\<rparr>" env]
    by (simp add: Let_def)
qed

lemma old_stop_never_stops_witness:
  "os_loop (old_run sample_old_env (map Old_accepted [OperationAborted, OtherError 9])
     (snd (old_stop sample_old_env (snd (old_start sample_old_env 80 new_old_server)))))"
proof -
  let ?s = "snd (old_start sample_old_env 80 new_old_server)"
  have "oe_acceptor_cancel sample_old_env True = None"
    "oe_socket_cancel sample_old_env False = Some (StdException ''Bad file descriptor'')"
    "os_acceptor_open ?s" "\<not> os_socket_open ?s" "os_loop ?s" "os_accepting ?s"
    "\<forall>ec \<in> set [OperationAborted, OtherError 9]. ec \<noteq> Success"
    by (simp_all add: sample_old_env_def old_start_def new_old_server_def acceptConnections_def Let_def)
  from old_stop_never_stops[OF this] show ?thesis by (simp add: Let_def)
qed

text \<open>
  C51. A server with a missing processor ends with its first connection: the session's
  \<open>readRequest\<close> throws, the loop ends, and nothing that happens later is handled.
\<close>

theorem old_missing_processor_ends_server:
  assumes "os_loop s" and "os_accepting s"
    and "None \<in> {os_get s, os_post s, os_put s, os_delete s}"
  shows "\<not> os_loop (old_run env (Old_accepted Success # es) s) \<and>
    old_run env (Old_accepted Success # es) s = old_run env [Old_accepted Success] s"
proof -
  have "readRequest (new_old_session (os_get s) (os_post s) (os_put s) (os_delete s)) =
      (Inl (RuntimeError ''Not set processors for connection handling''),
       new_old_session (os_get s) (os_post s) (os_put s) (os_delete s))"
    using assms(3) by (auto simp: readRequest_def new_old_session_def)
  then show ?thesis using assms(1,2) by (simp add: old_on_accept_def Let_def)
qed

lemma old_missing_processor_ends_server_witness:
  "\<not> os_loop (old_run sample_old_env [Old_accepted Success] (snd (old_start sample_old_env 80 new_old_server)))"
proof -
  have "os_loop (snd (old_start sample_old_env 80 new_old_server))"
    "os_accepting (snd (old_start sample_old_env 80 new_old_server))"
    "None \<in> {os_get (snd (old_start sample_old_env 80 new_old_server)), os_post (snd (old_start sample_old_env 80 new_old_server)),
       os_put (snd (old_start sample_old_env 80 new_old_server)), os_delete (snd (old_start sample_old_env 80 new_old_server))}"
    by (simp_all add: sample_old_env_def old_start_def new_old_server_def acceptConnections_def Let_def)
  from old_missing_processor_ends_server[OF this] show ?thesis by blast
qed

end
