(* ===== verification/Legacy_Http_Life.thy ===== *)
theory Legacy_Http_Life
  imports Legacy_Http
begin

text \<open>
  The earlier HTTP server as its users see it (\<^verbatim>\<open>Legacy/Implementation/HTTP/server.hpp\<close>): its public
  operations as a type of calls, interleaved with the completions its loop dispatches, each for an
  operation that is outstanding; and what becomes of a connection.
\<close>

subsection \<open>Calls and completions\<close>

datatype old_call =
    Start u16
  | Stop
  | Set_processor_get "meta_processor option"
  | Set_processor_post "meta_processor option"
  | Set_processor_put "meta_processor option"
  | Set_processor_delete "meta_processor option"

fun do_old_call :: "old_env \<Rightarrow> old_call \<Rightarrow> old_server \<Rightarrow> unit res \<times> old_server" where
  "do_old_call env (Start port) s = old_start env port s"
| "do_old_call env Stop s = old_stop env s"
| "do_old_call env (Set_processor_get p) s = (Inr (), setProcessorGet p s)"
| "do_old_call env (Set_processor_post p) s = (Inr (), setProcessorPost p s)"
| "do_old_call env (Set_processor_put p) s = (Inr (), setProcessorPut p s)"
| "do_old_call env (Set_processor_delete p) s = (Inr (), setProcessorDelete p s)"

text \<open>The sessions that have a read or a write outstanding, by their number.\<close>

record old_net =
  on_server :: old_server
  on_reads :: "nat set"
  on_writes :: "nat set"

definition new_old_net :: old_net where
  "new_old_net = \<lparr>on_server = new_old_server, on_reads = {}, on_writes = {}\<rparr>"

definition old_dispatch :: "old_env \<Rightarrow> old_event \<Rightarrow> old_server \<Rightarrow> old_server" where
  "old_dispatch env e s = old_run env [e] s"

text \<open>An accept may add a session, which reads; a read that ends well ends in a write unless something throws.\<close>

inductive old_net_step :: "old_net \<Rightarrow> old_net \<Rightarrow> bool" where
  calls: "old_net_step x (x\<lparr>on_server := snd (do_old_call env c (on_server x))\<rparr>)"
| accepts: "os_loop (on_server x) \<Longrightarrow> t = old_dispatch env (Old_accepted ec) (on_server x) \<Longrightarrow>
     old_net_step x (x\<lparr>on_server := t,
       on_reads := on_reads x \<union> {length (os_sessions (on_server x)) ..< length (os_sessions t)}\<rparr>)"
| reads: "os_loop (on_server x) \<Longrightarrow> i \<in> on_reads x \<Longrightarrow> t = old_dispatch env (Old_read i ec req) (on_server x) \<Longrightarrow>
     old_net_step x (x\<lparr>on_server := t, on_reads := on_reads x - {i},
       on_writes := on_writes x \<union> (if os_loop t \<and> ec = Success then {i} else {})\<rparr>)"
| writes: "os_loop (on_server x) \<Longrightarrow> i \<in> on_writes x \<Longrightarrow>
     old_net_step x (x\<lparr>on_server := old_dispatch env (Old_written i) (on_server x), on_writes := on_writes x - {i}\<rparr>)"

subsection \<open>The life of a connection\<close>

text \<open>What a response of such a server looks like, whatever the processors do.\<close>

definition wf_old_response :: "old_response \<Rightarrow> bool" where
  "wf_old_response r \<longleftrightarrow> or_server r = oldServerName \<and> \<not> or_keep_alive r \<and>
     or_result r \<in> {200, 204, 400, 401, 404, 501} \<and>
     or_content_type r \<in> Some ` {''text/plain'', ''text/html'', ''application/json''} \<and>
     (or_content_length r = Some (length (or_body r)) \<or> or_content_length r = None \<and> or_result r = 400)"

text \<open>A connection is read once, answered at most once, and its sending side is shut down after the answer.\<close>

datatype connection_life = Reading | Answering old_response | Answered old_response | Abandoned

definition life_ops :: "connection_life \<Rightarrow> old_op list" where
  "life_ops l = (case l of Reading \<Rightarrow> [O_read] | Answering r \<Rightarrow> [O_read, O_write r]
     | Answered r \<Rightarrow> [O_read, O_write r, O_shutdown_send] | Abandoned \<Rightarrow> [O_read])"

definition lives :: "nat \<Rightarrow> old_net \<Rightarrow> connection_life \<Rightarrow> bool" where
  "lives i x l \<longleftrightarrow> (let s = os_sessions (on_server x) ! i in
     ol_ops s = life_ops l \<and> (i \<in> on_reads x \<longleftrightarrow> l = Reading) \<and> (i \<in> on_writes x \<longleftrightarrow> (\<exists>r. l = Answering r)) \<and>
     (case l of Reading \<Rightarrow> ol_response s = empty_old_response | Answering r \<Rightarrow> wf_old_response r
      | Answered r \<Rightarrow> wf_old_response r | Abandoned \<Rightarrow> True))"

definition old_net_inv :: "old_net \<Rightarrow> bool" where
  "old_net_inv x \<longleftrightarrow> on_reads x \<union> on_writes x \<subseteq> {..<length (os_sessions (on_server x))} \<and>
     (\<forall>i < length (os_sessions (on_server x)). \<exists>l. lives i x l)"

lemma do_old_call_sessions [simp]: "os_sessions (snd (do_old_call env c s)) = os_sessions s"
  by (cases c) (auto simp: old_start_def old_stop_def setProcessorGet_def setProcessorPost_def setProcessorPut_def
      setProcessorDelete_def acceptConnections_def Let_def split: option.split)

lemma processRequest_cases:
  assumes "ol_response s = empty_old_response"
  shows "(\<exists>e. fst (processRequest env req s) = Inl e \<and> ol_ops (snd (processRequest env req s)) = ol_ops s) \<or>
    (\<exists>r. fst (processRequest env req s) = Inr () \<and> ol_ops (snd (processRequest env req s)) = ol_ops s @ [O_write r] \<and>
       wf_old_response r)"
proof -
  have types: "type_name t \<in> {''text/plain'', ''text/html'', ''application/json''}" for t by (cases t) simp_all
  have codes: "result_status c \<in> {200, 204, 400, 401, 404, 501}" for c by (cases c) simp_all
  show ?thesis
    using assms types codes
    by (cases "rq_verb req") (auto simp: processRequest_def ol_op_def wf_old_response_def empty_old_response_def Let_def
        simp del: insert_iff split: sum.split option.split)
qed

lemma accept_sessions:
  "os_sessions (old_dispatch env (Old_accepted ec) s) = os_sessions s \<or>
   (\<exists>c. os_sessions (old_dispatch env (Old_accepted ec) s) = os_sessions s @ [c] \<and> ol_ops c = [O_read] \<and>
      ol_response c = empty_old_response)"
  by (auto simp: old_dispatch_def old_on_accept_def acceptConnections_def readRequest_def new_old_session_def ol_op_def
      Let_def split: prod.split sum.split)

lemma read_sessions:
  assumes "os_loop s" and "i < length (os_sessions s)" and "old_on_read env ec req (os_sessions s ! i) = (r, c)"
  shows "os_sessions (old_dispatch env (Old_read i ec req) s) = (os_sessions s)[i := c]"
    and "os_loop (old_dispatch env (Old_read i ec req) s) \<longleftrightarrow> r = Inr ()"
  using assms by (cases r; simp add: old_dispatch_def)+

lemma write_sessions:
  assumes "os_loop s" and "i < length (os_sessions s)"
  shows "os_sessions (old_dispatch env (Old_written i) s) = (os_sessions s)[i := old_on_write (os_sessions s ! i)]"
  using assms by (simp add: old_dispatch_def)

lemma lives_elsewhere:
  assumes "lives j x l" and "os_sessions (on_server y) ! j = os_sessions (on_server x) ! j"
    and "j \<in> on_reads y \<longleftrightarrow> j \<in> on_reads x" and "j \<in> on_writes y \<longleftrightarrow> j \<in> on_writes x"
  shows "lives j y l"
  using assms by (simp add: lives_def)

lemma old_net_inv_lives: "old_net_inv x \<Longrightarrow> i < length (os_sessions (on_server x)) \<Longrightarrow> \<exists>l. lives i x l"
  unfolding old_net_inv_def by blast

lemma old_net_inv_update:
  assumes "old_net_inv x" and "i < length (os_sessions (on_server x))"
    and "os_sessions (on_server y) = (os_sessions (on_server x))[i := c]"
    and "\<And>j. j \<noteq> i \<Longrightarrow> (j \<in> on_reads y \<longleftrightarrow> j \<in> on_reads x) \<and> (j \<in> on_writes y \<longleftrightarrow> j \<in> on_writes x)"
    and "lives i y l"
  shows "old_net_inv y"
proof -
  have n: "length (os_sessions (on_server y)) = length (os_sessions (on_server x))" using assms(3) by simp
  have "\<exists>l. lives j y l" if j: "j < length (os_sessions (on_server x))" for j
  proof (cases "j = i")
    case True
    then show ?thesis using assms(5) by blast
  next
    case False
    obtain l' where "lives j x l'" using old_net_inv_lives[OF assms(1) j] by blast
    then have "lives j y l'" by (rule lives_elsewhere) (use assms(3,4) False in simp_all)
    then show ?thesis by blast
  qed
  moreover have "on_reads y \<union> on_writes y \<subseteq> {..<length (os_sessions (on_server x))}"
  proof
    fix j
    assume "j \<in> on_reads y \<union> on_writes y"
    then have "j = i \<or> j \<in> on_reads x \<union> on_writes x" using assms(4)[of j] by auto
    then show "j \<in> {..<length (os_sessions (on_server x))}" using assms(1,2) by (auto simp: old_net_inv_def)
  qed
  ultimately show ?thesis using n by (simp add: old_net_inv_def)
qed

lemma old_net_step_inv:
  assumes "old_net_step x y" and "old_net_inv x"
  shows "old_net_inv y"
  using assms(1)
proof cases
  case (calls env c)
  then show ?thesis using assms(2) by (simp add: old_net_inv_def lives_def)
next
  case (accepts t env ec)
  show ?thesis
  proof (cases "os_sessions t = os_sessions (on_server x)")
    case True
    then show ?thesis using accepts assms(2) by (simp add: old_net_inv_def lives_def)
  next
    case False
    then obtain c where c: "os_sessions t = os_sessions (on_server x) @ [c]" "ol_ops c = [O_read]"
        "ol_response c = empty_old_response"
      using accept_sessions[of env ec "on_server x"] accepts(3) by auto
    let ?n = "length (os_sessions (on_server x))"
    have y: "os_sessions (on_server y) = os_sessions (on_server x) @ [c]" "on_reads y = insert ?n (on_reads x)"
      "on_writes y = on_writes x" using accepts(1) c(1) by auto
    have "?n \<notin> on_writes x" using assms(2) by (auto simp: old_net_inv_def)
    then have "lives ?n y Reading" using y c(2,3) by (simp add: lives_def life_ops_def)
    moreover have "\<exists>l. lives j y l" if j: "j < ?n" for j
    proof -
      obtain l where "lives j x l" using old_net_inv_lives[OF assms(2) j] by blast
      then have "lives j y l" by (rule lives_elsewhere) (use j y in \<open>auto simp: nth_append\<close>)
      then show ?thesis by blast
    qed
    ultimately show ?thesis using assms(2) y by (auto simp: old_net_inv_def less_Suc_eq)
  qed
next
  case (reads i t env ec req)
  have i: "i < length (os_sessions (on_server x))" using reads(3) assms(2) by (auto simp: old_net_inv_def)
  let ?s = "os_sessions (on_server x) ! i"
  obtain l where "lives i x l" using old_net_inv_lives[OF assms(2) i] by blast
  then have s: "ol_ops ?s = [O_read]" "ol_response ?s = empty_old_response" "i \<notin> on_writes x"
    using reads(3) by (auto simp: lives_def life_ops_def Let_def)
  obtain r c where rc: "old_on_read env ec req ?s = (r, c)" by fastforce
  note e = read_sessions[OF reads(2) i rc]
  have y: "os_sessions (on_server y) = (os_sessions (on_server x))[i := c]" "i \<notin> on_reads y"
    "i \<in> on_writes y \<longleftrightarrow> r = Inr () \<and> ec = Success"
    "\<And>j. j \<noteq> i \<Longrightarrow> (j \<in> on_reads y \<longleftrightarrow> j \<in> on_reads x) \<and> (j \<in> on_writes y \<longleftrightarrow> j \<in> on_writes x)"
    using reads(1,4) e s(3) by auto
  have "\<exists>l. lives i y l"
  proof (cases "ec = Success")
    case True
    then have pr: "processRequest env req ?s = (r, c)" using rc by (simp add: old_on_read_def)
    from processRequest_cases[OF s(2), of env req] consider
        (throws) e where "r = Inl e" "ol_ops c = [O_read]"
      | (answers) a where "r = Inr ()" "ol_ops c = [O_read, O_write a]" "wf_old_response a"
      unfolding pr using s(1) by auto
    then show ?thesis
    proof cases
      case throws
      then have "lives i y Abandoned" using y i by (simp add: lives_def life_ops_def)
      then show ?thesis by blast
    next
      case answers
      then have "lives i y (Answering a)" using y i True by (simp add: lives_def life_ops_def)
      then show ?thesis by blast
    qed
  next
    case False
    then have "lives i y Abandoned" using y i rc s(1) by (auto simp: lives_def life_ops_def old_on_read_def)
    then show ?thesis by blast
  qed
  then show ?thesis using old_net_inv_update[OF assms(2) i y(1,4)] by blast
next
  case (writes i env)
  have i: "i < length (os_sessions (on_server x))" using writes(3) assms(2) by (auto simp: old_net_inv_def)
  obtain l where l: "lives i x l" using old_net_inv_lives[OF assms(2) i] by blast
  then obtain r where r: "l = Answering r" using writes(3) by (auto simp: lives_def Let_def)
  have y: "os_sessions (on_server y) = (os_sessions (on_server x))[i := old_on_write (os_sessions (on_server x) ! i)]"
    using write_sessions[OF writes(2) i] writes(1) by simp
  have "lives i y (Answered r)" using l r y i writes(1)
    by (simp add: lives_def life_ops_def old_on_write_def ol_op_def)
  moreover have "\<And>j. j \<noteq> i \<Longrightarrow> (j \<in> on_reads y \<longleftrightarrow> j \<in> on_reads x) \<and> (j \<in> on_writes y \<longleftrightarrow> j \<in> on_writes x)"
    using writes(1) by auto
  ultimately show ?thesis using old_net_inv_update[OF assms(2) i y] by blast
qed

subsection \<open>Properties\<close>

text \<open>
  C18. A connection is answered once. However the server is called, whatever its processors do or throw and in whatever
  order outstanding operations end, each of its connections is read once and answered at most
  once, with a well-formed response; after it the sending side is shut down and nothing is outstanding. A connection whose
  read failed, or whose processing threw, is left without an answer.
\<close>

theorem old_connection_answered_once:
  assumes "old_net_step\<^sup>*\<^sup>* new_old_net x" and "i < length (os_sessions (on_server x))"
  shows "\<exists>l. ol_ops (os_sessions (on_server x) ! i) = life_ops l \<and>
    (i \<in> on_reads x \<longleftrightarrow> l = Reading) \<and> (i \<in> on_writes x \<longleftrightarrow> (\<exists>r. l = Answering r)) \<and>
    (\<forall>r. O_write r \<in> set (life_ops l) \<longrightarrow> wf_old_response r)"
proof -
  have "old_net_inv new_old_net" by (simp add: old_net_inv_def new_old_net_def new_old_server_def)
  with assms(1) have "old_net_inv x" by (induction rule: rtranclp_induct) (auto intro: old_net_step_inv)
  then obtain l where "lives i x l" using old_net_inv_lives[OF _ assms(2)] by blast
  then show ?thesis
    by (intro exI[of _ l]) (cases l; simp add: lives_def life_ops_def Let_def)
qed

text \<open>A server with four processors, which has accepted one connection.\<close>

definition sample_old_net :: old_net where
  "sample_old_net = (let f = Some Inr in
     new_old_net\<lparr>on_server := new_old_server\<lparr>os_get := f, os_post := f, os_put := f, os_delete := f, os_port := 80,
       os_acceptor_open := True, os_accepting := True, os_loop := True,
       os_sessions := [ol_op O_read (new_old_session f f f f)]\<rparr>, on_reads := {0}\<rparr>)"

lemma called: "old_net_step\<^sup>*\<^sup>* a x \<Longrightarrow> old_net_step\<^sup>*\<^sup>* a (x\<lparr>on_server := snd (do_old_call env c (on_server x))\<rparr>)"
  by (erule rtranclp.rtrancl_into_rtrancl[where r = old_net_step]) (rule old_net_step.calls)

lemma sample_old_net_runs: "old_net_step\<^sup>*\<^sup>* new_old_net sample_old_net"
proof -
  let ?c = "\<lambda>c x. x\<lparr>on_server := snd (do_old_call sample_old_env c (on_server x))\<rparr>"
  let ?f = "Some Inr :: meta_processor option"
  let ?x = "?c (Start 80) (?c (Set_processor_delete ?f) (?c (Set_processor_put ?f)
    (?c (Set_processor_post ?f) (?c (Set_processor_get ?f) new_old_net))))"
  have x: "?x = new_old_net\<lparr>on_server := new_old_server\<lparr>os_get := ?f, os_post := ?f, os_put := ?f, os_delete := ?f, os_port := 80,
       os_acceptor_open := True, os_accepting := True, os_loop := True\<rparr>\<rparr>"
    by (simp add: old_start_def sample_old_env_def acceptConnections_def new_old_net_def new_old_server_def
        setProcessorGet_def setProcessorPost_def setProcessorPut_def setProcessorDelete_def)
  have "old_net_step\<^sup>*\<^sup>* new_old_net ?x"
    by (rule rtranclp.rtrancl_refl[THEN called, THEN called, THEN called, THEN called, THEN called])
  moreover have "old_net_step ?x sample_old_net"
  proof -
    have "os_loop (on_server ?x)" unfolding x by simp
    from old_net_step.accepts[OF this HOL.refl, of sample_old_env Success] show ?thesis
      unfolding x
      by (simp add: sample_old_net_def old_dispatch_def old_on_accept_def readRequest_def new_old_session_def ol_op_def
          acceptConnections_def new_old_net_def new_old_server_def Let_def)
  qed
  ultimately show ?thesis by (rule rtranclp.rtrancl_into_rtrancl[where r = old_net_step])
qed

lemma old_connection_answered_once_witness:
  "\<exists>l. ol_ops (os_sessions (on_server sample_old_net) ! 0) = life_ops l \<and> l = Reading"
proof -
  have "0 < length (os_sessions (on_server sample_old_net))" "0 \<in> on_reads sample_old_net"
    by (simp_all add: sample_old_net_def Let_def)
  with old_connection_answered_once[OF sample_old_net_runs this(1)] show ?thesis by blast
qed

end
