(* ===== verification/Legacy_Exchange.thy ===== *)
theory Legacy_Exchange
  imports Net_Prelude
begin

text \<open>
  The exchange protocol of the Qt components (\<^verbatim>\<open>Legacy/exchangepacket.h\<close>,
  \<^verbatim>\<open>packetprocessor\<close>, \<^verbatim>\<open>connectionworker\<close>) and the manager of the workers and
  their threads (\<^verbatim>\<open>threadmanager\<close>). The hex codec and the Boost archive are the
  argument \<open>xl\<close>; what the code relies on of them is \<open>xlib_ok\<close>.
\<close>

subsection \<open>Packets\<close>

datatype PACKET_TYPES = ACTION_PACKET_TYPE | INFO_PACKET_TYPE | ERROR_PACKET_TYPE

fun packet_type_code :: "PACKET_TYPES \<Rightarrow> int" where
  "packet_type_code ACTION_PACKET_TYPE = 0"
| "packet_type_code INFO_PACKET_TYPE = 1"
| "packet_type_code ERROR_PACKET_TYPE = 2"

text \<open>\<open>xp_type\<close> is a plain \<^verbatim>\<open>int\<close>; \<open>isValid\<close> is not serialised.\<close>

record Packet =
  xp_type :: "32 word"
  xp_command :: string
  xp_data :: string
  xp_isValid :: bool

definition new_Packet :: Packet where
  "new_Packet = \<lparr>xp_type = 0, xp_command = [], xp_data = [], xp_isValid = False\<rparr>"

type_synonym fields = "32 word \<times> string \<times> string"

record xlib =
  xl_encodeHex :: "string \<Rightarrow> string res"
  xl_decodeHex :: "string \<Rightarrow> string res"
  xl_archive :: "fields \<Rightarrow> string res"
  xl_unarchive :: "string \<Rightarrow> fields res"

text \<open>Decoding inverts encoding, loading inverts saving, and the empty input is not an archive.\<close>

definition xlib_ok :: "xlib \<Rightarrow> bool" where
  "xlib_ok xl \<longleftrightarrow>
     (\<forall>f. \<exists>s h. xl_archive xl f = Inr s \<and> xl_encodeHex xl s = Inr h \<and> h \<noteq> [] \<and>
        xl_decodeHex xl h = Inr s \<and> xl_unarchive xl s = Inr f) \<and>
     (case xl_decodeHex xl [] of Inl e \<Rightarrow> True | Inr s \<Rightarrow> isl (xl_unarchive xl s))"

definition packet_fields :: "Packet \<Rightarrow> fields" where
  "packet_fields p = (xp_type p, xp_command p, xp_data p)"

text \<open>Everything thrown is caught, and answered with the empty bytes, or the default packet.\<close>

definition convert_to :: "xlib \<Rightarrow> Packet \<Rightarrow> string" where
  "convert_to xl p =
     (if \<not> xp_isValid p then []
      else (case xl_archive xl (packet_fields p) of
              Inl e \<Rightarrow> []
            | Inr s \<Rightarrow> (case xl_encodeHex xl s of Inl e \<Rightarrow> [] | Inr h \<Rightarrow> h)))"

definition convert_from :: "xlib \<Rightarrow> string \<Rightarrow> Packet" where
  "convert_from xl bytes =
     (case xl_decodeHex xl bytes of
        Inl e \<Rightarrow> new_Packet
      | Inr s \<Rightarrow> (case xl_unarchive xl s of
            Inl e \<Rightarrow> new_Packet
          | Inr (t, c, d) \<Rightarrow> \<lparr>xp_type = t, xp_command = c, xp_data = d, xp_isValid = True\<rparr>))"

lemma convert_roundtrip [net_simps]:
  assumes "xlib_ok xl"
  shows "convert_from xl (convert_to xl p) = (if xp_isValid p then p else new_Packet)"
proof (cases "xp_isValid p")
  case True
  obtain s h where "xl_archive xl (packet_fields p) = Inr s" "xl_encodeHex xl s = Inr h"
    "xl_decodeHex xl h = Inr s" "xl_unarchive xl s = Inr (packet_fields p)"
    using assms unfolding xlib_ok_def by blast
  then show ?thesis using True by (simp add: convert_to_def convert_from_def packet_fields_def)
next
  case False
  then show ?thesis using assms
    by (cases "xl_decodeHex xl []") (auto simp: convert_to_def convert_from_def xlib_ok_def split: sum.split)
qed

subsection \<open>Packet processor\<close>

text \<open>The information and action processors fill in the response; the error processor answers nothing.\<close>

record packet_processor =
  pp_info :: "(Packet \<Rightarrow> Packet \<Rightarrow> Packet) option"
  pp_action :: "(Packet \<Rightarrow> Packet \<Rightarrow> Packet) option"
  pp_error :: bool
  pp_errors :: "Packet list"

definition process :: "Packet \<Rightarrow> packet_processor \<Rightarrow> Packet \<times> packet_processor" where
  "process p pp =
     (if xp_type p = word_of_int (packet_type_code INFO_PACKET_TYPE) \<and> pp_info pp \<noteq> None
      then (the (pp_info pp) p new_Packet, pp)
      else if xp_type p = word_of_int (packet_type_code ACTION_PACKET_TYPE) \<and> pp_action pp \<noteq> None
      then (the (pp_action pp) p new_Packet, pp)
      else if xp_type p = word_of_int (packet_type_code ERROR_PACKET_TYPE) \<and> pp_error pp
      then (new_Packet, pp\<lparr>pp_errors := pp_errors pp @ [p]\<rparr>)
      else (new_Packet, pp))"

subsection \<open>Connection worker\<close>

record connection_worker =
  cw_connected :: bool
  cw_workerId :: u64
  cw_processor :: packet_processor
  cw_written :: "string list"
  cw_finished :: nat

definition setConnection :: "u64 \<Rightarrow> connection_worker \<Rightarrow> connection_worker" where
  "setConnection workerId w =
     (if cw_connected w then w else w\<lparr>cw_workerId := workerId, cw_connected := True\<rparr>)"

definition onDisconnect :: "connection_worker \<Rightarrow> connection_worker" where
  "onDisconnect w = w\<lparr>cw_connected := False, cw_finished := Suc (cw_finished w)\<rparr>"

text \<open>What is left of an earlier request is not kept: every chunk read is taken for a whole packet.\<close>

definition onMessage :: "xlib \<Rightarrow> string \<Rightarrow> connection_worker \<Rightarrow> connection_worker" where
  "onMessage xl bytes w =
     (if \<not> cw_connected w then w
      else let request = convert_from xl bytes in
        if \<not> xp_isValid request then w
        else (case process request (cw_processor w) of (response, pp) \<Rightarrow>
          let w1 = w\<lparr>cw_processor := pp\<rparr> in
          if \<not> xp_isValid response then w1
          else w1\<lparr>cw_written := cw_written w1 @ [convert_to xl response]\<rparr>))"

subsection \<open>Thread manager\<close>

text \<open>
  \<open>tm_workers\<close> and \<open>tm_threads\<close> hold, by worker id, the worker (\<open>None\<close> a null
  pointer) and its thread. \<open>tm_rejected\<close>: the descriptors refused.
\<close>

record thread_manager =
  tm_workers :: "u64 \<rightharpoonup> int option"
  tm_threads :: "u64 \<rightharpoonup> int"
  tm_maximumThreadCount :: int
  tm_rejected :: "int list"

definition workers_size :: "thread_manager \<Rightarrow> int" where
  "workers_size m = int (card (dom (tm_workers m)))"

definition setThreadCount :: "int \<Rightarrow> thread_manager \<Rightarrow> bool \<times> thread_manager" where
  "setThreadCount newCount m =
     (if workers_size m > 0 \<or> newCount < 0 then (False, m)
      else (True, m\<lparr>tm_maximumThreadCount := newCount\<rparr>))"

definition new_thread_manager :: "int \<Rightarrow> thread_manager" where
  "new_thread_manager ideal = snd (setThreadCount ideal \<lparr>tm_workers = Map.empty, tm_threads = Map.empty,
     tm_maximumThreadCount = 1, tm_rejected = []\<rparr>)"

definition availableThreads :: "thread_manager \<Rightarrow> int" where
  "availableThreads m = tm_maximumThreadCount m - workers_size m"

text \<open>
  The product of two results of \<^verbatim>\<open>rand()\<close> is computed in \<^verbatim>\<open>int\<close>: undefined when it
  overflows. The search for a free id runs over the pairs \<open>rands\<close> the generator gives;
  \<open>None\<close> when they do not suffice.
\<close>

fun fresh_id :: "(u64 \<rightharpoonup> 'a) \<Rightarrow> (int \<times> int) list \<Rightarrow> u64 beh option" where
  "fresh_id ws [] = None"
| "fresh_id ws ((a, b) # rands) =
     (if a * b < 2 ^ 31 then
        let i = word_of_int (a * b) in if ws i \<noteq> None then fresh_id ws rands else Some (Returns i)
      else Some UB)"

definition createConnection :: "(int \<times> int) list \<Rightarrow> int \<Rightarrow> thread_manager \<Rightarrow> thread_manager beh option" where
  "createConnection rands handler m =
     (if workers_size m \<ge> tm_maximumThreadCount m
      then Some (Returns (m\<lparr>tm_rejected := tm_rejected m @ [handler]\<rparr>))
      else (case fresh_id (tm_workers m) rands of
              None \<Rightarrow> None
            | Some (Returns i) \<Rightarrow> Some (Returns (m\<lparr>tm_workers := (tm_workers m)(i \<mapsto> Some handler),
                tm_threads := (tm_threads m)(i \<mapsto> handler)\<rparr>))
            | Some UB \<Rightarrow> Some UB
            | Some (Throws e) \<Rightarrow> Some (Throws e)))"

text \<open>A worker that is not in the maps would be looked up past their end.\<close>

definition onFinished :: "u64 \<Rightarrow> thread_manager \<Rightarrow> thread_manager beh" where
  "onFinished i m =
     (if tm_threads m i = None \<or> tm_workers m i = None then UB
      else Returns (m\<lparr>tm_threads := (tm_threads m)(i := None), tm_workers := (tm_workers m)(i := None)\<rparr>))"

text \<open>The destructor erases from the map of workers while it iterates over it.\<close>

definition destroy_manager :: "thread_manager \<Rightarrow> unit beh" where
  "destroy_manager m = (if \<exists>i \<in> dom (tm_workers m). the (tm_workers m i) \<noteq> None then UB else Returns ())"

text \<open>The runs of the manager: connections come and workers of its maps finish.\<close>

inductive manager_step :: "thread_manager \<Rightarrow> thread_manager \<Rightarrow> bool" where
  connection: "createConnection rands h m = Some (Returns n) \<Longrightarrow> manager_step m n"
| finished: "i \<in> dom (tm_workers m) \<Longrightarrow> onFinished i m = Returns n \<Longrightarrow> manager_step m n"
| count: "setThreadCount c m = (r, n) \<Longrightarrow> manager_step m n"

inductive manager_runs :: "thread_manager \<Rightarrow> thread_manager \<Rightarrow> bool" where
  refl: "manager_runs m m"
| step: "manager_runs m n \<Longrightarrow> manager_step n k \<Longrightarrow> manager_runs m k"

definition manager_inv :: "thread_manager \<Rightarrow> bool" where
  "manager_inv m \<longleftrightarrow> finite (dom (tm_workers m)) \<and> dom (tm_threads m) = dom (tm_workers m) \<and>
     0 \<le> availableThreads m \<and> (\<forall>i \<in> dom (tm_workers m). the (tm_workers m i) \<noteq> None)"

lemma fresh_id_new: "fresh_id ws rands = Some (Returns i) \<Longrightarrow> ws i = None"
  by (induction ws rands rule: fresh_id.induct) (auto simp: Let_def split: if_splits)

lemma createConnection_inv:
  assumes "manager_inv m" and "createConnection rands h m = Some (Returns n)"
  shows "manager_inv n"
proof (cases "workers_size m \<ge> tm_maximumThreadCount m")
  case True
  then have "n = m\<lparr>tm_rejected := tm_rejected m @ [h]\<rparr>" using assms(2) by (simp add: createConnection_def)
  then show ?thesis using assms(1) by (simp add: manager_inv_def availableThreads_def workers_size_def)
next
  case False
  then obtain i where i: "fresh_id (tm_workers m) rands = Some (Returns i)"
    and n: "n = m\<lparr>tm_workers := (tm_workers m)(i \<mapsto> Some h), tm_threads := (tm_threads m)(i \<mapsto> h)\<rparr>"
    using assms(2) by (auto simp: createConnection_def split: option.splits beh.splits)
  have "i \<notin> dom (tm_workers m)" using fresh_id_new[OF i] by (simp add: domIff)
  then have "workers_size n = workers_size m + 1"
    using assms(1) by (simp add: n workers_size_def manager_inv_def)
  then show ?thesis using assms(1) False by (auto simp: n manager_inv_def availableThreads_def)
qed

lemma onFinished_inv:
  assumes "manager_inv m" and "i \<in> dom (tm_workers m)" and "onFinished i m = Returns n"
  shows "manager_inv n"
proof -
  have n: "n = m\<lparr>tm_threads := (tm_threads m)(i := None), tm_workers := (tm_workers m)(i := None)\<rparr>"
    using assms(3) by (auto simp: onFinished_def split: if_splits)
  have "workers_size n \<le> workers_size m"
    using assms(1) by (simp add: n workers_size_def manager_inv_def card_mono)
  then show ?thesis using assms(1) by (auto simp: n manager_inv_def availableThreads_def)
qed

lemma manager_step_inv: "manager_step m n \<Longrightarrow> manager_inv m \<Longrightarrow> manager_inv n"
proof (induction rule: manager_step.induct)
  case (count c m r n)
  then show ?case
    by (auto simp: setThreadCount_def manager_inv_def availableThreads_def workers_size_def split: if_splits)
qed (auto intro: createConnection_inv onFinished_inv)

lemma manager_runs_inv: "manager_runs m n \<Longrightarrow> manager_inv m \<Longrightarrow> manager_inv n"
  by (induction rule: manager_runs.induct) (auto intro: manager_step_inv)

lemma new_manager_inv: "manager_inv (new_thread_manager ideal)"
  by (simp add: new_thread_manager_def setThreadCount_def manager_inv_def availableThreads_def workers_size_def)

subsection \<open>Properties\<close>

text \<open>
  The manager never has more workers than threads it may use, every worker has its
  thread, and a worker of its maps that finishes is always found there. But destroying
  the manager while a worker is left is undefined.
\<close>

theorem manager_bounded:
  assumes "manager_runs (new_thread_manager ideal) m"
  shows "0 \<le> availableThreads m \<and> dom (tm_threads m) = dom (tm_workers m) \<and>
    (\<forall>i \<in> dom (tm_workers m). onFinished i m \<noteq> UB \<and> destroy_manager m = UB)"
  using manager_runs_inv[OF assms new_manager_inv]
  by (auto simp: manager_inv_def onFinished_def destroy_manager_def)

lemma manager_bounded_witness:
  "\<exists>m. createConnection [(3, 5)] 7 (new_thread_manager 1) = Some (Returns m) \<and> availableThreads m = 0 \<and>
     destroy_manager m = UB"
proof -
  obtain m where m: "createConnection [(3, 5)] 7 (new_thread_manager 1) = Some (Returns m)"
    "tm_workers m = [15 \<mapsto> Some 7]" "tm_maximumThreadCount m = 1"
    by (simp add: createConnection_def new_thread_manager_def setThreadCount_def workers_size_def Let_def)
  have "manager_runs (new_thread_manager 1) m" using m(1) by (blast intro: manager_runs.intros manager_step.intros)
  from manager_bounded[OF this] m show ?thesis
    by (intro exI[of _ m]) (simp add: availableThreads_def workers_size_def)
qed

text \<open>
  A request over the exchange protocol. A connected worker answers a packet exactly
  when its type has a processor that marks the response valid; then it writes one message,
  which the peer decodes to that response. Bytes that do not decode are dropped.
\<close>

theorem worker_answers:
  assumes "xlib_ok xl" and "cw_connected w" and "xp_isValid p"
    and "process p (cw_processor w) = (response, pp)"
  shows "cw_written (onMessage xl (convert_to xl p) w) =
      cw_written w @ (if xp_isValid response then [convert_to xl response] else []) \<and>
    (xp_isValid response \<longrightarrow> convert_from xl (convert_to xl response) = response) \<and>
    (\<not> xp_isValid (convert_from xl bytes) \<longrightarrow> onMessage xl bytes w = w)"
  using assms by (simp add: onMessage_def convert_roundtrip Let_def)

definition sample_xlib :: xlib where
  "sample_xlib = \<lparr>xl_encodeHex = (\<lambda>s. Inr (CHR 0x78 # s)),
     xl_decodeHex = (\<lambda>s. case s of [] \<Rightarrow> Inl OutOfRange | c # t \<Rightarrow> Inr t),
     xl_archive = (\<lambda>(t, c, d). Inr (to_dec (unat t) @ [CHR 0x20] @ to_dec (length c) @ [CHR 0x20] @ c @ d)),
     xl_unarchive = (\<lambda>s. let t = takeWhile (\<lambda>c. c \<noteq> CHR 0x20) s; r = drop (Suc (length t)) s;
        n = takeWhile (\<lambda>c. c \<noteq> CHR 0x20) r; b = drop (Suc (length n)) r
      in Inr (word_of_nat (dec_value t), take (dec_value n) b, drop (dec_value n) b))\<rparr>"

lemma to_dec_no_space: "CHR 0x20 \<notin> set (to_dec n)"
proof (induction n rule: to_dec.induct)
  case (1 n)
  have d: "digit k \<noteq> CHR 0x20" if "k < 10" for k
    using of_char_digit[OF that] by auto
  show ?case using 1 d[of n] d[of "n mod 10"] by (subst to_dec.simps) auto
qed

lemma takeWhile_to_dec: "takeWhile (\<lambda>c. c \<noteq> CHR 0x20) (to_dec n @ CHR 0x20 # r) = to_dec n"
  using to_dec_no_space[of n] by (induction "to_dec n" arbitrary: n) (auto simp: takeWhile_append)

lemma sample_xlib_ok: "xlib_ok sample_xlib"
  unfolding xlib_ok_def
proof (intro conjI allI)
  fix f :: fields
  obtain t c d where f: "f = (t, c, d)" by (cases f)
  show "\<exists>s h. xl_archive sample_xlib f = Inr s \<and> xl_encodeHex sample_xlib s = Inr h \<and> h \<noteq> [] \<and>
      xl_decodeHex sample_xlib h = Inr s \<and> xl_unarchive sample_xlib s = Inr f"
    by (simp add: sample_xlib_def f takeWhile_to_dec dec_value_to_dec Let_def)
qed (simp add: sample_xlib_def)

lemma worker_answers_witness:
  "\<exists>w. cw_written (onMessage sample_xlib (convert_to sample_xlib \<lparr>xp_type = 1, xp_command = ''c'', xp_data = [], xp_isValid = True\<rparr>) w) =
     [convert_to sample_xlib \<lparr>xp_type = 1, xp_command = ''ok'', xp_data = [], xp_isValid = True\<rparr>]"
proof -
  let ?p = "\<lparr>xp_type = 1, xp_command = ''c'', xp_data = [], xp_isValid = True\<rparr>"
  let ?r = "\<lparr>xp_type = 1, xp_command = ''ok'', xp_data = [], xp_isValid = True\<rparr>"
  let ?w = "\<lparr>cw_connected = True, cw_workerId = 0,
    cw_processor = \<lparr>pp_info = Some (\<lambda>_ _. ?r), pp_action = None, pp_error = False, pp_errors = []\<rparr>,
    cw_written = [], cw_finished = 0\<rparr>"
  have "process ?p (cw_processor ?w) = (?r, cw_processor ?w)" by (simp add: process_def)
  from worker_answers[OF sample_xlib_ok _ _ this, of "[]"] show ?thesis
    by (intro exI[of _ ?w]) simp
qed

subsection \<open>The search for an id ends\<close>

lemma word_of_int_inj_31:
  "0 \<le> a \<Longrightarrow> a < 2 ^ 31 \<Longrightarrow> 0 \<le> b \<Longrightarrow> b < 2 ^ 31 \<Longrightarrow> (word_of_int a :: u64) = word_of_int b \<Longrightarrow> a = b"
proof -
  assume a: "0 \<le> a" "a < 2 ^ 31" and b: "0 \<le> b" "b < 2 ^ 31" and e: "(word_of_int a :: u64) = word_of_int b"
  have "take_bit 64 a = take_bit 64 b" using e by (simp add: word_of_int_eq_iff)
  moreover have "take_bit 64 a = a" "take_bit 64 b = b"
    using a b by (auto simp: take_bit_int_eq_self_iff)
  ultimately show "a = b" by simp
qed

lemma fresh_id_result:
  "\<forall>(a, b) \<in> set rands. a * b < 2 ^ 31 \<Longrightarrow>
   fresh_id ws rands = (case List.find (\<lambda>i. ws i = None) (map (\<lambda>(a, b). word_of_int (a * b)) rands) of
     None \<Rightarrow> None | Some i \<Rightarrow> Some (Returns i))"
  by (induction ws rands rule: fresh_id.induct) (auto simp: Let_def)

text \<open>More distinct products than ids in use: one of them is free.\<close>

lemma fresh_id_found:
  assumes "finite (dom ws)" and ok: "\<forall>(a, b) \<in> set rands. 0 \<le> a \<and> 0 \<le> b \<and> a * b < 2 ^ 31"
    and "card (dom ws) < card ((\<lambda>(a, b). a * b) ` set rands)"
  shows "\<exists>i. fresh_id ws rands = Some (Returns i)"
proof -
  let ?prod = "\<lambda>(a, b). a * b" and ?id = "\<lambda>(a, b). word_of_int (a * b) :: u64"
  have "inj_on (word_of_int :: int \<Rightarrow> u64) (?prod ` set rands)"
  proof (rule inj_onI)
    fix x y assume "x \<in> ?prod ` set rands" "y \<in> ?prod ` set rands" and e: "(word_of_int x :: u64) = word_of_int y"
    then have "0 \<le> x \<and> x < 2 ^ 31" "0 \<le> y \<and> y < 2 ^ 31" using ok by auto
    then show "x = y" using e word_of_int_inj_31 by blast
  qed
  then have "card ((word_of_int :: int \<Rightarrow> u64) ` ?prod ` set rands) = card (?prod ` set rands)" by (rule card_image)
  moreover have "(word_of_int :: int \<Rightarrow> u64) ` ?prod ` set rands = ?id ` set rands"
    by (simp add: image_image case_prod_beta)
  ultimately have "card (dom ws) < card (?id ` set rands)" using assms(3) by simp
  then have "\<not> ?id ` set rands \<subseteq> dom ws" using card_mono[OF assms(1)] by (simp add: not_le[symmetric]) blast
  then obtain i where "i \<in> set (map ?id rands)" "ws i = None" by (auto simp: domIff)
  then have "List.find (\<lambda>i. ws i = None) (map ?id rands) \<noteq> None" unfolding find_None_iff by blast
  moreover have "\<forall>(a, b) \<in> set rands. a * b < 2 ^ 31" using ok by auto
  ultimately show ?thesis by (auto simp: fresh_id_result split: option.split)
qed



end
