(* ===== verification/Legacy_Clients.thy ===== *)
theory Legacy_Clients
  imports Legacy_Exchange
begin

text \<open>
  The Qt clients and servers over TCP and UDP (\<^verbatim>\<open>Legacy/tcpclientinstance.cpp\<close>,
  \<^verbatim>\<open>tcpserverinstance.cpp\<close>, \<^verbatim>\<open>udpclientinstance.cpp\<close>,
  \<^verbatim>\<open>udpserverinstance.cpp\<close>). The sockets of Qt are arguments of the operations that
  ask them something.
\<close>

subsection \<open>TCP client\<close>

text \<open>
  \<open>tk_attached\<close>: the slots \<open>onMessage\<close> and \<open>onFail\<close> are connected to the signals of
  the socket, from the constructor on until the destructor. \<open>tk_connected\<close>: the socket is in the connected state.
\<close>

record tcp_client =
  tk_connectionTimeout :: u16
  tk_sendTimeout :: u16
  tk_attached :: bool
  tk_connected :: bool
  tk_done :: bool
  tk_responseGot :: bool
  tk_readBuf :: string
  tk_response :: Packet
  tk_hostAddress :: string
  tk_serverPort :: u16
  tk_written :: "string list"
  tk_signals :: "string list"
  tk_gotPackets :: "Packet list"

definition new_tcp_client :: tcp_client where
  "new_tcp_client = \<lparr>tk_connectionTimeout = 1000, tk_sendTimeout = 100, tk_attached = True, tk_connected = False,
     tk_done = False, tk_responseGot = False, tk_readBuf = [], tk_response = new_Packet,
     tk_hostAddress = ''localhost'', tk_serverPort = 8000, tk_written = [], tk_signals = [], tk_gotPackets = []\<rparr>"

definition tcp_isConnected :: "tcp_client \<Rightarrow> bool" where
  "tcp_isConnected c = tk_connected c"

definition setupServer :: "string \<Rightarrow> u16 \<Rightarrow> tcp_client \<Rightarrow> tcp_client" where
  "setupServer address port c =
     (if \<not> tcp_isConnected c then c\<lparr>tk_hostAddress := address, tk_serverPort := port\<rparr> else c)"

definition setConnectionTimeout :: "u16 \<Rightarrow> tcp_client \<Rightarrow> tcp_client" where
  "setConnectionTimeout t c = c\<lparr>tk_connectionTimeout := t\<rparr>"

definition setSendTimeout :: "u16 \<Rightarrow> tcp_client \<Rightarrow> tcp_client" where
  "setSendTimeout t c = c\<lparr>tk_sendTimeout := t\<rparr>"

text \<open>\<open>waited\<close>: whether the connection was made within the timeout.\<close>

definition tcp_connect :: "(string \<Rightarrow> u16 \<Rightarrow> u16 \<Rightarrow> bool) \<Rightarrow> tcp_client \<Rightarrow> tcp_client" where
  "tcp_connect waited c =
     (if tcp_isConnected c then c
      else if \<not> waited (tk_hostAddress c) (tk_serverPort c) (tk_connectionTimeout c) then c
      else let c1 = c\<lparr>tk_connected := True\<rparr>; c2 = c1\<lparr>tk_done := \<not> tcp_isConnected c1\<rparr> in
        if \<not> tk_done c2 then c2\<lparr>tk_signals := tk_signals c2 @ [''connected'']\<rparr> else c2)"

text \<open>
  Leaving the connected state makes Qt signal \<^verbatim>\<open>disconnected\<close>, which \<open>onFail\<close> passes on;
  \<open>disconnect\<close> then signals a second time. \<open>left\<close>: whether the state was left.
\<close>

definition onFail :: "tcp_client \<Rightarrow> tcp_client" where
  "onFail c = c\<lparr>tk_signals := tk_signals c @ [''disconnected'']\<rparr>"

definition disconnected_signal :: "tcp_client \<Rightarrow> tcp_client" where
  "disconnected_signal c = (if tk_attached c then onFail c else c)"

definition tcp_disconnect :: "bool \<Rightarrow> tcp_client \<Rightarrow> tcp_client" where
  "tcp_disconnect left c =
     (if \<not> tcp_isConnected c then c
      else let c1 = c\<lparr>tk_done := True\<rparr>; c2 = (if left then disconnected_signal (c1\<lparr>tk_connected := False\<rparr>) else c1) in
        if \<not> tcp_isConnected c2 then c2\<lparr>tk_signals := tk_signals c2 @ [''disconnected'']\<rparr> else c2)"

text \<open>\<open>write\<close>: the number of bytes the socket takes, or -1.\<close>

definition sendMessageSlot :: "xlib \<Rightarrow> (string \<Rightarrow> int) \<Rightarrow> Packet \<Rightarrow> tcp_client \<Rightarrow> tcp_client" where
  "sendMessageSlot xl write p c =
     (if \<not> tcp_isConnected c then c
      else if xp_command p = [] then c
      else let sendData = convert_to xl p; c1 = c\<lparr>tk_responseGot := False\<rparr> in
        if write sendData = - 1 then c1 else c1\<lparr>tk_written := tk_written c1 @ [sendData]\<rparr>)"

definition tcp_onMessage :: "xlib \<Rightarrow> string \<Rightarrow> tcp_client \<Rightarrow> tcp_client" where
  "tcp_onMessage xl bytes c =
     (let c1 = c\<lparr>tk_readBuf := bytes\<rparr> in
      if length bytes < 2 then c1
      else let c2 = c1\<lparr>tk_response := convert_from xl bytes, tk_responseGot := True\<rparr>
        in c2\<lparr>tk_gotPackets := tk_gotPackets c2 @ [tk_response c2]\<rparr>)"

definition messagesAvailable :: "tcp_client \<Rightarrow> bool" where
  "messagesAvailable c = tk_responseGot c"

text \<open>\<open>getMessage\<close> calls itself and nothing else; \<open>None\<close> is a call that does not return.\<close>

partial_function (option) getMessage :: "tcp_client \<Rightarrow> (Packet \<times> tcp_client) option" where
  "getMessage c = getMessage c"

text \<open>The destructor first disconnects the slots from the socket.\<close>

definition tcp_destroy :: "bool \<Rightarrow> tcp_client \<Rightarrow> tcp_client" where
  "tcp_destroy left c =
     (let c1 = c\<lparr>tk_attached := False\<rparr> in if tcp_isConnected c1 then tcp_disconnect left c1 else c1)"

text \<open>\<open>flushed\<close>: whether the socket reports bytes written within the timeout.\<close>

definition waitForSend :: "(int \<Rightarrow> bool) \<Rightarrow> int \<Rightarrow> tcp_client \<Rightarrow> bool" where
  "waitForSend flushed timeout c = flushed timeout"

subsection \<open>TCP server\<close>

record tcp_server =
  tv_listening :: bool
  tv_manager :: thread_manager
  tv_processor :: packet_processor

definition tcp_server_start :: "(string \<Rightarrow> u32 \<Rightarrow> bool) \<Rightarrow> string \<Rightarrow> u32 \<Rightarrow> tcp_server \<Rightarrow> bool \<times> tcp_server" where
  "tcp_server_start listens host port s =
     (if \<not> listens host port then (False, s) else (True, s\<lparr>tv_listening := True\<rparr>))"

definition setInfoProcessor :: "(Packet \<Rightarrow> Packet \<Rightarrow> Packet) option \<Rightarrow> tcp_server \<Rightarrow> tcp_server" where
  "setInfoProcessor f s = s\<lparr>tv_processor := (tv_processor s)\<lparr>pp_info := f\<rparr>\<rparr>"

definition setActionProcessor :: "(Packet \<Rightarrow> Packet \<Rightarrow> Packet) option \<Rightarrow> tcp_server \<Rightarrow> tcp_server" where
  "setActionProcessor f s = s\<lparr>tv_processor := (tv_processor s)\<lparr>pp_action := f\<rparr>\<rparr>"

definition setErrorProcessor :: "bool \<Rightarrow> tcp_server \<Rightarrow> tcp_server" where
  "setErrorProcessor f s = s\<lparr>tv_processor := (tv_processor s)\<lparr>pp_error := f\<rparr>\<rparr>"

definition incomingConnection :: "(int \<times> int) list \<Rightarrow> int \<Rightarrow> tcp_server \<Rightarrow> tcp_server beh option" where
  "incomingConnection rands handle s =
     map_option (\<lambda>b. case b of Returns m \<Rightarrow> Returns (s\<lparr>tv_manager := m\<rparr>) | UB \<Rightarrow> UB | Throws e \<Rightarrow> Throws e)
       (createConnection rands handle (tv_manager s))"

subsection \<open>UDP client\<close>

text \<open>\<open>uq_socket\<close>: the socket exists; \<open>uq_thread\<close>: its thread runs an event loop.\<close>

record udp_client_q =
  uq_errorText :: string
  uq_hostAddress :: string
  uq_port :: u16
  uq_socket :: bool
  uq_thread :: bool

definition new_udp_client_q :: udp_client_q where
  "new_udp_client_q = \<lparr>uq_errorText = [], uq_hostAddress = ''127.0.0.1'', uq_port = 0,
     uq_socket = True, uq_thread = True\<rparr>"

text \<open>The destructor deletes the socket and tells the thread to leave its loop; the thread object stays.\<close>

definition destroy_udp_client_q :: "udp_client_q \<Rightarrow> udp_client_q" where
  "destroy_udp_client_q c = c\<lparr>uq_socket := False, uq_thread := False\<rparr>"

definition setup_q :: "string \<Rightarrow> u16 \<Rightarrow> udp_client_q \<Rightarrow> udp_client_q" where
  "setup_q host port c = c\<lparr>uq_hostAddress := host, uq_port := port\<rparr>"

text \<open>\<open>write\<close>: the number of bytes sent, or -1; the code takes it for a truth value.\<close>

definition sendMessage :: "(string \<Rightarrow> string \<Rightarrow> u16 \<Rightarrow> int) \<Rightarrow> string \<Rightarrow> udp_client_q \<Rightarrow> bool \<times> udp_client_q" where
  "sendMessage write data c =
     (if write data (uq_hostAddress c) (uq_port c) = 0 then (False, c\<lparr>uq_errorText := ''Write error''\<rparr>)
      else (True, c))"

definition sendPacket :: "xlib \<Rightarrow> (string \<Rightarrow> string \<Rightarrow> u16 \<Rightarrow> int) \<Rightarrow> Packet \<Rightarrow> udp_client_q \<Rightarrow> bool \<times> udp_client_q" where
  "sendPacket xl write p c = sendMessage write (convert_to xl p) c"

definition errorText_q :: "udp_client_q \<Rightarrow> string" where
  "errorText_q c = uq_errorText c"

subsection \<open>UDP server\<close>

text \<open>
  \<open>uz_slots\<close>: the process threads, all null (nothing creates one). \<open>uz_socket\<close>: the
  socket, \<open>None\<close> once it was deleted; in it whether it is bound. \<open>uz_pending\<close>: the
  datagrams that have not been read.
\<close>

record udp_server_q =
  uz_threadCount :: nat
  uz_slots :: "bool list"
  uz_threadInputs :: "string list"
  uz_threadsToRemove :: "bool list"
  uz_resultVect :: "Packet list"
  uz_done :: bool
  uz_socket :: "bool option"
  uz_connections :: nat
  uz_pending :: "string list"
  uz_emitted :: "Packet list"

definition new_udp_server_q :: "nat \<Rightarrow> udp_server_q" where
  "new_udp_server_q n = \<lparr>uz_threadCount = n, uz_slots = replicate n False, uz_threadInputs = replicate n [],
     uz_threadsToRemove = replicate n False, uz_resultVect = [], uz_done = False, uz_socket = Some False,
     uz_connections = 0, uz_pending = [], uz_emitted = []\<rparr>"

definition start_q :: "bool \<Rightarrow> udp_server_q \<Rightarrow> (bool \<times> udp_server_q) beh" where
  "start_q binds s =
     (case uz_socket s of
        None \<Rightarrow> UB
      | Some b \<Rightarrow> let s1 = s\<lparr>uz_connections := Suc (uz_connections s)\<rparr> in
          Returns (binds \<and> \<not> b, s1\<lparr>uz_socket := Some (b \<or> binds)\<rparr>))"

text \<open>A bound UDP socket is in the bound state, never in the listening one.\<close>

definition isRunning_q :: "udp_server_q \<Rightarrow> bool beh" where
  "isRunning_q s = (case uz_socket s of None \<Rightarrow> UB | Some b \<Rightarrow> Returns False)"

definition threadFinishedSignal :: "int \<Rightarrow> udp_server_q \<Rightarrow> udp_server_q" where
  "threadFinishedSignal n s =
     (if n < int (uz_threadCount s) \<and> 0 \<le> n
      then s\<lparr>uz_threadsToRemove := (uz_threadsToRemove s)[nat n := True]\<rparr> else s)"

definition stop_q :: "udp_server_q \<Rightarrow> udp_server_q" where
  "stop_q s =
     (if uz_done s then s
      else (threadFinishedSignal (- 1) (s\<lparr>uz_done := True\<rparr>))\<lparr>uz_socket := None, uz_connections := 0\<rparr>)"

text \<open>Reading pending datagrams: the first free slot takes the data; no thread is started.\<close>

definition free_slot :: "bool list \<Rightarrow> nat option" where
  "free_slot slots = List.find (\<lambda>i. \<not> slots ! i) [0..<length slots]"

fun read_datagrams :: "string list \<Rightarrow> udp_server_q \<Rightarrow> udp_server_q" where
  "read_datagrams [] s = s\<lparr>uz_pending := []\<rparr>"
| "read_datagrams (d # ds) s =
     (case free_slot (uz_slots s) of
        None \<Rightarrow> s\<lparr>uz_pending := ds\<rparr>
      | Some i \<Rightarrow> read_datagrams ds (s\<lparr>uz_threadInputs := (uz_threadInputs s)[i := d]\<rparr>))"

definition onMessage_q :: "udp_server_q \<Rightarrow> udp_server_q" where
  "onMessage_q s = read_datagrams (uz_pending s) s"

text \<open>Taking a result removes the first element also when there is none, which is undefined.\<close>

definition getMessage_q :: "udp_server_q \<Rightarrow> (Packet \<times> udp_server_q) beh" where
  "getMessage_q s =
     (case uz_resultVect s of [] \<Rightarrow> UB | p # ps \<Rightarrow> Returns (p, s\<lparr>uz_resultVect := ps\<rparr>))"

text \<open>The body of a process thread, had one been started.\<close>

definition processThreadLoop :: "xlib \<Rightarrow> nat \<Rightarrow> udp_server_q \<Rightarrow> udp_server_q beh" where
  "processThreadLoop xl n s =
     (let s1 = s\<lparr>uz_resultVect := uz_resultVect s @ [convert_from xl (uz_threadInputs s ! n)]\<rparr> in
      case getMessage_q s1 of
        UB \<Rightarrow> UB | Throws e \<Rightarrow> Throws e
      | Returns (p, s2) \<Rightarrow> Returns (threadFinishedSignal (int n) (s2\<lparr>uz_emitted := uz_emitted s2 @ [p]\<rparr>)))"

inductive udp_q_step :: "udp_server_q \<Rightarrow> udp_server_q \<Rightarrow> bool" where
  starts: "start_q binds s = Returns (r, t) \<Longrightarrow> udp_q_step s t"
| stops: "udp_q_step s (stop_q s)"
| arrives: "uz_socket s = Some True \<Longrightarrow> udp_q_step s (s\<lparr>uz_pending := uz_pending s @ [d]\<rparr>)"
| message: "uz_socket s = Some True \<Longrightarrow> 0 < uz_connections s \<Longrightarrow> udp_q_step s (onMessage_q s)"

inductive udp_q_runs :: "udp_server_q \<Rightarrow> udp_server_q \<Rightarrow> bool" where
  refl: "udp_q_runs s s"
| step: "udp_q_runs s t \<Longrightarrow> udp_q_step t u \<Longrightarrow> udp_q_runs s u"

lemma free_slot_replicate: "free_slot (replicate n False) = (if n = 0 then None else Some 0)"
  by (cases n) (simp_all add: free_slot_def upt_rec)

lemma read_datagrams_effect:
  "uz_slots s = replicate n False \<Longrightarrow>
   uz_emitted (read_datagrams ds s) = uz_emitted s \<and> uz_slots (read_datagrams ds s) = uz_slots s \<and>
   uz_threadInputs (read_datagrams ds s) =
     (if n = 0 \<or> ds = [] then uz_threadInputs s else (uz_threadInputs s)[0 := last ds])"
  by (induction ds s rule: read_datagrams.induct) (auto simp: free_slot_replicate)

definition udp_q_inv :: "nat \<Rightarrow> udp_server_q \<Rightarrow> bool" where
  "udp_q_inv n s \<longleftrightarrow> uz_slots s = replicate n False \<and> uz_emitted s = [] \<and>
     length (uz_threadInputs s) = n \<and> (\<forall>i < n. 0 < i \<longrightarrow> uz_threadInputs s ! i = [])"

lemma onMessage_q_inv:
  assumes "udp_q_inv n s" shows "udp_q_inv n (onMessage_q s)"
proof -
  note e = read_datagrams_effect[of s n "uz_pending s"]
  show ?thesis using assms e by (auto simp: udp_q_inv_def onMessage_q_def)
qed

lemma udp_q_step_inv: "udp_q_step s t \<Longrightarrow> udp_q_inv n s \<Longrightarrow> udp_q_inv n t"
proof (induction rule: udp_q_step.induct)
  case (starts binds s r t)
  then show ?case by (auto simp: start_q_def udp_q_inv_def Let_def split: option.splits)
next
  case (stops s)
  then show ?case by (simp add: stop_q_def udp_q_inv_def threadFinishedSignal_def)
next
  case (arrives s d)
  then show ?case by (simp add: udp_q_inv_def)
qed (rule onMessage_q_inv)

lemma udp_q_runs_inv: "udp_q_runs s t \<Longrightarrow> udp_q_inv n s \<Longrightarrow> udp_q_inv n t"
  by (induction rule: udp_q_runs.induct) (auto intro: udp_q_step_inv)

lemma getMessage_diverges: "getMessage c = None"
proof -
  have "False" if "getMessage c = Some r" for r
    using that by (rule getMessage.raw_induct[of "\<lambda>_ _. False", rotated]) blast
  then show ?thesis by (cases "getMessage c") auto
qed

text \<open>
  Errors of the UDP client are inverted: a datagram that fails to be written (-1) is
  reported as sent; an empty one that was sent, as every invalid packet is, as an error.
\<close>

lemma udp_send_inverted:
  "fst (sendMessage write data c) \<longleftrightarrow> write data (uq_hostAddress c) (uq_port c) \<noteq> 0"
  "\<not> xp_isValid p \<Longrightarrow> write [] (uq_hostAddress c) (uq_port c) = 0 \<Longrightarrow>
    sendPacket xl write p c = (False, c\<lparr>uq_errorText := ''Write error''\<rparr>)"
  by (simp_all add: sendMessage_def sendPacket_def convert_to_def)

subsection \<open>Properties\<close>

text \<open>
  The UDP server hands out nothing. In every state it can reach no packet was
  emitted, and only its first slot holds data: each datagram overwrites the one before,
  since no thread is ever started for it.
\<close>

theorem udp_server_q_emits_nothing:
  assumes "udp_q_runs (new_udp_server_q n) s"
  shows "uz_emitted s = [] \<and> (\<forall>i < n. 0 < i \<longrightarrow> uz_threadInputs s ! i = [])"
proof -
  have "udp_q_inv n (new_udp_server_q n)" by (simp add: udp_q_inv_def new_udp_server_q_def)
  from udp_q_runs_inv[OF assms this] show ?thesis by (simp add: udp_q_inv_def)
qed

lemma udp_server_q_emits_nothing_witness:
  "let s = (new_udp_server_q 2)\<lparr>uz_socket := Some True, uz_connections := 1, uz_pending := [''d'']\<rparr>
   in uz_emitted (onMessage_q s) = [] \<and> uz_threadInputs (onMessage_q s) ! 1 = []"
proof -
  let ?a = "(new_udp_server_q 2)\<lparr>uz_connections := 1, uz_socket := Some True\<rparr>"
  let ?b = "?a\<lparr>uz_pending := uz_pending ?a @ [''d'']\<rparr>"
  have "start_q True (new_udp_server_q 2) = Returns (True, ?a)"
    by (simp add: start_q_def new_udp_server_q_def)
  then have "udp_q_step (new_udp_server_q 2) ?a" by (rule udp_q_step.starts)
  moreover have "udp_q_step ?a ?b" by (rule udp_q_step.arrives) simp
  moreover have "udp_q_step ?b (onMessage_q ?b)" by (rule udp_q_step.message) simp_all
  ultimately have "udp_q_runs (new_udp_server_q 2) (onMessage_q ?b)" by (meson udp_q_runs.intros)
  from udp_server_q_emits_nothing[OF this]
  show ?thesis by (simp add: new_udp_server_q_def Let_def)
qed

text \<open>
  C55. Messages of the TCP client cannot be fetched. Once a message of at least two bytes
  has arrived, \<open>messagesAvailable\<close> stays true until the next message is sent (whatever else is called), and
  \<open>getMessage\<close> never returns; the message is only in the signal.
\<close>

theorem tcp_message_not_fetched:
  "(2 \<le> length bytes \<longrightarrow> messagesAvailable (tcp_onMessage xl bytes c) \<and>
      last (tk_gotPackets (tcp_onMessage xl bytes c)) = convert_from xl bytes) \<and>
   getMessage c = None \<and>
   (messagesAvailable c \<longrightarrow> messagesAvailable (tcp_connect w c) \<and> messagesAvailable (tcp_disconnect l c) \<and>
      messagesAvailable (tcp_onMessage xl b c) \<and> messagesAvailable (setupServer h p c))"
  by (simp add: getMessage_diverges messagesAvailable_def tcp_onMessage_def tcp_connect_def
      tcp_disconnect_def disconnected_signal_def onFail_def setupServer_def Let_def)

lemma tcp_message_not_fetched_witness:
  "messagesAvailable (tcp_disconnect True (tcp_onMessage sample_xlib ''xx'' new_tcp_client))"
  using tcp_message_not_fetched[of "''xx''" sample_xlib new_tcp_client]
    tcp_message_not_fetched[of "[]" sample_xlib "tcp_onMessage sample_xlib ''xx'' new_tcp_client" _ True]
  by simp

end
