(* ===== verification/Legacy_Udp_System.thy ===== *)
theory Legacy_Udp_System
  imports Legacy_Clients
begin

text \<open>
  The Qt UDP clients and the Qt UDP server as their users see them (\<^verbatim>\<open>Legacy/udpclientinstance.h\<close>,
  \<^verbatim>\<open>Legacy/udpserverinstance.h\<close>): their public operations as types of calls, and both joined by a network that
  may lose, copy and reorder.
\<close>

subsection \<open>Calls\<close>

datatype udpq_call = Setup string u16 | Send_packet Packet | Send_message string | Error_text

datatype udpq_answer = Nothing | Done bool | Text string

text \<open>\<open>write\<close>: what \<^verbatim>\<open>writeDatagram\<close> returns.\<close>

fun do_udpq_call ::
  "xlib \<Rightarrow> (string \<Rightarrow> string \<Rightarrow> u16 \<Rightarrow> int) \<Rightarrow> udpq_call \<Rightarrow> udp_client_q \<Rightarrow> udpq_answer \<times> udp_client_q" where
  "do_udpq_call xl write (Setup h p) c = (Nothing, setup_q h p c)"
| "do_udpq_call xl write (Send_packet p) c = (case sendPacket xl write p c of (b, d) \<Rightarrow> (Done b, d))"
| "do_udpq_call xl write (Send_message m) c = (case sendMessage write m c of (b, d) \<Rightarrow> (Done b, d))"
| "do_udpq_call xl write Error_text c = (Text (errorText_q c), c)"

text \<open>The datagram a call hands to the socket, if it has one and the socket takes it.\<close>

definition handed :: "xlib \<Rightarrow> (string \<Rightarrow> string \<Rightarrow> u16 \<Rightarrow> int) \<Rightarrow> udpq_call \<Rightarrow> udp_client_q \<Rightarrow> string list" where
  "handed xl write x c =
     (let data = (case x of Send_packet p \<Rightarrow> [convert_to xl p] | Send_message m \<Rightarrow> [m] | _ \<Rightarrow> []) in
      filter (\<lambda>d. 0 \<le> write d (uq_hostAddress c) (uq_port c)) data)"

datatype udpq_server_call = Start bool | Is_running | Stop | On_message

fun do_udpq_server_call :: "udpq_server_call \<Rightarrow> udp_server_q \<Rightarrow> (udpq_answer \<times> udp_server_q) beh" where
  "do_udpq_server_call (Start binds) s = bind_beh (start_q binds s) (\<lambda>(b, t). Returns (Done b, t))"
| "do_udpq_server_call Is_running s = bind_beh (isRunning_q s) (\<lambda>b. Returns (Done b, s))"
| "do_udpq_server_call Stop s = Returns (Nothing, stop_q s)"
| "do_udpq_server_call On_message s = Returns (Nothing, onMessage_q s)"

subsection \<open>Clients, network and server\<close>

record udpq_net =
  qn_clients :: "udp_client_q list"
  qn_sent :: "string list"
  qn_server :: udp_server_q

definition new_udpq_net :: "nat \<Rightarrow> udpq_net" where
  "new_udpq_net n = \<lparr>qn_clients = [], qn_sent = [], qn_server = new_udp_server_q n\<rparr>"

inductive udpq_net_step :: "xlib \<Rightarrow> udpq_net \<Rightarrow> udpq_net \<Rightarrow> bool" for xl where
  joins: "udpq_net_step xl s (s\<lparr>qn_clients := qn_clients s @ [new_udp_client_q]\<rparr>)"
| calls: "i < length (qn_clients s) \<Longrightarrow> c = qn_clients s ! i \<Longrightarrow>
     udpq_net_step xl s (s\<lparr>qn_clients := (qn_clients s)[i := snd (do_udpq_call xl write x c)],
       qn_sent := qn_sent s @ handed xl write x c\<rparr>)"
| arrives: "d \<in> set (qn_sent s) \<Longrightarrow> uz_socket (qn_server s) = Some True \<Longrightarrow>
     udpq_net_step xl s (s\<lparr>qn_server := (qn_server s)\<lparr>uz_pending := uz_pending (qn_server s) @ [d]\<rparr>\<rparr>)"
| serves: "do_udpq_server_call x (qn_server s) = Returns (a, t) \<Longrightarrow> x \<noteq> On_message \<Longrightarrow>
     udpq_net_step xl s (s\<lparr>qn_server := t\<rparr>)"
| readyRead: "uz_socket (qn_server s) = Some True \<Longrightarrow> 0 < uz_connections (qn_server s) \<Longrightarrow>
     do_udpq_server_call On_message (qn_server s) = Returns (a, t) \<Longrightarrow> udpq_net_step xl s (s\<lparr>qn_server := t\<rparr>)"

definition udpq_inv :: "nat \<Rightarrow> udpq_net \<Rightarrow> bool" where
  "udpq_inv n s \<longleftrightarrow> udp_q_inv n (qn_server s) \<and> set (uz_pending (qn_server s)) \<subseteq> set (qn_sent s) \<and>
     (\<forall>d \<in> set (uz_threadInputs (qn_server s)). d = [] \<or> d \<in> set (qn_sent s))"

lemma do_udpq_server_call_step:
  assumes "do_udpq_server_call x s = Returns (a, t)" and "x = On_message \<longrightarrow> uz_socket s = Some True \<and> 0 < uz_connections s"
  shows "t = s \<or> udp_q_step s t"
proof (cases x)
  case (Start b)
  then obtain r where "start_q b s = Returns (r, t)" using assms(1) by (cases "start_q b s") auto
  then show ?thesis by (blast intro: udp_q_step.starts)
next
  case Is_running
  then show ?thesis using assms(1) by (cases "isRunning_q s") auto
qed (use assms in \<open>auto intro: udp_q_step.stops udp_q_step.message\<close>)

lemma read_datagrams_inputs:
  "set (uz_pending (read_datagrams ds s)) \<subseteq> set ds \<and>
   set (uz_threadInputs (read_datagrams ds s)) \<subseteq> set (uz_threadInputs s) \<union> set ds"
proof (induction ds s rule: read_datagrams.induct)
  case (2 d ds s)
  show ?case
  proof (cases "free_slot (uz_slots s)")
    case (Some i)
    then show ?thesis using 2 set_update_subset_insert[of "uz_threadInputs s" i d] by fastforce
  qed auto
qed simp

lemma server_call_inputs:
  assumes "do_udpq_server_call x s = Returns (a, t)"
  shows "set (uz_pending t) \<subseteq> set (uz_pending s) \<and>
    set (uz_threadInputs t) \<subseteq> set (uz_threadInputs s) \<union> set (uz_pending s)"
proof (cases x)
  case (Start b)
  then show ?thesis using assms by (auto simp: start_q_def Let_def split: option.splits)
next
  case Is_running
  then show ?thesis using assms by (auto simp: isRunning_q_def split: option.splits)
next
  case Stop
  then show ?thesis using assms by (cases "uz_done s") (auto simp: stop_q_def threadFinishedSignal_def)
next
  case On_message
  then show ?thesis using assms read_datagrams_inputs[of "uz_pending s" s] by (auto simp: onMessage_q_def)
qed

lemma udpq_server_call_inv:
  assumes "do_udpq_server_call x (qn_server s) = Returns (a, t)" and "udpq_inv n s"
    and "x = On_message \<longrightarrow> uz_socket (qn_server s) = Some True \<and> 0 < uz_connections (qn_server s)"
  shows "udpq_inv n (s\<lparr>qn_server := t\<rparr>)"
proof -
  have "udp_q_inv n t" using do_udpq_server_call_step[OF assms(1,3)] udp_q_step_inv assms(2) by (auto simp: udpq_inv_def)
  then show ?thesis using assms(2) server_call_inputs[OF assms(1)] by (auto simp: udpq_inv_def)
qed

lemma udpq_net_step_inv: "udpq_net_step xl s t \<Longrightarrow> udpq_inv n s \<Longrightarrow> udpq_inv n t"
proof (induction rule: udpq_net_step.induct)
  case (arrives d s)
  then show ?case by (auto simp: udpq_inv_def udp_q_inv_def)
next
  case (serves x s a t)
  then show ?case using udpq_server_call_inv by blast
next
  case (readyRead s a t)
  then show ?case using udpq_server_call_inv by blast
qed (auto simp: udpq_inv_def)

subsection \<open>Properties\<close>

text \<open>
  The Qt UDP server hands out nothing. Whatever clients send and call, and whatever the network does, the server
  never emits a packet; all its slots but the first stay empty, and the first holds nothing or a
  datagram some client sent.
\<close>

theorem udp_q_server_swallows:
  assumes "(udpq_net_step xl)\<^sup>*\<^sup>* (new_udpq_net n) s"
  shows "uz_emitted (qn_server s) = [] \<and>
    (\<forall>i < n. uz_threadInputs (qn_server s) ! i = [] \<or> i = 0 \<and> uz_threadInputs (qn_server s) ! i \<in> set (qn_sent s))"
proof -
  have "udpq_inv n (new_udpq_net n)"
    by (auto simp: udpq_inv_def new_udpq_net_def udp_q_inv_def new_udp_server_q_def)
  with assms have inv: "udpq_inv n s" by (induction rule: rtranclp_induct) (auto intro: udpq_net_step_inv)
  then have "uz_threadInputs (qn_server s) ! i \<in> set (uz_threadInputs (qn_server s))" if "i < n" for i
    using that by (simp add: udpq_inv_def udp_q_inv_def)
  then show ?thesis using inv unfolding udpq_inv_def udp_q_inv_def by blast
qed

lemma udp_q_server_swallows_witness:
  "\<exists>s. (udpq_net_step sample_xlib)\<^sup>*\<^sup>* (new_udpq_net 2) s \<and> qn_sent s = [''d''] \<and> uz_emitted (qn_server s) = []"
proof -
  let ?w = "\<lambda>d h p. int (length d)"
  let ?a = "(new_udpq_net 2)\<lparr>qn_clients := qn_clients (new_udpq_net 2) @ [new_udp_client_q]\<rparr>"
  let ?c = "qn_clients ?a ! 0"
  let ?b = "?a\<lparr>qn_clients := (qn_clients ?a)[0 := snd (do_udpq_call sample_xlib ?w (Send_message ''d'') ?c)],
    qn_sent := qn_sent ?a @ handed sample_xlib ?w (Send_message ''d'') ?c\<rparr>"
  have "udpq_net_step sample_xlib (new_udpq_net 2) ?a" by (rule udpq_net_step.joins)
  moreover have "udpq_net_step sample_xlib ?a ?b"
    by (rule udpq_net_step.calls) (simp_all add: new_udpq_net_def)
  ultimately have run: "(udpq_net_step sample_xlib)\<^sup>*\<^sup>* (new_udpq_net 2) ?b"
    by (meson converse_rtranclp_into_rtranclp rtranclp.rtrancl_refl)
  have "qn_sent ?b = [''d'']" by (simp add: handed_def new_udpq_net_def)
  with udp_q_server_swallows[OF run] run show ?thesis by blast
qed

end
