(* ===== verification/Legacy_Remover.thy ===== *)
theory Legacy_Remover
  imports Legacy_Clients Forward_Simulation
begin

text \<open>
  The threads of the Qt UDP server (\<^verbatim>\<open>Legacy/udpserverinstance.cpp\<close>): the remover, which
  waits on a condition variable and collects finished process threads, the process threads
  that signal it, and \<open>stop\<close>, which ends it and joins it. The steps are those between which
  another thread can run: what happens under the mutex is split where \<open>done\<close>, which is not
  guarded by it, is read.
\<close>

subsection \<open>State\<close>

text \<open>
  Where the remover is: at the test of its loop; about to take the mutex in
  \<^verbatim>\<open>waitForThreadFinished\<close>; evaluating the predicate of the wait, with the mutex; about to
  block, still with the mutex; blocked; woken, about to take the mutex again; at index \<open>i\<close>
  of the scan; returned.
\<close>

datatype remover_pc = Loop_test | Entering | Testing | Blocking | Waiting | Woken | Scanning nat | Exited

text \<open>How far the call of \<open>stop\<close> is that found \<open>done\<close> false.\<close>

datatype stop_pc = Not_stopping | Done_set | Signalled | Stopped

text \<open>\<open>rm_joined\<close>: the process threads that were joined and deleted, in order.\<close>

record remover =
  rm_server :: udp_server_q
  rm_pc :: remover_pc
  rm_threadFinished :: bool
  rm_stop :: stop_pc
  rm_joined :: "nat list"

definition new_impl :: "bool \<Rightarrow> nat \<Rightarrow> remover res" where
  "new_impl mainClass n =
     (if \<not> mainClass then Inl (InvalidArgument ''Cannot work without main class'')
      else Inr \<lparr>rm_server = new_udp_server_q n, rm_pc = Loop_test, rm_threadFinished = False,
        rm_stop = Not_stopping, rm_joined = []\<rparr>)"

abbreviation new_remover :: "nat \<Rightarrow> remover" where
  "new_remover n \<equiv> projr (new_impl True n)"

subsection \<open>The threads\<close>

text \<open>\<open>None\<close>: the thread cannot move.\<close>

definition waitForThreadFinished :: "remover \<Rightarrow> remover option" where
  "waitForThreadFinished s =
     (case rm_pc s of
        Entering \<Rightarrow> Some (s\<lparr>rm_threadFinished := False, rm_pc := Testing\<rparr>)
      | Testing \<Rightarrow> Some (s\<lparr>rm_pc :=
          (if rm_threadFinished s \<or> uz_done (rm_server s) then Scanning 0 else Blocking)\<rparr>)
      | Blocking \<Rightarrow> Some (s\<lparr>rm_pc := Waiting\<rparr>)
      | Woken \<Rightarrow> Some (s\<lparr>rm_pc := Testing\<rparr>)
      | _ \<Rightarrow> None)"

definition collect_thread :: "nat \<Rightarrow> remover \<Rightarrow> remover" where
  "collect_thread i s =
     (let v = rm_server s in
      if uz_threadsToRemove v ! i then
        let s1 = (if uz_slots v ! i
                  then s\<lparr>rm_joined := rm_joined s @ [i], rm_server := v\<lparr>uz_slots := (uz_slots v)[i := False]\<rparr>\<rparr>
                  else s)
        in s1\<lparr>rm_server := (rm_server s1)\<lparr>uz_threadsToRemove := (uz_threadsToRemove v)[i := False]\<rparr>\<rparr>
      else s)"

definition threadRemoverLoop :: "remover \<Rightarrow> remover option" where
  "threadRemoverLoop s =
     (case rm_pc s of
        Loop_test \<Rightarrow> Some (s\<lparr>rm_pc := (if uz_done (rm_server s) then Exited else Entering)\<rparr>)
      | Scanning i \<Rightarrow> Some (if i < uz_threadCount (rm_server s)
          then (collect_thread i s)\<lparr>rm_pc := Scanning (Suc i)\<rparr> else s\<lparr>rm_pc := Loop_test\<rparr>)
      | _ \<Rightarrow> waitForThreadFinished s)"

text \<open>\<^verbatim>\<open>threadFinishedSignal\<close> runs under the mutex, which the remover may hold.\<close>

definition signal_remover :: "int \<Rightarrow> remover \<Rightarrow> remover option" where
  "signal_remover n s =
     (if rm_pc s = Testing \<or> rm_pc s = Blocking then None
      else Some (s\<lparr>rm_server := threadFinishedSignal n (rm_server s), rm_threadFinished := True,
        rm_pc := (if rm_pc s = Waiting then Woken else rm_pc s)\<rparr>))"

definition stop_step :: "remover \<Rightarrow> remover option" where
  "stop_step s =
     (case rm_stop s of
        Not_stopping \<Rightarrow> Some (s\<lparr>rm_server := (rm_server s)\<lparr>uz_done := True\<rparr>, rm_stop := Done_set\<rparr>)
      | Done_set \<Rightarrow> map_option (\<lambda>t. t\<lparr>rm_stop := Signalled\<rparr>) (signal_remover (- 1) s)
      | Signalled \<Rightarrow> (if rm_pc s = Exited
          then Some (s\<lparr>rm_server := (rm_server s)\<lparr>uz_socket := None, uz_connections := 0\<rparr>, rm_stop := Stopped\<rparr>)
          else None)
      | Stopped \<Rightarrow> None)"

text \<open>
  Who moves: the remover, a process thread that signals its end, the thread in \<open>stop\<close>, the
  same thread when it is not in \<open>stop\<close> (starting, or reading datagrams), the network, or the
  condition variable that wakes up for no reason. No process thread is started by the code
  as it is; the relation lets one signal all the same.
\<close>

datatype mover = Remover | Process nat | Stopper | Main | Network | Spurious

inductive rm_step :: "mover \<Rightarrow> remover \<Rightarrow> remover \<Rightarrow> bool" where
  remover: "threadRemoverLoop s = Some t \<Longrightarrow> rm_step Remover s t"
| process: "signal_remover (int n) s = Some t \<Longrightarrow> rm_step (Process n) s t"
| stopper: "stop_step s = Some t \<Longrightarrow> rm_step Stopper s t"
| starting: "rm_stop s = Not_stopping \<or> rm_stop s = Stopped \<Longrightarrow>
    start_q binds (rm_server s) = Returns (r, v) \<Longrightarrow> rm_step Main s (s\<lparr>rm_server := v\<rparr>)"
| reading: "rm_stop s = Not_stopping \<or> rm_stop s = Stopped \<Longrightarrow> uz_socket (rm_server s) = Some True \<Longrightarrow>
    0 < uz_connections (rm_server s) \<Longrightarrow> rm_step Main s (s\<lparr>rm_server := onMessage_q (rm_server s)\<rparr>)"
| network: "uz_socket (rm_server s) = Some True \<Longrightarrow>
    rm_step Network s (s\<lparr>rm_server := (rm_server s)\<lparr>uz_pending := uz_pending (rm_server s) @ [d]\<rparr>\<rparr>)"
| spurious: "rm_pc s = Waiting \<Longrightarrow> rm_step Spurious s (s\<lparr>rm_pc := Woken\<rparr>)"

inductive_simps rm_step_remover: "rm_step Remover s t"

text \<open>Schedules: who moved, in order.\<close>

inductive rm_trace :: "remover \<Rightarrow> mover list \<Rightarrow> remover \<Rightarrow> bool" where
  nil: "rm_trace s [] s"
| snoc: "rm_trace s ms t \<Longrightarrow> rm_step m t u \<Longrightarrow> rm_trace s (ms @ [m]) u"

subsection \<open>Invariant\<close>

definition rm_inv :: "nat \<Rightarrow> remover \<Rightarrow> bool" where
  "rm_inv n s \<longleftrightarrow> uz_threadCount (rm_server s) = n \<and> length (uz_threadsToRemove (rm_server s)) = n \<and>
     uz_done (rm_server s) = (rm_stop s \<noteq> Not_stopping) \<and>
     (rm_stop s \<in> {Signalled, Stopped} \<longrightarrow> rm_pc s \<noteq> Blocking \<and> rm_pc s \<noteq> Waiting) \<and>
     (rm_stop s = Stopped \<longrightarrow> rm_pc s = Exited)"

lemma collect_thread_frame [simp]:
  "uz_threadCount (rm_server (collect_thread i s)) = uz_threadCount (rm_server s)"
  "length (uz_threadsToRemove (rm_server (collect_thread i s))) = length (uz_threadsToRemove (rm_server s))"
  "uz_done (rm_server (collect_thread i s)) = uz_done (rm_server s)"
  "rm_stop (collect_thread i s) = rm_stop s"
  "rm_threadFinished (collect_thread i s) = rm_threadFinished s"
  "j \<noteq> i \<Longrightarrow> uz_threadsToRemove (rm_server (collect_thread i s)) ! j = uz_threadsToRemove (rm_server s) ! j"
  by (simp_all add: collect_thread_def Let_def)

lemma threadFinishedSignal_frame [simp]:
  "uz_threadCount (threadFinishedSignal n v) = uz_threadCount v"
  "length (uz_threadsToRemove (threadFinishedSignal n v)) = length (uz_threadsToRemove v)"
  "uz_done (threadFinishedSignal n v) = uz_done v"
  "threadFinishedSignal (- 1) v = v"
  by (simp_all add: threadFinishedSignal_def)

lemma read_datagrams_frame [simp]:
  "uz_threadCount (read_datagrams ds v) = uz_threadCount v"
  "uz_threadsToRemove (read_datagrams ds v) = uz_threadsToRemove v"
  "uz_done (read_datagrams ds v) = uz_done v"
  by (induction ds v rule: read_datagrams.induct) (auto split: option.splits)

lemma start_q_frame:
  "start_q b v = Returns (r, w) \<Longrightarrow>
   uz_threadCount w = uz_threadCount v \<and> uz_threadsToRemove w = uz_threadsToRemove v \<and> uz_done w = uz_done v"
  by (auto simp: start_q_def Let_def split: option.splits)

lemma remover_next_inv: "threadRemoverLoop s = Some t \<Longrightarrow> rm_inv n s \<Longrightarrow> rm_inv n t"
  by (cases "rm_pc s")
    (auto simp: threadRemoverLoop_def waitForThreadFinished_def rm_inv_def split: if_splits)

lemma signal_inv: "signal_remover i s = Some t \<Longrightarrow> rm_inv n s \<Longrightarrow> rm_inv n t"
  by (auto simp: signal_remover_def rm_inv_def split: if_splits)

lemma stop_step_inv: "stop_step s = Some t \<Longrightarrow> rm_inv n s \<Longrightarrow> rm_inv n t"
  by (cases "rm_stop s") (auto simp: stop_step_def signal_remover_def rm_inv_def split: if_splits)

lemma rm_step_inv: "rm_step m s t \<Longrightarrow> rm_inv n s \<Longrightarrow> rm_inv n t"
proof (induction rule: rm_step.induct)
  case (starting s binds r v)
  then show ?case using start_q_frame[of binds "rm_server s" r v] by (simp add: rm_inv_def)
qed (auto simp: remover_next_inv signal_inv stop_step_inv, auto simp: rm_inv_def onMessage_q_def)

lemma rm_trace_inv: "rm_trace s ms t \<Longrightarrow> rm_inv n s \<Longrightarrow> rm_inv n t"
  by (induction rule: rm_trace.induct) (auto intro: rm_step_inv)

lemma new_remover_inv: "rm_inv n (new_remover n)"
  by (simp add: rm_inv_def new_impl_def new_udp_server_q_def)

subsection \<open>The remover ends\<close>

text \<open>The steps the remover still has to make, once \<open>done\<close> is set.\<close>

fun pc_rank :: "nat \<Rightarrow> remover_pc \<Rightarrow> nat" where
  "pc_rank n Exited = 0"
| "pc_rank n Loop_test = 1"
| "pc_rank n (Scanning i) = n - i + 2"
| "pc_rank n Testing = n + 3"
| "pc_rank n Woken = n + 4"
| "pc_rank n Entering = n + 4"
| "pc_rank n Waiting = n + 5"
| "pc_rank n Blocking = n + 6"

lemma remover_rank:
  assumes "rm_inv n s" and "rm_stop s = Signalled \<or> rm_stop s = Stopped" and "threadRemoverLoop s = Some t"
  shows "pc_rank n (rm_pc t) < pc_rank n (rm_pc s)"
  using assms
  by (cases "rm_pc s")
    (auto simp: threadRemoverLoop_def waitForThreadFinished_def rm_inv_def split: if_splits)

lemma other_rank:
  assumes "rm_step m s t" and "m \<noteq> Remover" and "rm_inv n s" and "rm_stop s = Signalled \<or> rm_stop s = Stopped"
  shows "rm_pc t = rm_pc s"
  using assms
  by (cases rule: rm_step.cases)
    (auto simp: rm_inv_def signal_remover_def stop_step_def split: if_splits stop_pc.splits)

lemma stop_stays:
  assumes "rm_step m s t" and "rm_stop s = Signalled \<or> rm_stop s = Stopped"
  shows "rm_stop t = Signalled \<or> rm_stop t = Stopped"
  using assms
proof (cases rule: rm_step.cases)
  case remover
  then show ?thesis using assms(2)
    by (cases "rm_pc s")
      (auto simp: threadRemoverLoop_def waitForThreadFinished_def split: if_splits)
qed (auto simp: signal_remover_def stop_step_def split: if_splits stop_pc.splits)

lemma rm_trace_rank:
  assumes "rm_trace s ms t" and "rm_inv n s" and "rm_stop s = Signalled \<or> rm_stop s = Stopped"
  shows "length (filter (\<lambda>m. m = Remover) ms) + pc_rank n (rm_pc t) \<le> pc_rank n (rm_pc s) \<and>
    (rm_stop t = Signalled \<or> rm_stop t = Stopped)"
  using assms
proof (induction rule: rm_trace.induct)
  case (snoc s ms t m u)
  have t: "rm_inv n t" "rm_stop t = Signalled \<or> rm_stop t = Stopped"
    using snoc rm_trace_inv by blast+
  show ?case
  proof (cases "m = Remover")
    case True
    then have "threadRemoverLoop t = Some u" using snoc.hyps(2) rm_step_remover by simp
    then have "pc_rank n (rm_pc u) < pc_rank n (rm_pc t)" by (rule remover_rank[OF t])
    then show ?thesis using snoc True stop_stays[OF snoc.hyps(2) t(2)] by simp
  next
    case False
    then have "rm_pc u = rm_pc t" by (rule other_rank[OF snoc.hyps(2) _ t])
    then show ?thesis using snoc False stop_stays[OF snoc.hyps(2) t(2)] by simp
  qed
qed simp

lemma remover_moves:
  "rm_inv n s \<Longrightarrow> rm_stop s = Signalled \<or> rm_stop s = Stopped \<Longrightarrow> rm_pc s \<noteq> Exited \<Longrightarrow>
   threadRemoverLoop s \<noteq> None"
  by (cases "rm_pc s") (auto simp: threadRemoverLoop_def waitForThreadFinished_def rm_inv_def)

subsection \<open>The remover on its own\<close>

fun run_alone :: "nat \<Rightarrow> remover \<Rightarrow> remover option" where
  "run_alone 0 s = Some s"
| "run_alone (Suc k) s = Option.bind (threadRemoverLoop s) (run_alone k)"

text \<open>The rest of a scan, up to the test of the loop, leaves the flags before it alone.\<close>

lemma scan_alone:
  assumes "rm_pc s = Scanning k" and "i < k"
  shows "\<exists>m u. run_alone m s = Some u \<and> rm_pc u = Loop_test \<and>
    uz_threadsToRemove (rm_server u) ! i = uz_threadsToRemove (rm_server s) ! i \<and>
    uz_done (rm_server u) = uz_done (rm_server s)"
  using assms
proof (induction "uz_threadCount (rm_server s) - k" arbitrary: s k)
  case 0
  then have "run_alone 1 s = Some (s\<lparr>rm_pc := Loop_test\<rparr>)" by (simp add: threadRemoverLoop_def)
  then show ?case by (intro exI[of _ 1]) simp
next
  case (Suc d)
  let ?t = "(collect_thread k s)\<lparr>rm_pc := Scanning (Suc k)\<rparr>"
  have next_t: "threadRemoverLoop s = Some ?t" using Suc.hyps(2) Suc.prems by (simp add: threadRemoverLoop_def)
  have "d = uz_threadCount (rm_server ?t) - Suc k" using Suc.hyps(2) by simp
  from Suc.hyps(1)[OF this] obtain m u where "run_alone m ?t = Some u" "rm_pc u = Loop_test"
      "uz_threadsToRemove (rm_server u) ! i = uz_threadsToRemove (rm_server ?t) ! i"
      "uz_done (rm_server u) = uz_done (rm_server ?t)"
    using Suc.prems by force
  then show ?case using next_t Suc.prems by (intro exI[of _ "Suc m"]) auto
qed

lemma run_alone_add: "run_alone (a + b) s = Option.bind (run_alone a s) (run_alone b)"
proof (induction a arbitrary: s)
  case (Suc a)
  then show ?case by (cases "threadRemoverLoop s") simp_all
qed simp

text \<open>From the test of the loop it goes to sleep, whatever the flags and \<open>threadFinished\<close> say.\<close>

lemma loop_alone:
  assumes "rm_pc s = Loop_test \<or> rm_pc s = Entering" and "\<not> uz_done (rm_server s)"
  shows "\<exists>m. run_alone m s = Some (s\<lparr>rm_threadFinished := False, rm_pc := Waiting\<rparr>)"
proof -
  have "run_alone 3 (s\<lparr>rm_pc := Entering\<rparr>) = Some (s\<lparr>rm_threadFinished := False, rm_pc := Waiting\<rparr>)"
    using assms(2) by (simp add: numeral_3_eq_3 threadRemoverLoop_def waitForThreadFinished_def)
  moreover have "rm_pc s = Loop_test \<Longrightarrow> run_alone (Suc k) s = run_alone k (s\<lparr>rm_pc := Entering\<rparr>)" for k
    using assms(2) by (simp add: threadRemoverLoop_def)
  moreover have "rm_pc s = Entering \<Longrightarrow> s\<lparr>rm_pc := Entering\<rparr> = s" by simp
  ultimately show ?thesis using assms(1) by metis
qed

subsection \<open>The server without its threads\<close>

text \<open>
  \<open>rm_refines s a\<close>: the server \<open>a\<close> of \<open>udp_q_step\<close>, in which \<open>stop\<close> is one step, is what
  the threads' server \<open>s\<close> stands for: it is stopped when \<open>stop\<close> has joined the remover, and
  the flags of the remover are not looked at.
\<close>

definition rm_refines :: "remover \<Rightarrow> udp_server_q \<Rightarrow> bool" where
  "rm_refines s a \<longleftrightarrow> a = (rm_server s)\<lparr>uz_done := (rm_stop s = Stopped),
     uz_threadsToRemove := uz_threadsToRemove a\<rparr>"

lemma read_datagrams_update:
  "read_datagrams ds (v\<lparr>uz_done := b, uz_threadsToRemove := fs\<rparr>) =
   (read_datagrams ds v)\<lparr>uz_done := b, uz_threadsToRemove := fs\<rparr>"
proof (induction ds v rule: read_datagrams.induct)
  case (2 d ds s)
  have comm: "s\<lparr>uz_done := b, uz_threadsToRemove := fs, uz_threadInputs := x\<rparr> =
      s\<lparr>uz_threadInputs := x, uz_done := b, uz_threadsToRemove := fs\<rparr>" for x by simp
  show ?case using 2 by (simp add: comm split: option.split)
qed simp

lemma collect_none:
  "uz_slots (rm_server s) = replicate n False \<Longrightarrow> i < n \<Longrightarrow>
   \<exists>fs. collect_thread i s = s\<lparr>rm_server := (rm_server s)\<lparr>uz_threadsToRemove := fs\<rparr>\<rparr>"
  by (rule exI[of _ "if uz_threadsToRemove (rm_server s) ! i
      then (uz_threadsToRemove (rm_server s))[i := False] else uz_threadsToRemove (rm_server s)"])
    (simp add: collect_thread_def Let_def)

lemma refines_slots:
  "rm_refines s a \<Longrightarrow> udp_q_inv n a \<Longrightarrow> uz_slots (rm_server s) = replicate n False"
  unfolding rm_refines_def udp_q_inv_def by (drule arg_cong[of _ _ uz_slots]) simp

text \<open>Steps that change only the flags, \<open>done\<close> included, change nothing for the abstract server.\<close>

lemma refines_flags:
  assumes "rm_refines s a" and "rm_server t = (rm_server s)\<lparr>uz_done := d, uz_threadsToRemove := fs\<rparr>"
    and "rm_stop t = Stopped \<longleftrightarrow> rm_stop s = Stopped"
  shows "rm_refines t a"
  using assms unfolding rm_refines_def by simp

lemma remover_refines:
  assumes "threadRemoverLoop s = Some t" and "rm_refines s a" and "rm_inv n s" and "udp_q_inv n a"
  shows "rm_refines t a"
proof -
  have "\<exists>fs. rm_server t = (rm_server s)\<lparr>uz_threadsToRemove := fs\<rparr> \<and> rm_stop t = rm_stop s"
  proof (cases "rm_pc s")
    case (Scanning i)
    show ?thesis
    proof (cases "i < n")
      case True
      obtain fs where "collect_thread i s = s\<lparr>rm_server := (rm_server s)\<lparr>uz_threadsToRemove := fs\<rparr>\<rparr>"
        using collect_none[OF refines_slots[OF assms(2,4)] True] by blast
      then show ?thesis using assms(1,3) Scanning True by (auto simp: threadRemoverLoop_def rm_inv_def)
    next
      case False
      then show ?thesis using assms(1,3) Scanning
        by (auto simp: threadRemoverLoop_def rm_inv_def intro!: exI[of _ "uz_threadsToRemove (rm_server s)"])
    qed
  qed (use assms(1) in \<open>auto simp: threadRemoverLoop_def waitForThreadFinished_def
      intro!: exI[of _ "uz_threadsToRemove (rm_server s)"]\<close>)
  then show ?thesis using refines_flags[OF assms(2), where t = t and d = "uz_done (rm_server s)"] by auto
qed

lemma signal_refines: "signal_remover i s = Some t \<Longrightarrow> rm_refines s a \<Longrightarrow> rm_refines t a"
proof -
  assume t: "signal_remover i s = Some t" and a: "rm_refines s a"
  have "rm_server t = threadFinishedSignal i (rm_server s)" "rm_stop t = rm_stop s"
    using t by (auto simp: signal_remover_def split: if_splits)
  then show "rm_refines t a"
    using a by (simp add: rm_refines_def threadFinishedSignal_def)
qed

lemma stop_refines:
  assumes "stop_step s = Some t" and "rm_refines s a"
  shows "rm_refines t a \<or> rm_refines t (stop_q a)"
proof (cases "rm_stop s")
  case Not_stopping
  then show ?thesis using assms by (auto simp: stop_step_def rm_refines_def)
next
  case Done_set
  then obtain u where u: "signal_remover (- 1) s = Some u" "t = u\<lparr>rm_stop := Signalled\<rparr>"
    using assms(1) by (auto simp: stop_step_def)
  then have "rm_refines u a" "rm_stop u = Done_set"
    using signal_refines[OF u(1) assms(2)] Done_set by (auto simp: signal_remover_def split: if_splits)
  then show ?thesis using u(2) by (simp add: rm_refines_def)
next
  case Signalled
  then have t: "t = s\<lparr>rm_server := (rm_server s)\<lparr>uz_socket := None, uz_connections := 0\<rparr>, rm_stop := Stopped\<rparr>"
    using assms(1) by (auto simp: stop_step_def split: if_splits)
  obtain fs where a: "a = (rm_server s)\<lparr>uz_done := False, uz_threadsToRemove := fs\<rparr>"
    using assms(2) Signalled unfolding rm_refines_def by auto
  have "rm_refines t (stop_q a)" unfolding t a by (simp add: rm_refines_def stop_q_def)
  then show ?thesis ..
next
  case Stopped
  then show ?thesis using assms(1) by (simp add: stop_step_def)
qed

lemma rm_step_simulated:
  assumes "rm_step m s t" and "rm_inv n s" and "udp_q_inv n a" and "rm_refines s a"
  shows "rm_refines t a \<or> (\<exists>b. udp_q_step a b \<and> rm_refines t b)"
  using assms(1)
proof (cases rule: rm_step.cases)
  case remover
  then show ?thesis using remover_refines[OF _ assms(4,2,3)] by blast
next
  case (process i)
  then show ?thesis using signal_refines[OF _ assms(4)] by blast
next
  case stopper
  then show ?thesis using stop_refines[OF _ assms(4)] by (blast intro: udp_q_step.stops)
next
  case (starting binds r v)
  obtain d fs where a: "a = (rm_server s)\<lparr>uz_done := d, uz_threadsToRemove := fs\<rparr>" "d = (rm_stop s = Stopped)"
    using assms(4) unfolding rm_refines_def by blast
  have "start_q binds a = Returns (r, v\<lparr>uz_done := d, uz_threadsToRemove := fs\<rparr>)"
    using starting(4) unfolding a(1) by (auto simp: start_q_def Let_def split: option.splits)
  then have "udp_q_step a (v\<lparr>uz_done := d, uz_threadsToRemove := fs\<rparr>)" by (rule udp_q_step.starts)
  moreover have "rm_refines t (v\<lparr>uz_done := d, uz_threadsToRemove := fs\<rparr>)"
    using starting(2) a(2) by (simp add: rm_refines_def)
  ultimately show ?thesis by blast
next
  case reading
  obtain d fs where a: "a = (rm_server s)\<lparr>uz_done := d, uz_threadsToRemove := fs\<rparr>" "d = (rm_stop s = Stopped)"
    using assms(4) unfolding rm_refines_def by blast
  have "udp_q_step a (onMessage_q a)" using reading unfolding a(1) by (intro udp_q_step.message) simp_all
  moreover have "onMessage_q a = (onMessage_q (rm_server s))\<lparr>uz_done := d, uz_threadsToRemove := fs\<rparr>"
    unfolding a(1) onMessage_q_def by (simp add: read_datagrams_update)
  ultimately show ?thesis using reading(2) a(2) by (auto simp: rm_refines_def)
next
  case (network m)
  obtain d fs where a: "a = (rm_server s)\<lparr>uz_done := d, uz_threadsToRemove := fs\<rparr>" "d = (rm_stop s = Stopped)"
    using assms(4) unfolding rm_refines_def by blast
  have "udp_q_step a (a\<lparr>uz_pending := uz_pending a @ [m]\<rparr>)"
    using network(3) unfolding a(1) by (intro udp_q_step.arrives) simp
  moreover have "rm_refines t (a\<lparr>uz_pending := uz_pending a @ [m]\<rparr>)"
    using network(2) a(2) unfolding a(1) by (simp add: rm_refines_def)
  ultimately show ?thesis by blast
next
  case spurious
  then show ?thesis using assms(4) by (simp add: rm_refines_def)
qed

interpretation rm: simulation "\<lambda>s t. \<exists>m. rm_step m s t" udp_q_step "rm_inv n" "udp_q_inv n" rm_refines for n
proof unfold_locales
  show "rm_inv n s \<Longrightarrow> \<exists>m. rm_step m s t \<Longrightarrow> rm_inv n t" for s t by (blast intro: rm_step_inv)
  show "udp_q_inv n a \<Longrightarrow> udp_q_step a b \<Longrightarrow> udp_q_inv n b" for a b by (rule udp_q_step_inv)
  show "rm_inv n s \<Longrightarrow> udp_q_inv n a \<Longrightarrow> rm_refines s a \<Longrightarrow> \<exists>m. rm_step m s t \<Longrightarrow>
      \<exists>b. udp_q_step\<^sup>*\<^sup>* a b \<and> rm_refines t b" for s t a
    using rm_step_simulated by blast
qed

lemma rm_trace_rtranclp: "rm_trace s ms t \<Longrightarrow> (\<lambda>s t. \<exists>m. rm_step m s t)\<^sup>*\<^sup>* s t"
  by (induction rule: rm_trace.induct) (auto intro: rtranclp.rtrancl_into_rtrancl)

lemma udp_q_runs_rtranclp: "udp_q_step\<^sup>*\<^sup>* a b \<Longrightarrow> udp_q_runs a b"
  by (induction rule: rtranclp_induct) (auto intro: udp_q_runs.intros)

lemma new_refines: "rm_refines (new_remover n) (new_udp_server_q n)"
  by (simp add: rm_refines_def new_impl_def new_udp_server_q_def)

lemma new_udp_server_q_inv: "udp_q_inv n (new_udp_server_q n)"
  by (simp add: udp_q_inv_def new_udp_server_q_def)

subsection \<open>Properties\<close>

text \<open>
  C31. \<open>stop\<close> returns. From the moment it has set \<open>done\<close> on, under every schedule, the thread
  in \<open>stop\<close> or the remover can move until \<open>stop\<close> has joined the remover; and once it has
  signalled, the remover makes at most \<open>n + 4\<close> more steps, whatever the other threads do.
\<close>

theorem remover_ends:
  assumes "rm_trace (new_remover n) ms s" and "rm_stop s \<noteq> Not_stopping" and "rm_trace s ls t"
  shows "(rm_stop t \<noteq> Stopped \<longrightarrow> stop_step t \<noteq> None \<or> threadRemoverLoop t \<noteq> None) \<and>
    (rm_stop s \<noteq> Done_set \<longrightarrow>
       length (filter (\<lambda>m. m = Remover) ls) \<le> n + 4 \<and> (rm_pc t \<noteq> Exited \<longrightarrow> threadRemoverLoop t \<noteq> None))"
proof -
  have s: "rm_inv n s" using rm_trace_inv[OF assms(1) new_remover_inv] .
  have t: "rm_inv n t" using rm_trace_inv[OF assms(3) s] .
  have begun: "rm_stop t \<noteq> Not_stopping" using assms(3,2)
    by (induction rule: rm_trace.induct)
      (auto elim!: rm_step.cases simp: threadRemoverLoop_def waitForThreadFinished_def signal_remover_def
        stop_step_def split: if_splits remover_pc.splits stop_pc.splits)
  have "stop_step t \<noteq> None \<or> threadRemoverLoop t \<noteq> None" if "rm_stop t \<noteq> Stopped"
  proof (cases "rm_stop t")
    case Done_set
    then show ?thesis
      by (auto simp: stop_step_def signal_remover_def threadRemoverLoop_def waitForThreadFinished_def)
  next
    case Signalled
    then show ?thesis using remover_moves[OF t] by (cases "rm_pc t = Exited") (auto simp: stop_step_def)
  qed (use begun that in simp_all)
  moreover have "length (filter (\<lambda>m. m = Remover) ls) \<le> n + 4 \<and> (rm_pc t \<noteq> Exited \<longrightarrow> threadRemoverLoop t \<noteq> None)"
    if "rm_stop s \<noteq> Done_set"
  proof -
    have sig: "rm_stop s = Signalled \<or> rm_stop s = Stopped" using that assms(2) by (cases "rm_stop s") auto
    then have "pc_rank n (rm_pc s) \<le> n + 4" using s by (cases "rm_pc s") (auto simp: rm_inv_def)
    then show ?thesis using rm_trace_rank[OF assms(3) s sig] remover_moves[OF t] by auto
  qed
  ultimately show ?thesis by blast
qed

lemma remover_ends_witness:
  "\<exists>s t. rm_trace (new_remover 1) [Stopper, Stopper] s \<and> rm_trace s [Remover] t \<and>
     rm_stop s = Signalled \<and> rm_pc t = Exited \<and> stop_step t \<noteq> None"
proof -
  let ?d = "(new_remover 1)\<lparr>rm_server := (new_udp_server_q 1)\<lparr>uz_done := True\<rparr>, rm_stop := Done_set\<rparr>"
  let ?s = "?d\<lparr>rm_threadFinished := True, rm_stop := Signalled\<rparr>"
  let ?t = "?s\<lparr>rm_pc := Exited\<rparr>"
  have "rm_step Stopper (new_remover 1) ?d" "rm_step Stopper ?d ?s"
    by (rule rm_step.stopper, simp add: new_impl_def stop_step_def signal_remover_def)+
  then have s: "rm_trace (new_remover 1) [Stopper, Stopper] ?s"
    using rm_trace.snoc[OF rm_trace.snoc[OF rm_trace.nil]] by fastforce
  have "rm_step Remover ?s ?t" by (simp add: rm_step_remover new_impl_def threadRemoverLoop_def)
  then have t: "rm_trace ?s [Remover] ?t" using rm_trace.snoc[OF rm_trace.nil] by fastforce
  have "threadRemoverLoop ?t = None" by (simp add: threadRemoverLoop_def waitForThreadFinished_def)
  then have "stop_step ?t \<noteq> None" using remover_ends[OF s _ t] by simp
  then show ?thesis using s t by (intro exI[of _ ?s] exI[of _ ?t]) simp
qed






subsection \<open>Destruction\<close>

text \<open>The destructor calls \<open>stop\<close>; after a \<open>stop\<close> it does nothing.\<close>

definition destroy_q :: "udp_server_q \<Rightarrow> udp_server_q" where
  "destroy_q s = stop_q s"

lemma destroy_after_stop: "destroy_q (stop_q s) = stop_q s"
  by (simp add: destroy_q_def stop_q_def)

end
