(* ===== verification/Legacy_Servers.thy ===== *)
theory Legacy_Servers
  imports Legacy_Exchange
begin

text \<open>
  Several TCP servers and what they share (\<^verbatim>\<open>Legacy/tcpserverinstance.cpp\<close>,
  \<^verbatim>\<open>threadmanager.cpp\<close>, \<^verbatim>\<open>connectionworker.cpp\<close>, \<^verbatim>\<open>packetprocessor.cpp\<close>): the thread
  manager is one object, made by the first server, that keeps references into that server;
  the workers keep references into the manager. Objects are named by numbers, so that a
  reference can dangle.
\<close>

subsection \<open>State\<close>

text \<open>
  A server's own callbacks; a callback is named by a number, \<open>None\<close> is an empty
  \<^verbatim>\<open>std::function\<close>.
\<close>

record tcp_impl =
  ti_initer :: "nat option"
  ti_deiniter :: "nat option"
  ti_processor :: packet_processor

text \<open>
  The singleton: the maps of workers, the server into which \<^verbatim>\<open>m_initer\<close> and \<^verbatim>\<open>m_deiniter\<close>
  refer, and its own copies of the packet processors, into which the workers refer.
\<close>

record manager_obj =
  mo_manager :: thread_manager
  mo_owner :: nat
  mo_processor :: packet_processor

text \<open>\<open>wd_calls\<close>: the initialisers and deinitialisers that were called, in order.\<close>

record world =
  wd_servers :: "nat \<rightharpoonup> tcp_impl"
  wd_next :: nat
  wd_instance :: "manager_obj option"
  wd_workers :: "u64 \<rightharpoonup> connection_worker"
  wd_calls :: "nat list"

definition no_processors :: packet_processor where
  "no_processors = \<lparr>pp_info = None, pp_action = None, pp_error = False, pp_errors = []\<rparr>"

definition empty_world :: world where
  "empty_world = \<lparr>wd_servers = Map.empty, wd_next = 0, wd_instance = None, wd_workers = Map.empty, wd_calls = []\<rparr>"

subsection \<open>Packet processor and worker objects\<close>

definition new_packet_processor :: "nat option \<Rightarrow> nat list \<Rightarrow> nat list" where
  "new_packet_processor initer calls = (case initer of None \<Rightarrow> calls | Some f \<Rightarrow> calls @ [f])"

definition destroy_packet_processor :: "nat option \<Rightarrow> nat list \<Rightarrow> nat list" where
  "destroy_packet_processor deiniter calls = (case deiniter of None \<Rightarrow> calls | Some f \<Rightarrow> calls @ [f])"

definition new_connection_worker :: connection_worker where
  "new_connection_worker = \<lparr>cw_connected = False, cw_workerId = 0, cw_processor = no_processors,
     cw_written = [], cw_finished = 0\<rparr>"

definition getId :: "connection_worker \<Rightarrow> u64" where
  "getId w = cw_workerId w"

text \<open>The destructor disconnects its slots first, so the closing of the socket is not reported.\<close>

definition destroy_connection_worker :: "connection_worker \<Rightarrow> connection_worker" where
  "destroy_connection_worker w = (if cw_connected w then w\<lparr>cw_connected := False\<rparr> else w)"

subsection \<open>The manager object\<close>

definition getInstance :: "nat \<Rightarrow> int \<Rightarrow> world \<Rightarrow> world" where
  "getInstance i ideal w =
     (case wd_instance w of
        Some mo \<Rightarrow> w
      | None \<Rightarrow> w\<lparr>wd_instance := Some \<lparr>mo_manager = new_thread_manager ideal, mo_owner = i, mo_processor = no_processors\<rparr>\<rparr>)"

definition manager_setInfoProcessor :: "(Packet \<Rightarrow> Packet \<Rightarrow> Packet) option \<Rightarrow> manager_obj \<Rightarrow> manager_obj" where
  "manager_setInfoProcessor f mo = mo\<lparr>mo_processor := (mo_processor mo)\<lparr>pp_info := f\<rparr>\<rparr>"

definition manager_setActionProcessor :: "(Packet \<Rightarrow> Packet \<Rightarrow> Packet) option \<Rightarrow> manager_obj \<Rightarrow> manager_obj" where
  "manager_setActionProcessor f mo = mo\<lparr>mo_processor := (mo_processor mo)\<lparr>pp_action := f\<rparr>\<rparr>"

definition manager_setErrorProcessor :: "bool \<Rightarrow> manager_obj \<Rightarrow> manager_obj" where
  "manager_setErrorProcessor f mo = mo\<lparr>mo_processor := (mo_processor mo)\<lparr>pp_error := f\<rparr>\<rparr>"

subsection \<open>Servers\<close>

definition new_tcp_server :: "nat option \<Rightarrow> nat option \<Rightarrow> int \<Rightarrow> world \<Rightarrow> world" where
  "new_tcp_server initer deiniter ideal w =
     (let i = wd_next w in
      (getInstance i ideal w)\<lparr>wd_next := Suc i, wd_servers := (wd_servers w)(i \<mapsto>
        \<lparr>ti_initer = initer, ti_deiniter = deiniter, ti_processor = no_processors\<rparr>)\<rparr>)"

definition destroy_tcp_server :: "nat \<Rightarrow> world \<Rightarrow> world" where
  "destroy_tcp_server i w = w\<lparr>wd_servers := (wd_servers w)(i := None)\<rparr>"

text \<open>
  The setters of a live server store the processor in the server and in the manager. The
  three differ in the component they set: \<open>upd\<close> sets it in a set of processors.
\<close>

definition set_processor :: "(packet_processor \<Rightarrow> packet_processor) \<Rightarrow> (manager_obj \<Rightarrow> manager_obj) \<Rightarrow>
    nat \<Rightarrow> world \<Rightarrow> world beh" where
  "set_processor upd mupd i w =
     (case (wd_servers w i, wd_instance w) of
        (Some t, Some mo) \<Rightarrow> Returns (w\<lparr>wd_servers := (wd_servers w)(i \<mapsto> t\<lparr>ti_processor := upd (ti_processor t)\<rparr>),
          wd_instance := Some (mupd mo)\<rparr>)
      | _ \<Rightarrow> UB)"

definition server_setInfoProcessor :: "(Packet \<Rightarrow> Packet \<Rightarrow> Packet) option \<Rightarrow> nat \<Rightarrow> world \<Rightarrow> world beh" where
  "server_setInfoProcessor f = set_processor (\<lambda>p. p\<lparr>pp_info := f\<rparr>) (manager_setInfoProcessor f)"

definition server_setActionProcessor :: "(Packet \<Rightarrow> Packet \<Rightarrow> Packet) option \<Rightarrow> nat \<Rightarrow> world \<Rightarrow> world beh" where
  "server_setActionProcessor f = set_processor (\<lambda>p. p\<lparr>pp_action := f\<rparr>) (manager_setActionProcessor f)"

definition server_setErrorProcessor :: "bool \<Rightarrow> nat \<Rightarrow> world \<Rightarrow> world beh" where
  "server_setErrorProcessor f = set_processor (\<lambda>p. p\<lparr>pp_error := f\<rparr>) (manager_setErrorProcessor f)"

text \<open>
  A connection to a live server: the manager makes a worker, whose packet processor calls
  the initialiser through the reference; undefined when the server it refers to is gone.
\<close>

definition accept_connection :: "(int \<times> int) list \<Rightarrow> int \<Rightarrow> nat \<Rightarrow> world \<Rightarrow> world beh option" where
  "accept_connection rands handle i w =
     (case (wd_servers w i, wd_instance w) of
        (Some t, Some mo) \<Rightarrow>
          let m = mo_manager mo; call = createConnection rands handle m in
          if workers_size m \<ge> tm_maximumThreadCount m
          then map_option (\<lambda>b. case b of Returns n \<Rightarrow> Returns (w\<lparr>wd_instance := Some (mo\<lparr>mo_manager := n\<rparr>)\<rparr>)
                 | UB \<Rightarrow> UB | Throws e \<Rightarrow> Throws e) call
          else (case (fresh_id (tm_workers m) rands, call) of
            (Some (Returns k), Some (Returns n)) \<Rightarrow>
              (case wd_servers w (mo_owner mo) of
                 None \<Rightarrow> Some UB
               | Some owner \<Rightarrow> Some (Returns (w\<lparr>wd_instance := Some (mo\<lparr>mo_manager := n\<rparr>),
                   wd_workers := (wd_workers w)(k \<mapsto> new_connection_worker),
                   wd_calls := new_packet_processor (ti_initer owner) (wd_calls w)\<rparr>)))
          | (Some _, Some _) \<Rightarrow> Some UB
          | _ \<Rightarrow> None)
      | _ \<Rightarrow> Some UB)"

subsection \<open>Workers\<close>

text \<open>The queued call of \<open>setConnection\<close>, in the thread of the worker.\<close>

definition worker_connects :: "u64 \<Rightarrow> world \<Rightarrow> world" where
  "worker_connects k w =
     (case wd_workers w k of
        None \<Rightarrow> w
      | Some cw \<Rightarrow> w\<lparr>wd_workers := (wd_workers w)(k \<mapsto> setConnection k cw)\<rparr>)"

text \<open>A message is processed by the processors the manager has at that time.\<close>

definition worker_message :: "xlib \<Rightarrow> string \<Rightarrow> u64 \<Rightarrow> world \<Rightarrow> world" where
  "worker_message xl bytes k w =
     (case (wd_workers w k, wd_instance w) of
        (Some cw, Some mo) \<Rightarrow>
          let cw1 = onMessage xl bytes (cw\<lparr>cw_processor := mo_processor mo\<rparr>) in
          w\<lparr>wd_workers := (wd_workers w)(k \<mapsto> cw1), wd_instance := Some (mo\<lparr>mo_processor := cw_processor cw1\<rparr>)\<rparr>
      | _ \<Rightarrow> w)"

text \<open>The socket of a worker closes: the manager forgets it.\<close>

definition worker_finishes :: "u64 \<Rightarrow> world \<Rightarrow> world beh" where
  "worker_finishes k w =
     (case (wd_workers w k, wd_instance w) of
        (Some cw, Some mo) \<Rightarrow>
          (case onFinished (getId (onDisconnect cw)) (mo_manager mo) of
             UB \<Rightarrow> UB | Throws e \<Rightarrow> Throws e
           | Returns n \<Rightarrow> Returns (w\<lparr>wd_workers := (wd_workers w)(k := None), wd_instance := Some (mo\<lparr>mo_manager := n\<rparr>)\<rparr>))
      | _ \<Rightarrow> UB)"

inductive world_step :: "world \<Rightarrow> world \<Rightarrow> bool" where
  construct: "world_step w (new_tcp_server initer deiniter ideal w)"
| destruct: "world_step w (destroy_tcp_server i w)"
| info: "server_setInfoProcessor f i w = Returns v \<Longrightarrow> world_step w v"
| action: "server_setActionProcessor f i w = Returns v \<Longrightarrow> world_step w v"
| err: "server_setErrorProcessor b i w = Returns v \<Longrightarrow> world_step w v"
| accept: "accept_connection rands handle i w = Some (Returns v) \<Longrightarrow> world_step w v"
| connects: "world_step w (worker_connects k w)"
| message: "world_step w (worker_message xl bytes k w)"
| finishes: "wd_workers w k = Some cw \<Longrightarrow> cw_connected cw \<Longrightarrow> worker_finishes k w = Returns v \<Longrightarrow> world_step w v"

inductive world_runs :: "world \<Rightarrow> world \<Rightarrow> bool" where
  refl: "world_runs w w"
| step: "world_runs w v \<Longrightarrow> world_step v u \<Longrightarrow> world_runs w u"

subsection \<open>Invariant\<close>

text \<open>
  The manager belongs to the first server; its maps and the worker objects agree, and a
  connected worker knows the id it has there.
\<close>

definition manager_ok :: "manager_obj \<Rightarrow> (u64 \<rightharpoonup> connection_worker) \<Rightarrow> bool" where
  "manager_ok mo ws \<longleftrightarrow> mo_owner mo = 0 \<and> manager_inv (mo_manager mo) \<and> dom ws = dom (tm_workers (mo_manager mo))"

definition world_inv :: "world \<Rightarrow> bool" where
  "world_inv w \<longleftrightarrow> (\<forall>i \<ge> wd_next w. wd_servers w i = None) \<and>
     (case wd_instance w of
        None \<Rightarrow> wd_next w = 0 \<and> wd_workers w = Map.empty
      | Some mo \<Rightarrow> 0 < wd_next w \<and> manager_ok mo (wd_workers w)) \<and>
     (\<forall>k cw. wd_workers w k = Some cw \<and> cw_connected cw \<longrightarrow> cw_workerId cw = k)"

lemma setters_keep [simp]:
  "mo_manager (manager_setInfoProcessor f mo) = mo_manager mo"
  "mo_owner (manager_setInfoProcessor f mo) = mo_owner mo"
  "mo_manager (manager_setActionProcessor f mo) = mo_manager mo"
  "mo_owner (manager_setActionProcessor f mo) = mo_owner mo"
  "mo_manager (manager_setErrorProcessor b mo) = mo_manager mo"
  "mo_owner (manager_setErrorProcessor b mo) = mo_owner mo"
  by (simp_all add: manager_setInfoProcessor_def manager_setActionProcessor_def manager_setErrorProcessor_def)

lemma set_processor_inv:
  assumes "world_inv w" and "set_processor upd mupd i w = Returns v"
    and "\<And>mo. mo_manager (mupd mo) = mo_manager mo \<and> mo_owner (mupd mo) = mo_owner mo"
  shows "world_inv v"
proof -
  have "manager_ok (mupd mo) ws = manager_ok mo ws" for mo ws using assms(3)[of mo] by (simp add: manager_ok_def)
  then show ?thesis using assms(1,2) by (auto simp: set_processor_def world_inv_def split: option.splits)
qed

lemma onMessage_frame [simp]:
  "cw_connected (onMessage xl b w) = cw_connected w" "cw_workerId (onMessage xl b w) = cw_workerId w"
  by (simp_all add: onMessage_def Let_def split: prod.split)

lemma new_manager_workers [simp]: "tm_workers (new_thread_manager k) = Map.empty"
  by (simp add: new_thread_manager_def setThreadCount_def workers_size_def)

lemma construct_inv: "world_inv w \<Longrightarrow> world_inv (new_tcp_server a b ideal w)"
  by (cases "wd_instance w")
    (simp_all add: world_inv_def new_tcp_server_def getInstance_def manager_ok_def new_manager_inv Let_def)

lemma new_worker_dom:
  assumes "fresh_id (tm_workers m) rands = Some (Returns k)" and "createConnection rands h m = Some (Returns n)"
    and "\<not> workers_size m \<ge> tm_maximumThreadCount m"
  shows "dom (tm_workers n) = insert k (dom (tm_workers m))"
  using assms by (auto simp: createConnection_def)

lemma rejected_dom:
  assumes "createConnection rands h m = Some (Returns n)" and "workers_size m \<ge> tm_maximumThreadCount m"
  shows "tm_workers n = tm_workers m"
  using assms by (auto simp: createConnection_def)

lemma accept_inv:
  assumes "world_inv w" and "accept_connection rands h i w = Some (Returns v)"
  shows "world_inv v"
proof -
  obtain t mo where tm: "wd_servers w i = Some t" "wd_instance w = Some mo"
    using assms(2) by (auto simp: accept_connection_def split: option.splits)
  have ok: "manager_inv (mo_manager mo)" "mo_owner mo = 0" "dom (wd_workers w) = dom (tm_workers (mo_manager mo))"
    using assms(1) tm by (auto simp: world_inv_def manager_ok_def)
  show ?thesis
  proof (cases "workers_size (mo_manager mo) \<ge> tm_maximumThreadCount (mo_manager mo)")
    case True
    then obtain n where n: "createConnection rands h (mo_manager mo) = Some (Returns n)"
        "v = w\<lparr>wd_instance := Some (mo\<lparr>mo_manager := n\<rparr>)\<rparr>"
      using assms(2) tm True by (auto simp: accept_connection_def createConnection_def Let_def)
    then show ?thesis
      using assms(1) tm ok createConnection_inv[OF ok(1) n(1)] rejected_dom[OF n(1) True]
      by (auto simp: world_inv_def manager_ok_def)
  next
    case False
    then obtain k n cs where n: "fresh_id (tm_workers (mo_manager mo)) rands = Some (Returns k)"
        "createConnection rands h (mo_manager mo) = Some (Returns n)"
        "v = w\<lparr>wd_instance := Some (mo\<lparr>mo_manager := n\<rparr>), wd_workers := (wd_workers w)(k \<mapsto> new_connection_worker),
           wd_calls := cs\<rparr>"
      using assms(2) tm by (auto simp: accept_connection_def Let_def split: option.splits beh.splits)
    then show ?thesis
      using assms(1) tm ok createConnection_inv[OF ok(1) n(2)] new_worker_dom[OF n(1,2) False]
      by (auto simp: world_inv_def manager_ok_def new_connection_worker_def)
  qed
qed

lemma finishes_inv:
  assumes "world_inv w" and "wd_workers w k = Some cw" and "cw_connected cw" and "worker_finishes k w = Returns v"
  shows "world_inv v"
proof -
  obtain mo n where mo: "wd_instance w = Some mo" "onFinished (getId (onDisconnect cw)) (mo_manager mo) = Returns n"
      "v = w\<lparr>wd_workers := (wd_workers w)(k := None), wd_instance := Some (mo\<lparr>mo_manager := n\<rparr>)\<rparr>"
    using assms(2,4) by (auto simp: worker_finishes_def split: option.splits beh.splits)
  have id: "getId (onDisconnect cw) = k"
    using assms(1-3) by (simp add: world_inv_def getId_def onDisconnect_def)
  have ok: "manager_inv (mo_manager mo)" "mo_owner mo = 0" "dom (wd_workers w) = dom (tm_workers (mo_manager mo))"
    using assms(1) mo(1) by (auto simp: world_inv_def manager_ok_def)
  have k: "k \<in> dom (tm_workers (mo_manager mo))" using assms(2) ok(3) by blast
  have "manager_inv n" using onFinished_inv[OF ok(1) k] mo(2) id by simp
  moreover have "tm_workers n = (tm_workers (mo_manager mo))(k := None)"
    using mo(2) id by (auto simp: onFinished_def split: if_splits)
  ultimately show ?thesis using assms(1) mo ok by (auto simp: world_inv_def manager_ok_def)
qed

lemma world_step_inv: "world_step w v \<Longrightarrow> world_inv w \<Longrightarrow> world_inv v"
proof (induction rule: world_step.induct)
  case (connects w k)
  then show ?case
    by (auto simp: world_inv_def worker_connects_def setConnection_def manager_ok_def split: option.splits if_splits)
next
  case (message w xl bytes k)
  then show ?case
    by (auto simp: world_inv_def worker_message_def manager_ok_def Let_def split: option.splits if_splits)
next
  case (destruct w i)
  then show ?case by (cases "wd_instance w") (simp_all add: world_inv_def destroy_tcp_server_def)
qed (auto intro: construct_inv accept_inv finishes_inv set_processor_inv
  simp: server_setInfoProcessor_def server_setActionProcessor_def server_setErrorProcessor_def)

lemma world_runs_inv: "world_runs w v \<Longrightarrow> world_inv w \<Longrightarrow> world_inv v"
  by (induction rule: world_runs.induct) (auto intro: world_step_inv)

lemma empty_world_inv: "world_inv empty_world"
  by (simp add: world_inv_def empty_world_def)

lemmas reachable_world_inv = world_runs_inv[OF _ empty_world_inv]

subsection \<open>Properties\<close>

text \<open>
  C33. The manager stays with the first server. A connection to any live server is given a
  worker initialised by the callback of the server that was constructed first, whatever
  the callbacks of the accepting one; when the first server is gone, it is undefined.
\<close>

theorem workers_initialised_by_first_server:
  assumes "world_runs empty_world w" and "wd_servers w i = Some t" and "wd_instance w = Some mo"
    and "0 < availableThreads (mo_manager mo)" and "fresh_id (tm_workers (mo_manager mo)) rands = Some (Returns k)"
  shows "case wd_servers w 0 of
      None \<Rightarrow> accept_connection rands h i w = Some UB
    | Some first \<Rightarrow> \<exists>v. accept_connection rands h i w = Some (Returns v) \<and>
        wd_calls v = wd_calls w @ (case ti_initer first of None \<Rightarrow> [] | Some f \<Rightarrow> [f]) \<and>
        wd_workers v = (wd_workers w)(k \<mapsto> new_connection_worker)"
proof -
  have owner: "mo_owner mo = 0"
    using reachable_world_inv[OF assms(1)] assms(3) by (simp add: world_inv_def manager_ok_def)
  have "createConnection rands h (mo_manager mo) = Some (Returns ((mo_manager mo)
      \<lparr>tm_workers := (tm_workers (mo_manager mo))(k \<mapsto> Some h), tm_threads := (tm_threads (mo_manager mo))(k \<mapsto> h)\<rparr>))"
    using assms(4,5) by (simp add: createConnection_def availableThreads_def)
  then show ?thesis
    using assms(2-5) owner
    by (cases "wd_servers w 0")
      (auto simp: accept_connection_def availableThreads_def new_packet_processor_def Let_def split: option.split)
qed

definition two_servers :: world where
  "two_servers = new_tcp_server (Some 20) None 4 (new_tcp_server (Some 10) None 4 empty_world)"

definition four_threads :: manager_obj where
  "four_threads = \<lparr>mo_manager = new_thread_manager 4, mo_owner = 0, mo_processor = no_processors\<rparr>"

lemma two_servers_runs: "world_runs empty_world two_servers"
  unfolding two_servers_def
  by (rule world_runs.step[OF world_runs.step[OF world_runs.refl world_step.construct] world_step.construct])

lemma two_servers_state:
  "wd_instance two_servers = Some four_threads" "wd_calls two_servers = []" "wd_workers two_servers = Map.empty"
  "wd_servers two_servers 0 = Some \<lparr>ti_initer = Some 10, ti_deiniter = None, ti_processor = no_processors\<rparr>"
  "wd_servers two_servers (Suc 0) = Some \<lparr>ti_initer = Some 20, ti_deiniter = None, ti_processor = no_processors\<rparr>"
  by (simp_all add: two_servers_def four_threads_def new_tcp_server_def getInstance_def empty_world_def Let_def)

lemma four_threads_free:
  "0 < availableThreads (mo_manager four_threads)"
  "fresh_id (tm_workers (mo_manager four_threads)) [(3, 5)] = Some (Returns 15)"
  by (simp_all add: four_threads_def availableThreads_def workers_size_def new_thread_manager_def setThreadCount_def)

lemma workers_initialised_by_first_server_witness:
  "(\<exists>v. accept_connection [(3, 5)] 7 (Suc 0) two_servers = Some (Returns v) \<and> wd_calls v = [10]) \<and>
   accept_connection [(3, 5)] 7 (Suc 0) (destroy_tcp_server 0 two_servers) = Some UB"
proof
  show "\<exists>v. accept_connection [(3, 5)] 7 (Suc 0) two_servers = Some (Returns v) \<and> wd_calls v = [10]"
    using workers_initialised_by_first_server[OF two_servers_runs two_servers_state(5,1) four_threads_free, of 7]
    by (auto simp: two_servers_state)
  have "world_runs empty_world (destroy_tcp_server 0 two_servers)"
    by (rule world_runs.step[OF two_servers_runs world_step.destruct])
  moreover have "wd_servers (destroy_tcp_server 0 two_servers) (Suc 0) = wd_servers two_servers (Suc 0)"
    "wd_servers (destroy_tcp_server 0 two_servers) 0 = None"
    "wd_instance (destroy_tcp_server 0 two_servers) = Some four_threads"
    by (simp_all add: destroy_tcp_server_def two_servers_state(1))
  ultimately show "accept_connection [(3, 5)] 7 (Suc 0) (destroy_tcp_server 0 two_servers) = Some UB"
    using workers_initialised_by_first_server[OF _ _ _ four_threads_free, of "destroy_tcp_server 0 two_servers" "Suc 0" _ 7]
    by (simp add: two_servers_state)
qed

text \<open>
  The processors are those set last. After a setter of any server, an information
  packet to any connected worker, of whichever server, is answered by that processor.
\<close>

theorem last_processor_answers:
  assumes "server_setInfoProcessor (Some f) i w = Returns v" and "wd_workers v k = Some cw" and "cw_connected cw"
    and "xp_isValid (convert_from xl bytes)"
    and "xp_type (convert_from xl bytes) = word_of_int (packet_type_code INFO_PACKET_TYPE)"
  shows "let r = f (convert_from xl bytes) new_Packet in
    \<exists>cw1. wd_workers (worker_message xl bytes k v) k = Some cw1 \<and>
      cw_written cw1 = cw_written cw @ (if xp_isValid r then [convert_to xl r] else [])"
proof -
  obtain mo where "wd_instance v = Some mo" "pp_info (mo_processor mo) = Some f"
    using assms(1)
    by (auto simp: server_setInfoProcessor_def set_processor_def manager_setInfoProcessor_def split: option.splits)
  then show ?thesis using assms(2-5)
    by (simp add: worker_message_def onMessage_def process_def Let_def)
qed

text \<open>
  Servers, manager and workers fit together. In every state they can reach, the worker
  objects are those in the maps of the manager, and a worker whose connection closes is
  found there, its thread becomes available, and nothing else changes hands.
\<close>

theorem finished_worker_frees_thread:
  assumes "world_runs empty_world w" and "wd_workers w k = Some cw" and "cw_connected cw"
  shows "\<exists>mo v n. wd_instance w = Some mo \<and> worker_finishes k w = Returns v \<and>
    wd_instance v = Some (mo\<lparr>mo_manager := n\<rparr>) \<and> wd_workers v = (wd_workers w)(k := None) \<and>
    dom (wd_workers w) = dom (tm_workers (mo_manager mo)) \<and>
    availableThreads n = availableThreads (mo_manager mo) + 1"
proof -
  have inv: "world_inv w" using reachable_world_inv[OF assms(1)] .
  then obtain mo where mo: "wd_instance w = Some mo" "manager_inv (mo_manager mo)"
      "dom (wd_workers w) = dom (tm_workers (mo_manager mo))"
    using assms(2) by (auto simp: world_inv_def manager_ok_def split: option.splits)
  have id: "getId (onDisconnect cw) = k" using inv assms(2,3) by (simp add: world_inv_def getId_def onDisconnect_def)
  have k: "k \<in> dom (tm_workers (mo_manager mo))" using assms(2) mo(3) by blast
  let ?m = "mo_manager mo"
  let ?n = "?m\<lparr>tm_threads := (tm_threads ?m)(k := None), tm_workers := (tm_workers ?m)(k := None)\<rparr>"
  have fin: "onFinished k ?m = Returns ?n" using k mo(2) by (auto simp: onFinished_def manager_inv_def)
  let ?v = "w\<lparr>wd_workers := (wd_workers w)(k := None), wd_instance := Some (mo\<lparr>mo_manager := ?n\<rparr>)\<rparr>"
  have "worker_finishes k w = Returns ?v"
    using assms(2) mo(1) id fin by (simp add: worker_finishes_def)
  moreover have "availableThreads ?n = availableThreads ?m + 1"
  proof -
    have "Suc (card (dom (tm_workers ?m) - {k})) = card (dom (tm_workers ?m))"
      using k mo(2) by (intro card_Suc_Diff1) (simp_all add: manager_inv_def)
    then show ?thesis by (simp add: availableThreads_def workers_size_def del: card_Diff_insert)
  qed
  ultimately show ?thesis using mo(1,3)
    by (intro exI[of _ mo] exI[of _ ?v] exI[of _ ?n]) simp
qed


definition one_worker :: world where
  "one_worker = worker_connects 15 (case accept_connection [(3, 5)] 7 (Suc 0) two_servers of Some (Returns v) \<Rightarrow> v)"

lemma one_worker_runs:
  "world_runs empty_world one_worker \<and>
   wd_workers one_worker = [15 \<mapsto> new_connection_worker\<lparr>cw_connected := True, cw_workerId := 15\<rparr>] \<and>
   (\<exists>mo. wd_instance one_worker = Some mo) \<and> (\<exists>t. wd_servers one_worker 0 = Some t)"
proof -
  obtain v where v: "accept_connection [(3, 5)] 7 (Suc 0) two_servers = Some (Returns v)"
      "wd_workers v = [15 \<mapsto> new_connection_worker]" "\<exists>mo. wd_instance v = Some mo" "\<exists>t. wd_servers v 0 = Some t"
    by (simp add: accept_connection_def two_servers_state createConnection_def availableThreads_def
        four_threads_def new_thread_manager_def setThreadCount_def workers_size_def Let_def)
  have "world_runs empty_world (worker_connects 15 v)"
    by (rule world_runs.step[OF world_runs.step[OF two_servers_runs world_step.accept[OF v(1)]] world_step.connects])
  then show ?thesis using v
    by (simp add: one_worker_def worker_connects_def setConnection_def new_connection_worker_def)
qed

lemma finished_worker_frees_thread_witness:
  "\<exists>v. worker_finishes 15 one_worker = Returns v \<and> wd_workers v = Map.empty"
proof -
  let ?cw = "new_connection_worker\<lparr>cw_connected := True, cw_workerId := 15\<rparr>"
  have "world_runs empty_world one_worker" "wd_workers one_worker 15 = Some ?cw" "cw_connected ?cw"
    using one_worker_runs by simp_all
  from finished_worker_frees_thread[OF this] show ?thesis using one_worker_runs by auto
qed

lemma last_processor_answers_witness:
  "\<exists>v cw. server_setInfoProcessor (Some (\<lambda>p r. p)) 0 one_worker = Returns v \<and>
     wd_workers (worker_message sample_xlib
       (convert_to sample_xlib \<lparr>xp_type = 1, xp_command = ''c'', xp_data = [], xp_isValid = True\<rparr>) 15 v) 15 = Some cw \<and>
     cw_written cw = [convert_to sample_xlib \<lparr>xp_type = 1, xp_command = ''c'', xp_data = [], xp_isValid = True\<rparr>]"
proof -
  let ?p = "\<lparr>xp_type = 1, xp_command = ''c'', xp_data = [], xp_isValid = True\<rparr> :: Packet"
  let ?cw = "new_connection_worker\<lparr>cw_connected := True, cw_workerId := 15\<rparr>"
  obtain v where v: "server_setInfoProcessor (Some (\<lambda>p r. p)) 0 one_worker = Returns v"
      "wd_workers v 15 = Some ?cw"
    using one_worker_runs by (auto simp: server_setInfoProcessor_def set_processor_def)
  have "convert_from sample_xlib (convert_to sample_xlib ?p) = ?p" by (simp add: convert_roundtrip[OF sample_xlib_ok])
  then show ?thesis
    using last_processor_answers[OF v, of sample_xlib "convert_to sample_xlib ?p"] v(1)
    by (auto simp: Let_def new_connection_worker_def)
qed

end
