(* ===== verification/Legacy_Tcp_Calls.thy ===== *)
theory Legacy_Tcp_Calls
  imports Legacy_Clients Forward_Simulation
begin

text \<open>
  The Qt TCP client as its users see it (\<^verbatim>\<open>Legacy/tcpclientinstance.h\<close>): its slots,
  signals and methods as a type of calls, the events of its socket, and an abstract link that
  says which signals it emits. The client of \<open>Legacy_Clients\<close> is an instance of the locale
  \<open>simulation\<close> over it. (\<^verbatim>\<open>errorText\<close> is declared and nowhere defined.)
\<close>

subsection \<open>Calls and events\<close>

datatype tcp_call =
    Setup_server string u16
  | Wait_for_send int
  | Set_connection_timeout u16
  | Set_send_timeout u16
  | Connect
  | Disconnect
  | Is_connected
  | Get_message
  | Messages_available
  | Send_message Packet

text \<open>What the socket answers.\<close>

record tcp_env =
  te_waited :: "string \<Rightarrow> u16 \<Rightarrow> u16 \<Rightarrow> bool"
  te_left :: bool
  te_write :: "string \<Rightarrow> int"
  te_flushed :: "int \<Rightarrow> bool"

datatype tcp_answer = Nothing | Answer bool | Message Packet

text \<open>\<open>None\<close> is a call that does not return.\<close>

fun do_tcp_call :: "xlib \<Rightarrow> tcp_env \<Rightarrow> tcp_call \<Rightarrow> tcp_client \<Rightarrow> (tcp_answer \<times> tcp_client) option" where
  "do_tcp_call xl env (Setup_server h p) c = Some (Nothing, setupServer h p c)"
| "do_tcp_call xl env (Wait_for_send t) c = Some (Answer (waitForSend (te_flushed env) t c), c)"
| "do_tcp_call xl env (Set_connection_timeout t) c = Some (Nothing, setConnectionTimeout t c)"
| "do_tcp_call xl env (Set_send_timeout t) c = Some (Nothing, setSendTimeout t c)"
| "do_tcp_call xl env Connect c = Some (Nothing, tcp_connect (te_waited env) c)"
| "do_tcp_call xl env Disconnect c = Some (Nothing, tcp_disconnect (te_left env) c)"
| "do_tcp_call xl env Is_connected c = Some (Answer (tcp_isConnected c), c)"
| "do_tcp_call xl env Get_message c = map_option (\<lambda>(p, d). (Message p, d)) (getMessage c)"
| "do_tcp_call xl env Messages_available c = Some (Answer (messagesAvailable c), c)"
| "do_tcp_call xl env (Send_message p) c = Some (Nothing, sendMessageSlot xl (te_write env) p c)"

text \<open>Steps: a call that returns; data or the end of the connection, while it is there.\<close>

inductive tcp_step :: "xlib \<Rightarrow> tcp_client \<Rightarrow> tcp_client \<Rightarrow> bool" for xl where
  calls: "do_tcp_call xl env x c = Some (a, d) \<Longrightarrow> tcp_step xl c d"
| reads: "tk_connected c \<Longrightarrow> tcp_step xl c (tcp_onMessage xl bytes c)"
| drops: "tk_connected c \<Longrightarrow> tcp_step xl c (disconnected_signal (c\<lparr>tk_connected := False\<rparr>))"

subsection \<open>The abstract link\<close>

text \<open>
  A link is up or down. Going up signals \<^verbatim>\<open>connected\<close>; going down signals
  \<^verbatim>\<open>disconnected\<close>, twice when the client itself disconnects.
\<close>

record link =
  lk_up :: bool
  lk_signals :: "string list"

definition signals :: "string list \<Rightarrow> link \<Rightarrow> link" where
  "signals xs l = l\<lparr>lk_signals := lk_signals l @ xs\<rparr>"

inductive link_step :: "link \<Rightarrow> link \<Rightarrow> bool" where
  up: "\<not> lk_up l \<Longrightarrow> link_step l (signals [''connected''] (l\<lparr>lk_up := True\<rparr>))"
| dropped: "lk_up l \<Longrightarrow> link_step l (signals [''disconnected''] (l\<lparr>lk_up := False\<rparr>))"
| left: "lk_up l \<Longrightarrow> link_step l (signals [''disconnected'', ''disconnected''] (l\<lparr>lk_up := False\<rparr>))"

text \<open>The number of connections that have ended.\<close>

definition ended :: "link \<Rightarrow> nat" where
  "ended l = count_list (lk_signals l) ''connected'' - (if lk_up l then 1 else 0)"

definition link_inv :: "link \<Rightarrow> bool" where
  "link_inv l \<longleftrightarrow> (if lk_up l then 1 else 0) \<le> count_list (lk_signals l) ''connected'' \<and>
     ended l \<le> count_list (lk_signals l) ''disconnected'' \<and>
     count_list (lk_signals l) ''disconnected'' \<le> 2 * ended l"

lemma link_step_inv: "link_inv l \<Longrightarrow> link_step l m \<Longrightarrow> link_inv m"
  by (erule link_step.cases) (auto simp: link_inv_def ended_def signals_def)

subsection \<open>The client refines the link\<close>

definition link_of :: "tcp_client \<Rightarrow> link" where
  "link_of c = \<lparr>lk_up = tk_connected c, lk_signals = tk_signals c\<rparr>"

lemmas tcp_defs = tcp_isConnected_def setupServer_def setConnectionTimeout_def setSendTimeout_def
  tcp_connect_def tcp_disconnect_def disconnected_signal_def onFail_def sendMessageSlot_def tcp_onMessage_def

lemma link_of_same:
  "tk_connected d = tk_connected c \<Longrightarrow> tk_signals d = tk_signals c \<Longrightarrow> \<exists>m. link_step\<^sup>*\<^sup>* (link_of c) m \<and> link_of d = m"
  by (auto simp: link_of_def)

lemma tcp_call_attached:
  "do_tcp_call xl env x c = Some (a, d) \<Longrightarrow> tk_attached c \<Longrightarrow> tk_attached d"
  by (cases x) (auto simp: tcp_defs getMessage_diverges Let_def split: if_splits)

lemma tcp_call_link:
  assumes "do_tcp_call xl env x c = Some (a, d)" and "tk_attached c"
  shows "\<exists>m. link_step\<^sup>*\<^sup>* (link_of c) m \<and> link_of d = m"
proof (cases x)
  case Connect
  then have d: "d = tcp_connect (te_waited env) c" using assms(1) by simp
  show ?thesis
  proof (cases "tk_connected d = tk_connected c")
    case True
    then have "d = c" using d by (auto simp: tcp_defs Let_def split: if_splits)
    then show ?thesis by blast
  next
    case False
    then have "\<not> tk_connected c" "link_of d = signals [''connected''] ((link_of c)\<lparr>lk_up := True\<rparr>)"
      using d by (auto simp: tcp_defs link_of_def signals_def Let_def split: if_splits)
    then have "link_step (link_of c) (link_of d)" using link_step.up[of "link_of c"] by (simp add: link_of_def)
    then show ?thesis by blast
  qed
next
  case Disconnect
  then have d: "d = tcp_disconnect (te_left env) c" using assms(1) by simp
  show ?thesis
  proof (cases "tk_connected d = tk_connected c")
    case True
    then show ?thesis using d by (intro link_of_same) (auto simp: tcp_defs Let_def split: if_splits)
  next
    case False
    then have "tk_connected c" "link_of d = signals [''disconnected'', ''disconnected''] ((link_of c)\<lparr>lk_up := False\<rparr>)"
      using d assms(2) by (auto simp: tcp_defs link_of_def signals_def Let_def split: if_splits)
    then have "link_step (link_of c) (link_of d)" using link_step.left[of "link_of c"] by (simp add: link_of_def)
    then show ?thesis by blast
  qed
qed (use assms(1) in \<open>auto simp: tcp_defs link_of_def getMessage_diverges Let_def split: if_splits\<close>)

interpretation tcp: simulation "tcp_step xl" link_step tk_attached link_inv "\<lambda>c l. link_of c = l" for xl
proof unfold_locales
  fix c d assume "tk_attached c" "tcp_step xl c d"
  then show "tk_attached d"
    by (auto elim!: tcp_step.cases intro: tcp_call_attached simp: tcp_onMessage_def disconnected_signal_def onFail_def Let_def)
next
  fix l m assume "link_inv l" "link_step l m"
  then show "link_inv m" by (rule link_step_inv)
next
  fix c l d assume c: "tk_attached c" and l: "link_of c = l" and step: "tcp_step xl c d"
  from step have "\<exists>m. link_step\<^sup>*\<^sup>* (link_of c) m \<and> link_of d = m"
  proof cases
    case (calls env x a)
    then show ?thesis by (rule tcp_call_link[OF _ c])
  next
    case (reads bytes)
    then show ?thesis by (intro link_of_same) (simp_all add: tcp_onMessage_def Let_def)
  next
    case drops
    then have "link_of d = signals [''disconnected''] ((link_of c)\<lparr>lk_up := False\<rparr>)"
      using c by (simp add: disconnected_signal_def onFail_def link_of_def signals_def)
    then have "link_step (link_of c) (link_of d)"
      using link_step.dropped[of "link_of c"] drops by (simp add: link_of_def)
    then show ?thesis by blast
  qed
  then show "\<exists>m. link_step\<^sup>*\<^sup>* l m \<and> link_of d = m" using l by simp
qed

subsection \<open>Properties\<close>

text \<open>
  C28. The signals of the TCP client. However it is called and however its connections
  end, the client goes through the states of the abstract link, and the number of
  \<^verbatim>\<open>disconnected\<close> signals lies between the number of connections that ended and twice that
  number: a disconnect of its own is signalled twice.
\<close>

theorem tcp_client_refines_link:
  assumes "(tcp_step xl)\<^sup>*\<^sup>* new_tcp_client c"
  shows "link_step\<^sup>*\<^sup>* \<lparr>lk_up = False, lk_signals = []\<rparr> (link_of c) \<and>
    ended (link_of c) \<le> count_list (tk_signals c) ''disconnected'' \<and>
    count_list (tk_signals c) ''disconnected'' \<le> 2 * ended (link_of c)"
proof -
  let ?l = "\<lparr>lk_up = False, lk_signals = []\<rparr>"
  have l: "link_of new_tcp_client = ?l" "tk_attached new_tcp_client" "link_inv ?l"
    by (simp_all add: link_of_def new_tcp_client_def link_inv_def ended_def)
  have run: "link_step\<^sup>*\<^sup>* ?l (link_of c)"
    using tcp.simulates_runs[OF assms l(2,3,1)] by blast
  have "link_inv (link_of c)" using tcp.ainv_runs[OF run l(3)] .
  then show ?thesis using run by (simp add: link_inv_def link_of_def)
qed

lemma tcp_client_refines_link_witness:
  "\<exists>c. (tcp_step sample_xlib)\<^sup>*\<^sup>* new_tcp_client c \<and> tk_signals c = [''connected'', ''disconnected'', ''disconnected''] \<and>
     count_list (tk_signals c) ''disconnected'' \<le> 2 * ended (link_of c)"
proof -
  let ?env = "\<lparr>te_waited = \<lambda>_ _ _. True, te_left = True, te_write = \<lambda>m. int (length m), te_flushed = \<lambda>_. True\<rparr>"
  let ?a = "tcp_connect (\<lambda>_ _ _. True) new_tcp_client"
  let ?b = "tcp_disconnect True ?a"
  have a: "tcp_step sample_xlib new_tcp_client ?a" by (rule tcp_step.calls[of _ ?env Connect]) simp
  have b: "tcp_step sample_xlib ?a ?b" by (rule tcp_step.calls[of _ ?env Disconnect]) simp
  have run: "(tcp_step sample_xlib)\<^sup>*\<^sup>* new_tcp_client ?b"
    by (rule rtranclp.rtrancl_into_rtrancl[where r = "tcp_step sample_xlib", OF r_into_rtranclp[where r = "tcp_step sample_xlib", OF a] b])
  have "tk_signals ?b = [''connected'', ''disconnected'', ''disconnected'']"
    by (simp add: tcp_defs new_tcp_client_def Let_def)
  then show ?thesis using run tcp_client_refines_link[OF run] by blast
qed

end
