(* ===== verification/Legacy_Tcp_System.thy ===== *)
theory Legacy_Tcp_System
  imports Legacy_Tcp_Calls
begin

text \<open>
  A Qt TCP client and the worker that serves it, joined by two streams of bytes
  (\<^verbatim>\<open>Legacy/tcpclientinstance.cpp\<close>, \<^verbatim>\<open>connectionworker.cpp\<close>): a stream delivers
  its bytes in order, in whatever pieces the reader finds when it reads.
\<close>

subsection \<open>The two ends and the streams\<close>

record tcp_link =
  tl_client :: tcp_client
  tl_worker :: connection_worker
  tl_up :: string
  tl_down :: string

definition new_link :: "tcp_client \<Rightarrow> connection_worker \<Rightarrow> tcp_link" where
  "new_link c w = \<lparr>tl_client = c, tl_worker = w, tl_up = [], tl_down = []\<rparr>"

text \<open>The client does a call of its interface; what it writes goes up.\<close>

definition link_call :: "tcp_client \<Rightarrow> tcp_link \<Rightarrow> tcp_link" where
  "link_call d l = l\<lparr>tl_client := d,
     tl_up := tl_up l @ concat (drop (length (tk_written (tl_client l))) (tk_written d))\<rparr>"

text \<open>The worker reads the first \<open>n\<close> bytes, the client the first \<open>n\<close> of the answers.\<close>

definition worker_reads :: "xlib \<Rightarrow> nat \<Rightarrow> tcp_link \<Rightarrow> tcp_link" where
  "worker_reads xl n l =
     (let w = onMessage xl (take n (tl_up l)) (tl_worker l) in
      l\<lparr>tl_worker := w, tl_up := drop n (tl_up l),
        tl_down := tl_down l @ concat (drop (length (cw_written (tl_worker l))) (cw_written w))\<rparr>)"

definition client_reads :: "xlib \<Rightarrow> nat \<Rightarrow> tcp_link \<Rightarrow> tcp_link" where
  "client_reads xl n l =
     l\<lparr>tl_client := tcp_onMessage xl (take n (tl_down l)) (tl_client l), tl_down := drop n (tl_down l)\<rparr>"

text \<open>
  The steps while the connection lasts: the client is not disconnected here.
\<close>

inductive tcp_link_step :: "xlib \<Rightarrow> tcp_link \<Rightarrow> tcp_link \<Rightarrow> bool" for xl where
  calls: "do_tcp_call xl env x (tl_client l) = Some (a, d) \<Longrightarrow> x \<noteq> Disconnect \<Longrightarrow> tcp_link_step xl l (link_call d l)"
| worker: "0 < n \<Longrightarrow> n \<le> length (tl_up l) \<Longrightarrow> tcp_link_step xl l (worker_reads xl n l)"
| client: "0 < n \<Longrightarrow> n \<le> length (tl_down l) \<Longrightarrow> tcp_link_step xl l (client_reads xl n l)"

subsection \<open>Every read is decoded on its own\<close>

text \<open>What a worker answers to one piece of bytes, and what a client gets out of one.\<close>

definition answers :: "xlib \<Rightarrow> packet_processor \<Rightarrow> string \<Rightarrow> string list" where
  "answers xl pp bytes =
     (let request = convert_from xl bytes; response = fst (process request pp) in
      if xp_isValid request \<and> xp_isValid response then [convert_to xl response] else [])"

definition packets :: "xlib \<Rightarrow> string \<Rightarrow> Packet list" where
  "packets xl bytes = (if length bytes < 2 then [] else [convert_from xl bytes])"

text \<open>The processors of a worker, but for the log of errors, which no answer depends on.\<close>

definition same_processors :: "packet_processor \<Rightarrow> packet_processor \<Rightarrow> bool" where
  "same_processors p q \<longleftrightarrow> pp_info q = pp_info p \<and> pp_action q = pp_action p \<and> pp_error q = pp_error p"

lemma process_same:
  "same_processors p q \<Longrightarrow> fst (process x q) = fst (process x p) \<and> same_processors p (snd (process x q))"
  by (auto simp: process_def same_processors_def)

lemma onMessage_effect:
  assumes "cw_connected w" and "same_processors pp (cw_processor w)"
  shows "cw_written (onMessage xl bytes w) = cw_written w @ answers xl pp bytes \<and>
    cw_connected (onMessage xl bytes w) \<and> same_processors pp (cw_processor (onMessage xl bytes w))"
  using assms process_same[OF assms(2), of "convert_from xl bytes"]
  by (auto simp: onMessage_def answers_def Let_def split: prod.split)

lemma onMessage_client:
  "tk_gotPackets (tcp_onMessage xl bytes c) = tk_gotPackets c @ packets xl bytes"
  "tk_written (tcp_onMessage xl bytes c) = tk_written c" "tk_connected (tcp_onMessage xl bytes c) = tk_connected c"
  by (simp_all add: tcp_onMessage_def packets_def Let_def)

lemma tcp_call_written:
  assumes "do_tcp_call xl env x c = Some (a, d)"
  shows "\<exists>ys. tk_written d = tk_written c @ ys \<and> tk_gotPackets d = tk_gotPackets c"
  using assms
  by (cases x) (auto simp: tcp_defs getMessage_diverges Let_def split: if_splits)

text \<open>\<open>us\<close> are the pieces the worker has read, \<open>ds\<close> those the client has read.\<close>

definition cut_into :: "xlib \<Rightarrow> packet_processor \<Rightarrow> tcp_link \<Rightarrow> tcp_link \<Rightarrow> string list \<Rightarrow> string list \<Rightarrow> bool" where
  "cut_into xl pp l0 l us ds \<longleftrightarrow>
     (\<exists>ws. tk_written (tl_client l) = tk_written (tl_client l0) @ ws \<and> concat us @ tl_up l = concat ws) \<and>
     cw_written (tl_worker l) = cw_written (tl_worker l0) @ concat (map (answers xl pp) us) \<and>
     concat ds @ tl_down l = concat (concat (map (answers xl pp) us)) \<and>
     tk_gotPackets (tl_client l) = tk_gotPackets (tl_client l0) @ concat (map (packets xl) ds) \<and>
     cw_connected (tl_worker l) \<and> same_processors pp (cw_processor (tl_worker l))"

lemma tcp_link_step_cut:
  assumes "tcp_link_step xl l m" and "cut_into xl pp l0 l us ds"
  shows "\<exists>us ds. cut_into xl pp l0 m us ds"
  using assms(1)
proof cases
  case (calls env x a d)
  obtain ys where ys: "tk_written d = tk_written (tl_client l) @ ys" "tk_gotPackets d = tk_gotPackets (tl_client l)"
    using tcp_call_written[OF calls(2)] by blast
  obtain ws where ws: "tk_written (tl_client l) = tk_written (tl_client l0) @ ws" "concat us @ tl_up l = concat ws"
    using assms(2) by (auto simp: cut_into_def)
  have "\<exists>ws'. tk_written d = tk_written (tl_client l0) @ ws' \<and> concat us @ tl_up m = concat ws'"
    using ws ys calls(1) by (intro exI[of _ "ws @ ys"]) (simp add: link_call_def flip: append_assoc)
  then have "cut_into xl pp l0 m us ds"
    using assms(2) ys(2) calls(1) by (simp add: cut_into_def link_call_def)
  then show ?thesis by blast
next
  case (worker n)
  let ?b = "take n (tl_up l)"
  have w: "cw_connected (tl_worker l)" "same_processors pp (cw_processor (tl_worker l))"
    using assms(2) by (simp_all add: cut_into_def)
  note e = onMessage_effect[OF w, of xl ?b]
  have "concat (us @ [?b]) @ drop n (tl_up l) = concat us @ tl_up l" by simp
  then have "cut_into xl pp l0 m (us @ [?b]) ds"
    using assms(2) e worker(1) unfolding cut_into_def by (auto simp: worker_reads_def Let_def simp flip: append_assoc)
  then show ?thesis by blast
next
  case (client n)
  let ?b = "take n (tl_down l)"
  have "concat (ds @ [?b]) @ drop n (tl_down l) = concat ds @ tl_down l" by simp
  then have "cut_into xl pp l0 m us (ds @ [?b])"
    using assms(2) client(1) unfolding cut_into_def by (simp add: client_reads_def onMessage_client)
  then show ?thesis by blast
qed

lemma tcp_link_runs_cut:
  assumes "(tcp_link_step xl)\<^sup>*\<^sup>* l m" and "cut_into xl pp l l [] []"
  shows "\<exists>us ds. cut_into xl pp l m us ds"
  using assms(1)
proof (induction rule: rtranclp_induct)
  case base
  then show ?case using assms(2) by blast
next
  case (step m k)
  then show ?case using tcp_link_step_cut by blast
qed

lemma new_link_cut:
  "cw_connected w \<Longrightarrow> cut_into xl (cw_processor w) (new_link c w) (new_link c w) [] []"
  by (simp add: cut_into_def new_link_def same_processors_def)

subsection \<open>Properties\<close>



definition sample_request :: Packet where
  "sample_request = \<lparr>xp_type = 1, xp_command = ''c'', xp_data = [], xp_isValid = True\<rparr>"

definition sample_answer :: Packet where
  "sample_answer = \<lparr>xp_type = 1, xp_command = ''ok'', xp_data = [], xp_isValid = True\<rparr>"

definition sample_worker :: connection_worker where
  "sample_worker = \<lparr>cw_connected = True, cw_workerId = 0,
    cw_processor = \<lparr>pp_info = Some (\<lambda>_ _. sample_answer), pp_action = None, pp_error = False, pp_errors = []\<rparr>,
    cw_written = [], cw_finished = 0\<rparr>"



end
