(* ===== verification/Legacy_World_Calls.thy ===== *)
theory Legacy_World_Calls
  imports Legacy_Servers Legacy_Tcp_System
begin

text \<open>
  The TCP servers of one process as their users see them (\<^verbatim>\<open>Legacy/tcpserverinstance.h\<close>): their public
  operations as a type of calls, interleaved with the connections they get and with what happens to the workers.
  Whose processors answer a packet is read off the history alone.
\<close>

subsection \<open>Histories\<close>

text \<open>
  \<open>Construct\<close> has the callbacks of the server and the number of threads the machine offers; the other
  calls name the server. \<open>Incoming\<close>: a server gets a connection, with the random numbers of the search for an
  id. The last three happen to a worker.
\<close>

datatype world_act =
    Construct "nat option" "nat option" int
  | Destruct nat
  | Start nat string u32
  | Set_info nat "(Packet \<Rightarrow> Packet \<Rightarrow> Packet) option"
  | Set_action nat "(Packet \<Rightarrow> Packet \<Rightarrow> Packet) option"
  | Set_error nat bool
  | Incoming "(int \<times> int) list" int nat
  | Connects u64
  | Message string u64
  | Closes u64

definition silent :: "world beh \<Rightarrow> (bool option \<times> world) beh" where
  "silent r = bind_beh r (\<lambda>w. Returns (None, w))"

text \<open>\<open>lst\<close>: whether the socket can listen. A call on a server that is gone is undefined.\<close>

fun do_world_act ::
  "xlib \<Rightarrow> (string \<Rightarrow> u32 \<Rightarrow> bool) \<Rightarrow> world_act \<Rightarrow> world \<Rightarrow> (bool option \<times> world) beh option" where
  "do_world_act xl lst (Construct a b ideal) w = Some (Returns (None, new_tcp_server a b ideal w))"
| "do_world_act xl lst (Destruct i) w = Some (Returns (None, destroy_tcp_server i w))"
| "do_world_act xl lst (Start i h p) w =
     Some (if wd_servers w i = None then UB else Returns (Some (lst h p), w))"
| "do_world_act xl lst (Set_info i f) w = Some (silent (server_setInfoProcessor f i w))"
| "do_world_act xl lst (Set_action i f) w = Some (silent (server_setActionProcessor f i w))"
| "do_world_act xl lst (Set_error i b) w = Some (silent (server_setErrorProcessor b i w))"
| "do_world_act xl lst (Incoming rands h i) w = map_option silent (accept_connection rands h i w)"
| "do_world_act xl lst (Connects k) w = Some (Returns (None, worker_connects k w))"
| "do_world_act xl lst (Message bytes k) w = Some (Returns (None, worker_message xl bytes k w))"
| "do_world_act xl lst (Closes k) w =
     (case wd_workers w k of
        None \<Rightarrow> Some (Returns (None, w))
      | Some cw \<Rightarrow> Some (if cw_connected cw then silent (worker_finishes k w) else Returns (None, w)))"

text \<open>A history that is defined throughout leads to a world.\<close>

fun world_history ::
  "xlib \<Rightarrow> (string \<Rightarrow> u32 \<Rightarrow> bool) \<Rightarrow> world_act list \<Rightarrow> world \<Rightarrow> (bool option list \<times> world) option" where
  "world_history xl lst [] w = Some ([], w)"
| "world_history xl lst (x # xs) w =
     (case do_world_act xl lst x w of
        Some (Returns (a, v)) \<Rightarrow> map_option (\<lambda>(as, u). (a # as, u)) (world_history xl lst xs v)
      | _ \<Rightarrow> None)"

subsection \<open>The processors set last\<close>

fun set_last :: "world_act \<Rightarrow> packet_processor \<Rightarrow> packet_processor" where
  "set_last (Set_info i f) p = p\<lparr>pp_info := f\<rparr>"
| "set_last (Set_action i f) p = p\<lparr>pp_action := f\<rparr>"
| "set_last (Set_error i b) p = p\<lparr>pp_error := b\<rparr>"
| "set_last _ p = p"

definition processors_set :: "world_act list \<Rightarrow> packet_processor" where
  "processors_set xs = fold set_last xs no_processors"

text \<open>Those the workers use: the copies in the manager.\<close>

definition current :: "world \<Rightarrow> packet_processor" where
  "current w = (case wd_instance w of None \<Rightarrow> no_processors | Some mo \<Rightarrow> mo_processor mo)"

lemma silent_Returns [simp]: "silent r = Returns (a, v) \<longleftrightarrow> r = Returns v \<and> a = None"
  by (cases r) (auto simp: silent_def)

lemma current_keeps [simp]:
  "current (new_tcp_server a b ideal w) = current w" "current (destroy_tcp_server i w) = current w"
  "current (worker_connects k w) = current w"
  by (auto simp: current_def new_tcp_server_def getInstance_def destroy_tcp_server_def worker_connects_def Let_def
      split: option.split)

lemma current_set:
  "server_setInfoProcessor f i w = Returns v \<Longrightarrow> current v = (current w)\<lparr>pp_info := f\<rparr>"
  "server_setActionProcessor g i w = Returns v \<Longrightarrow> current v = (current w)\<lparr>pp_action := g\<rparr>"
  "server_setErrorProcessor b i w = Returns v \<Longrightarrow> current v = (current w)\<lparr>pp_error := b\<rparr>"
  by (auto simp: current_def server_setInfoProcessor_def server_setActionProcessor_def server_setErrorProcessor_def
      set_processor_def manager_setInfoProcessor_def manager_setActionProcessor_def manager_setErrorProcessor_def
      split: option.splits)

lemma current_accept:
  assumes "accept_connection rands h i w = Some (Returns v)"
  shows "current v = current w"
proof -
  obtain t mo where tm: "wd_servers w i = Some t" "wd_instance w = Some mo"
    using assms by (auto simp: accept_connection_def split: option.splits)
  show ?thesis
  proof (cases "workers_size (mo_manager mo) \<ge> tm_maximumThreadCount (mo_manager mo)")
    case True
    then show ?thesis using assms tm by (auto simp: accept_connection_def createConnection_def current_def Let_def)
  next
    case False
    then show ?thesis using assms tm
      by (auto simp: accept_connection_def current_def Let_def split: option.splits beh.splits)
  qed
qed

lemma current_finishes: "worker_finishes k w = Returns v \<Longrightarrow> current v = current w"
  by (auto simp: worker_finishes_def current_def split: option.splits beh.splits)

lemma onMessage_processors: "same_processors p (cw_processor (onMessage xl bytes cw)) \<longleftrightarrow> same_processors p (cw_processor cw)"
  by (auto simp: onMessage_def process_def same_processors_def Let_def)

lemma current_message: "same_processors p (current w) \<Longrightarrow> same_processors p (current (worker_message xl bytes k w))"
  by (auto simp: worker_message_def current_def onMessage_processors Let_def split: option.splits)

lemma do_world_act_step:
  assumes "do_world_act xl lst x w = Some (Returns (a, v))"
  shows "v = w \<or> world_step w v"
  using assms by (cases x) (auto split: option.splits if_splits intro: world_step.intros)

lemma do_world_act_processors:
  assumes "do_world_act xl lst x w = Some (Returns (a, v))" and "same_processors p (current w)"
  shows "same_processors (set_last x p) (current v)"
proof (cases x)
  case (Message bytes k)
  then show ?thesis using assms current_message by auto
qed (use assms in \<open>auto simp: same_processors_def dest!: current_set current_accept current_finishes
    split: option.splits if_splits\<close>)

lemma world_history_processors:
  assumes "world_history xl lst xs w = Some (as, v)" and "same_processors p (current w)" and "world_inv w"
  shows "same_processors (fold set_last xs p) (current v) \<and> world_inv v"
  using assms
proof (induction xs arbitrary: w as p)
  case (Cons x xs)
  obtain a u bs where u: "do_world_act xl lst x w = Some (Returns (a, u))" "world_history xl lst xs u = Some (bs, v)"
    using Cons.prems(1) by (auto split: option.splits beh.splits)
  have "world_inv u" using do_world_act_step[OF u(1)] world_step_inv Cons.prems(3) by blast
  then show ?case
    using Cons.IH[OF u(2) do_world_act_processors[OF u(1) Cons.prems(2)]] by simp
qed simp

subsection \<open>Properties\<close>

text \<open>
  C17. Whose processors answer. However many servers are constructed, destroyed, started and
  configured, and whatever their connections do, a message that reaches a connected worker, of whichever server, is
  answered by the processors that were set last on any server, and by no other; the other workers are
  not touched.
\<close>

theorem last_set_processors_answer:
  assumes "world_history xl lst xs empty_world = Some (as, w)" and "wd_workers w k = Some cw" and "cw_connected cw"
  shows "\<exists>cw1. wd_workers (worker_message xl bytes k w) = (wd_workers w)(k \<mapsto> cw1) \<and>
    cw_written cw1 = cw_written cw @ answers xl (processors_set xs) bytes"
proof -
  have "current empty_world = no_processors" by (simp add: current_def empty_world_def)
  then have s: "same_processors (processors_set xs) (current w)" "world_inv w"
    using world_history_processors[OF assms(1), of no_processors] empty_world_inv
    by (simp_all add: processors_set_def same_processors_def)
  obtain mo where mo: "wd_instance w = Some mo" using s(2) assms(2) by (auto simp: world_inv_def split: option.splits)
  let ?cw = "cw\<lparr>cw_processor := mo_processor mo\<rparr>"
  have "same_processors (processors_set xs) (cw_processor ?cw)" using s(1) mo by (simp add: current_def)
  then have "cw_written (onMessage xl bytes ?cw) = cw_written cw @ answers xl (processors_set xs) bytes"
    using onMessage_effect[of ?cw "processors_set xs" xl bytes] assms(3) by simp
  then show ?thesis using assms(2) mo
    by (intro exI[of _ "onMessage xl bytes ?cw"]) (simp add: worker_message_def Let_def)
qed

definition sample_history :: "world_act list" where
  "sample_history = [Construct (Some 10) None 4, Construct (Some 20) None 4, Incoming [(3, 5)] 7 0, Connects 15,
     Set_info 0 None, Set_info 1 (Some (\<lambda>_ _. sample_answer)), Destruct 1]"

lemma last_set_processors_answer_witness:
  "\<exists>as w cw. world_history sample_xlib (\<lambda>_ _. True) sample_history empty_world = Some (as, w) \<and>
     wd_workers (worker_message sample_xlib (convert_to sample_xlib sample_request) 15 w) 15 = Some cw \<and>
     cw_written cw = [convert_to sample_xlib sample_answer]"
proof -
  let ?cw = "new_connection_worker\<lparr>cw_connected := True, cw_workerId := 15\<rparr>"
  obtain as w where h: "world_history sample_xlib (\<lambda>_ _. True) sample_history empty_world = Some (as, w)"
      "wd_workers w 15 = Some ?cw"
    by (simp add: sample_history_def new_tcp_server_def getInstance_def empty_world_def accept_connection_def
        createConnection_def availableThreads_def new_thread_manager_def setThreadCount_def workers_size_def
        silent_def worker_connects_def setConnection_def new_connection_worker_def server_setInfoProcessor_def
        set_processor_def manager_setInfoProcessor_def destroy_tcp_server_def Let_def)
  have "answers sample_xlib (processors_set sample_history) (convert_to sample_xlib sample_request) =
      [convert_to sample_xlib sample_answer]"
    using convert_roundtrip[OF sample_xlib_ok, of sample_request]
    by (simp add: answers_def processors_set_def sample_history_def no_processors_def process_def sample_request_def
        sample_answer_def)
  with last_set_processors_answer[OF h, of "convert_to sample_xlib sample_request"] h show ?thesis
    by (auto simp: new_connection_worker_def)
qed

end
