(* ===== verification/Legacy_Pool.thy ===== *)
theory Legacy_Pool
  imports Legacy_Servers Forward_Simulation
begin

text \<open>
  The thread manager as its users see it (\<^verbatim>\<open>Legacy/threadmanager.h\<close>): its public
  operations as a type of calls, and a pool of connections as the abstraction
  that the two maps of worker ids implement. The manager is an instance of the locale
  \<open>simulation\<close> over the pool.
\<close>

subsection \<open>Calls\<close>

text \<open>
  \<open>On_finished i\<close> is the slot, called by the worker with id \<open>i\<close>.
\<close>

datatype manager_call =
    Set_info_processor "(Packet \<Rightarrow> Packet \<Rightarrow> Packet) option"
  | Set_action_processor "(Packet \<Rightarrow> Packet \<Rightarrow> Packet) option"
  | Set_error_processor bool
  | Create_connection int
  | Available_threads
  | Set_thread_count int
  | On_finished u64

datatype manager_answer = Nothing | Count int | Done bool

definition of_manager :: "manager_obj \<Rightarrow> thread_manager beh \<Rightarrow> (manager_answer \<times> manager_obj) beh" where
  "of_manager mo r = bind_beh r (\<lambda>n. Returns (Nothing, mo\<lparr>mo_manager := n\<rparr>))"

text \<open>\<open>rands\<close>: what the random numbers of the call are. \<open>None\<close> when they do not suffice for an id.\<close>

fun do_manager_call ::
  "(int \<times> int) list \<Rightarrow> manager_call \<Rightarrow> manager_obj \<Rightarrow> (manager_answer \<times> manager_obj) beh option" where
  "do_manager_call rands (Set_info_processor f) mo = Some (Returns (Nothing, manager_setInfoProcessor f mo))"
| "do_manager_call rands (Set_action_processor f) mo = Some (Returns (Nothing, manager_setActionProcessor f mo))"
| "do_manager_call rands (Set_error_processor b) mo = Some (Returns (Nothing, manager_setErrorProcessor b mo))"
| "do_manager_call rands (Create_connection h) mo = map_option (of_manager mo) (createConnection rands h (mo_manager mo))"
| "do_manager_call rands Available_threads mo = Some (Returns (Count (availableThreads (mo_manager mo)), mo))"
| "do_manager_call rands (Set_thread_count c) mo =
     (case setThreadCount c (mo_manager mo) of (b, n) \<Rightarrow> Some (Returns (Done b, mo\<lparr>mo_manager := n\<rparr>)))"
| "do_manager_call rands (On_finished i) mo = Some (of_manager mo (onFinished i (mo_manager mo)))"

text \<open>A manager whose machine has \<open>ideal\<close> threads; its slot is called by its own workers only.\<close>

definition new_manager_obj :: "nat \<Rightarrow> int \<Rightarrow> manager_obj" where
  "new_manager_obj owner ideal =
     \<lparr>mo_manager = new_thread_manager ideal, mo_owner = owner, mo_processor = no_processors\<rparr>"

inductive manager_call_step :: "manager_obj \<Rightarrow> manager_obj \<Rightarrow> bool" where
  call: "do_manager_call rands x mo = Some (Returns (a, mo')) \<Longrightarrow>
    (\<forall>i. x = On_finished i \<longrightarrow> i \<in> dom (tm_workers (mo_manager mo))) \<Longrightarrow> manager_call_step mo mo'"

subsection \<open>The pool\<close>

text \<open>A pool of connections by their descriptors: those being served, and those that were refused.\<close>

record pool =
  pl_capacity :: int
  pl_busy :: "int multiset"
  pl_refused :: "int list"

inductive pool_step :: "pool \<Rightarrow> pool \<Rightarrow> bool" where
  takes: "int (size (pl_busy p)) < pl_capacity p \<Longrightarrow> pool_step p (p\<lparr>pl_busy := pl_busy p + {#h#}\<rparr>)"
| refuses: "pl_capacity p \<le> int (size (pl_busy p)) \<Longrightarrow> pool_step p (p\<lparr>pl_refused := pl_refused p @ [h]\<rparr>)"
| frees: "h \<in># pl_busy p \<Longrightarrow> pool_step p (p\<lparr>pl_busy := pl_busy p - {#h#}\<rparr>)"
| resizes: "pl_busy p = {#} \<Longrightarrow> 0 \<le> c \<Longrightarrow> pool_step p (p\<lparr>pl_capacity := c\<rparr>)"

definition pool_ok :: "pool \<Rightarrow> bool" where
  "pool_ok p \<longleftrightarrow> int (size (pl_busy p)) \<le> pl_capacity p"

lemma pool_step_ok: "pool_ok p \<Longrightarrow> pool_step p q \<Longrightarrow> pool_ok q"
  by (erule pool_step.cases) (auto simp: pool_ok_def size_Diff_singleton)

subsection \<open>The manager refines the pool\<close>

text \<open>The descriptors in a map of threads by id.\<close>

definition descriptors :: "(u64 \<rightharpoonup> int) \<Rightarrow> int multiset" where
  "descriptors ts = image_mset (\<lambda>i. the (ts i)) (mset_set (dom ts))"

lemma descriptors_enter:
  assumes "finite (dom ts)" and "ts i = None"
  shows "descriptors (ts(i \<mapsto> h)) = descriptors ts + {#h#}"
proof -
  have "image_mset (\<lambda>j. the ((ts(i \<mapsto> h)) j)) (mset_set (dom ts)) = image_mset (\<lambda>j. the (ts j)) (mset_set (dom ts))"
    using assms by (intro image_mset_cong) auto
  then show ?thesis using assms by (simp add: descriptors_def domIff)
qed

lemma descriptors_leave:
  assumes "finite (dom ts)" and "i \<in> dom ts"
  shows "the (ts i) \<in># descriptors ts" "descriptors (ts(i := None)) = descriptors ts - {#the (ts i)#}"
proof -
  show "the (ts i) \<in># descriptors ts" using assms by (auto simp: descriptors_def)
  have "image_mset (\<lambda>j. the ((ts(i := None)) j)) (mset_set (dom ts - {i})) =
      image_mset (\<lambda>j. the (ts j)) (mset_set (dom ts - {i}))"
    using assms(1) by (intro image_mset_cong) auto
  moreover have "mset_set (dom ts) = add_mset i (mset_set (dom ts - {i}))"
    using assms by (simp add: mset_set.remove)
  ultimately show "descriptors (ts(i := None)) = descriptors ts - {#the (ts i)#}"
    by (simp add: descriptors_def)
qed

lemma size_descriptors: "size (descriptors ts) = card (dom ts)"
  by (cases "finite (dom ts)") (simp_all add: descriptors_def)

definition pool_of :: "manager_obj \<Rightarrow> pool" where
  "pool_of mo = \<lparr>pl_capacity = tm_maximumThreadCount (mo_manager mo),
     pl_busy = descriptors (tm_threads (mo_manager mo)), pl_refused = tm_rejected (mo_manager mo)\<rparr>"

definition manager_obj_inv :: "manager_obj \<Rightarrow> bool" where
  "manager_obj_inv mo \<longleftrightarrow> manager_inv (mo_manager mo)"

lemma busy_size:
  "manager_obj_inv mo \<Longrightarrow> int (size (pl_busy (pool_of mo))) = workers_size (mo_manager mo)"
  by (simp add: pool_of_def size_descriptors manager_obj_inv_def manager_inv_def workers_size_def)

lemma create_refines:
  assumes "manager_obj_inv mo" and "createConnection rands h (mo_manager mo) = Some (Returns n)"
  shows "pool_step (pool_of mo) (pool_of (mo\<lparr>mo_manager := n\<rparr>))"
proof (cases "workers_size (mo_manager mo) \<ge> tm_maximumThreadCount (mo_manager mo)")
  case True
  then have "pool_of (mo\<lparr>mo_manager := n\<rparr>) = (pool_of mo)\<lparr>pl_refused := pl_refused (pool_of mo) @ [h]\<rparr>"
    using assms(2) by (auto simp: createConnection_def pool_of_def)
  moreover have "pl_capacity (pool_of mo) \<le> int (size (pl_busy (pool_of mo)))"
    using True busy_size[OF assms(1)] by (simp add: pool_of_def)
  ultimately show ?thesis using pool_step.refuses by simp
next
  case False
  then obtain i where i: "fresh_id (tm_workers (mo_manager mo)) rands = Some (Returns i)"
      "tm_threads n = (tm_threads (mo_manager mo))(i \<mapsto> h)" "tm_rejected n = tm_rejected (mo_manager mo)"
      "tm_maximumThreadCount n = tm_maximumThreadCount (mo_manager mo)"
    using assms(2) by (auto simp: createConnection_def split: option.splits beh.splits)
  have ts: "finite (dom (tm_threads (mo_manager mo)))" "tm_threads (mo_manager mo) i = None"
    using assms(1) fresh_id_new[OF i(1)] by (auto simp: manager_obj_inv_def manager_inv_def domIff)
  have "pool_of (mo\<lparr>mo_manager := n\<rparr>) = (pool_of mo)\<lparr>pl_busy := pl_busy (pool_of mo) + {#h#}\<rparr>"
    using i descriptors_enter[OF ts] by (simp add: pool_of_def)
  moreover have "int (size (pl_busy (pool_of mo))) < pl_capacity (pool_of mo)"
    using False busy_size[OF assms(1)] by (simp add: pool_of_def)
  ultimately show ?thesis using pool_step.takes by simp
qed

lemma finish_refines:
  assumes "manager_obj_inv mo" and "i \<in> dom (tm_workers (mo_manager mo))" and "onFinished i (mo_manager mo) = Returns n"
  shows "pool_step (pool_of mo) (pool_of (mo\<lparr>mo_manager := n\<rparr>))"
proof -
  have ts: "finite (dom (tm_threads (mo_manager mo)))" "i \<in> dom (tm_threads (mo_manager mo))"
    using assms(1,2) by (auto simp: manager_obj_inv_def manager_inv_def)
  have "n = (mo_manager mo)\<lparr>tm_threads := (tm_threads (mo_manager mo))(i := None),
      tm_workers := (tm_workers (mo_manager mo))(i := None)\<rparr>"
    using assms(3) by (auto simp: onFinished_def split: if_splits)
  then have "pool_of (mo\<lparr>mo_manager := n\<rparr>) =
      (pool_of mo)\<lparr>pl_busy := pl_busy (pool_of mo) - {#the (tm_threads (mo_manager mo) i)#}\<rparr>"
    using descriptors_leave(2)[OF ts] by (simp add: pool_of_def)
  moreover have "the (tm_threads (mo_manager mo) i) \<in># pl_busy (pool_of mo)"
    using descriptors_leave(1)[OF ts] by (simp add: pool_of_def)
  ultimately show ?thesis using pool_step.frees by simp
qed

lemma count_refines:
  assumes "manager_obj_inv mo"
  shows "setThreadCount c (mo_manager mo) = (pl_busy (pool_of mo) = {#} \<and> 0 \<le> c,
      if pl_busy (pool_of mo) = {#} \<and> 0 \<le> c then (mo_manager mo)\<lparr>tm_maximumThreadCount := c\<rparr> else mo_manager mo)"
proof -
  have "pl_busy (pool_of mo) = {#} \<longleftrightarrow> \<not> workers_size (mo_manager mo) > 0"
    using busy_size[OF assms] by (cases "pl_busy (pool_of mo)") (simp_all add: workers_size_def)
  then show ?thesis by (auto simp: setThreadCount_def)
qed

lemma manager_call_refines:
  assumes "manager_obj_inv mo" and "manager_call_step mo mo'"
  shows "\<exists>q. pool_step\<^sup>*\<^sup>* (pool_of mo) q \<and> pool_of mo' = q"
  using assms(2)
proof cases
  case (call rands x a)
  show ?thesis
  proof (cases x)
    case (Create_connection h)
    then obtain n where "createConnection rands h (mo_manager mo) = Some (Returns n)" "mo' = mo\<lparr>mo_manager := n\<rparr>"
      using call(1) by (auto simp: of_manager_def)
    then show ?thesis using create_refines[OF assms(1)] by blast
  next
    case (On_finished i)
    then obtain n where "onFinished i (mo_manager mo) = Returns n" "mo' = mo\<lparr>mo_manager := n\<rparr>"
      using call(1) by (auto simp: of_manager_def)
    then show ?thesis using finish_refines[OF assms(1)] call(2) On_finished by blast
  next
    case (Set_thread_count c)
    show ?thesis
    proof (cases "pl_busy (pool_of mo) = {#} \<and> 0 \<le> c")
      case True
      then have "pool_of mo' = (pool_of mo)\<lparr>pl_capacity := c\<rparr>"
        using call(1) Set_thread_count count_refines[OF assms(1), of c] by (auto simp: pool_of_def)
      then show ?thesis using pool_step.resizes[of "pool_of mo" c] True by auto
    next
      case False
      then have "pool_of mo' = pool_of mo"
        using call(1) Set_thread_count count_refines[OF assms(1), of c] by (auto simp: pool_of_def)
      then show ?thesis by simp
    qed
  qed (use call(1) in \<open>auto simp: pool_of_def\<close>)
qed

lemma manager_call_inv:
  assumes "manager_obj_inv mo" and "manager_call_step mo mo'"
  shows "manager_obj_inv mo'"
  using assms(2)
proof cases
  case (call rands x a)
  have inv: "manager_inv (mo_manager mo)" using assms(1) by (simp add: manager_obj_inv_def)
  show ?thesis
  proof (cases x)
    case (Create_connection h)
    then obtain n where "createConnection rands h (mo_manager mo) = Some (Returns n)" "mo' = mo\<lparr>mo_manager := n\<rparr>"
      using call(1) by (auto simp: of_manager_def)
    then show ?thesis using createConnection_inv[OF inv] by (simp add: manager_obj_inv_def)
  next
    case (On_finished i)
    then obtain n where "onFinished i (mo_manager mo) = Returns n" "mo' = mo\<lparr>mo_manager := n\<rparr>"
      using call(1) by (auto simp: of_manager_def)
    then show ?thesis using onFinished_inv[OF inv] call(2) On_finished by (simp add: manager_obj_inv_def)
  next
    case (Set_thread_count c)
    obtain b n where n: "setThreadCount c (mo_manager mo) = (b, n)" by fastforce
    then have "mo' = mo\<lparr>mo_manager := n\<rparr>" using call(1) Set_thread_count by simp
    then show ?thesis using manager_step_inv[OF manager_step.count[OF n] inv] by (simp add: manager_obj_inv_def)
  qed (use call(1) inv in \<open>auto simp: manager_obj_inv_def\<close>)
qed

interpretation pool: simulation manager_call_step pool_step manager_obj_inv pool_ok "\<lambda>mo p. pool_of mo = p"
  by unfold_locales (use manager_call_inv pool_step_ok manager_call_refines in blast)+

subsection \<open>Properties\<close>

text \<open>
  C15. The thread manager is a pool. However its operations are called and its workers finish, it goes
  through the states of a pool of connections that never holds more than its capacity; the number of threads it calls
  available is the room left in the pool, and the number of threads can be set exactly while the
  pool is empty.
\<close>

theorem manager_refines_pool:
  assumes "manager_call_step\<^sup>*\<^sup>* (new_manager_obj owner ideal) mo"
  shows "pool_step\<^sup>*\<^sup>* (pool_of (new_manager_obj owner ideal)) (pool_of mo) \<and>
    int (size (pl_busy (pool_of mo))) \<le> pl_capacity (pool_of mo) \<and>
    do_manager_call rands Available_threads mo =
      Some (Returns (Count (pl_capacity (pool_of mo) - int (size (pl_busy (pool_of mo)))), mo)) \<and>
    (\<exists>mo'. do_manager_call rands (Set_thread_count c) mo =
      Some (Returns (Done (pl_busy (pool_of mo) = {#} \<and> 0 \<le> c), mo')))"
proof -
  let ?mo0 = "new_manager_obj owner ideal"
  have i: "manager_obj_inv ?mo0" by (simp add: manager_obj_inv_def new_manager_obj_def new_manager_inv)
  have "pl_busy (pool_of ?mo0) = {#}" "0 \<le> pl_capacity (pool_of ?mo0)"
    by (simp_all add: pool_of_def new_manager_obj_def new_thread_manager_def setThreadCount_def workers_size_def
        descriptors_def)
  then have p: "pool_ok (pool_of ?mo0)" by (simp add: pool_ok_def)
  have inv: "manager_obj_inv mo" by (rule pool.cinv_runs[OF assms i])
  have run: "pool_step\<^sup>*\<^sup>* (pool_of ?mo0) (pool_of mo)" using pool.simulates_runs[OF assms i p HOL.refl] by blast
  have "pool_ok (pool_of mo)" by (rule pool.ainv_runs[OF run p])
  moreover have "availableThreads (mo_manager mo) = pl_capacity (pool_of mo) - int (size (pl_busy (pool_of mo)))"
    using busy_size[OF inv] by (simp add: availableThreads_def pool_of_def)
  ultimately show ?thesis using run count_refines[OF inv, of c] by (simp add: pool_ok_def)
qed

lemma manager_refines_pool_witness:
  "\<exists>mo. manager_call_step (new_manager_obj 0 4) mo \<and>
     do_manager_call [] Available_threads mo = Some (Returns (Count 3, mo)) \<and> pl_busy (pool_of mo) = {#7#}"
proof -
  let ?m = "\<lparr>tm_workers = [15 \<mapsto> Some 7], tm_threads = [15 \<mapsto> 7], tm_maximumThreadCount = 4, tm_rejected = []\<rparr>"
  let ?mo = "\<lparr>mo_manager = ?m, mo_owner = 0, mo_processor = no_processors\<rparr>"
  have "do_manager_call [(3, 5)] (Create_connection 7) (new_manager_obj 0 4) = Some (Returns (Nothing, ?mo))"
    by (simp add: new_manager_obj_def new_thread_manager_def setThreadCount_def workers_size_def createConnection_def
        of_manager_def)
  then have step: "manager_call_step (new_manager_obj 0 4) ?mo" by (rule manager_call_step.call) simp
  have "pl_busy (pool_of ?mo) = {#7#}" "pl_capacity (pool_of ?mo) = 4" by (simp_all add: pool_of_def descriptors_def)
  with manager_refines_pool[OF r_into_rtranclp[where r = manager_call_step, OF step], of "[]"] step
  show ?thesis by (intro exI[of _ ?mo]) simp
qed

end
