(* ===== verification/Legacy_Database.thy ===== *)
theory Legacy_Database
  imports Net_Prelude
begin

text \<open>
  The database handler (\<^verbatim>\<open>Legacy/databasehandler.cpp\<close>), compiled only with \<^verbatim>\<open>SQLITE\<close>. As it
  is it does not compile: \<^verbatim>\<open>requestText\<close>, \<^verbatim>\<open>requestInt\<close> and the destructor name a
  \<^verbatim>\<open>m_database\<close>, the two requests also an \<^verbatim>\<open>id_get_command\<close>, that are declared nowhere.
  Here they are arguments. SQLite answers through \<open>sqlite_env\<close>.
\<close>

text \<open>
  \<open>sq_open\<close>: the result code (0 is \<^verbatim>\<open>SQLITE_OK\<close>) and the handle. \<open>sq_exec\<close>: \<open>None\<close> is
  success, \<open>Some m\<close> an error with its message, if it has one. \<open>sq_prepare\<close>: the rows of the
  statement, each the text (\<open>None\<close> for a null column) and the number of its first column;
  \<open>None\<close> when it cannot be prepared.
\<close>

record sqlite_env =
  sq_opendir :: "string \<Rightarrow> bool"
  sq_open :: "string \<Rightarrow> int \<times> nat option"
  sq_exec :: "nat option \<Rightarrow> string \<Rightarrow> string option option"
  sq_prepare :: "nat option \<Rightarrow> string \<Rightarrow> (string option \<times> int) list option"

text \<open>\<open>db_statements\<close>: the prepared statements that were not finalised; \<open>db_opened\<close>: the handles opened.\<close>

record database =
  db_inited :: bool
  db_database_fd :: int
  db_database :: "nat option"
  db_path :: string
  db_errorText :: string
  db_statements :: nat
  db_opened :: nat

definition new_database :: "sqlite_env \<Rightarrow> string \<Rightarrow> database" where
  "new_database env dir = \<lparr>db_inited = sq_opendir env dir, db_database_fd = 0, db_database = None,
     db_path = [], db_errorText = [], db_statements = 0, db_opened = 0\<rparr>"

definition setPath :: "sqlite_env \<Rightarrow> string \<Rightarrow> database \<Rightarrow> bool \<times> database" where
  "setPath env path d =
     (let (rc, h) = sq_open env path;
          d1 = d\<lparr>db_path := path, db_database_fd := rc, db_database := h, db_opened := Suc (db_opened d)\<rparr>
      in if rc \<noteq> 0 then (False, d1\<lparr>db_errorText := ''Error opening database''\<rparr>) else (True, d1))"

text \<open>Success runs off the end of a function that returns a value; an error without a message adds a null pointer to a string.\<close>

definition requestVoid :: "sqlite_env \<Rightarrow> string \<Rightarrow> database \<Rightarrow> (bool \<times> database) beh" where
  "requestVoid env query d =
     (case sq_exec env (db_database d) (c_str query) of
        None \<Rightarrow> UB
      | Some None \<Rightarrow> UB
      | Some (Some m) \<Rightarrow> Returns (False, d\<lparr>db_errorText := ''Error: '' @ m\<rparr>))"

text \<open>
  \<open>operation_error\<close> is never set here, so the error branch is undefined. The query is not
  used, and the statement is not finalised.
\<close>

definition requestText :: "sqlite_env \<Rightarrow> nat option \<Rightarrow> string \<Rightarrow> string \<Rightarrow> string list \<Rightarrow> database \<Rightarrow>
    (bool \<times> string list \<times> database) beh" where
  "requestText env m_database id_get_command query resultVect d =
     (case sq_prepare env m_database (c_str id_get_command) of
        None \<Rightarrow> UB
      | Some rows \<Rightarrow> Returns (True, concat (map (\<lambda>(t, n). case t of None \<Rightarrow> [] | Some x \<Rightarrow> [x]) rows),
          d\<lparr>db_statements := Suc (db_statements d)\<rparr>))"

definition requestInt :: "sqlite_env \<Rightarrow> nat option \<Rightarrow> string \<Rightarrow> string \<Rightarrow> int list \<Rightarrow> database \<Rightarrow>
    (bool \<times> int list \<times> database) beh" where
  "requestInt env m_database id_get_command query resultVect d =
     (case sq_prepare env m_database (c_str id_get_command) of
        None \<Rightarrow> UB
      | Some rows \<Rightarrow> Returns (True, map snd rows, d\<lparr>db_statements := Suc (db_statements d)\<rparr>))"

text \<open>\<^verbatim>\<open>sqlite3_close\<close> refuses (leaves the handle open) while statements are left.\<close>

definition destroy_database :: "database \<Rightarrow> bool" where
  "destroy_database d = (db_statements d = 0)"

subsection \<open>Runs\<close>

datatype db_call = Set_path string | Void_request string | Text_request string | Int_request string

fun db_do :: "sqlite_env \<Rightarrow> nat option \<Rightarrow> string \<Rightarrow> db_call \<Rightarrow> database \<Rightarrow> (bool \<times> database) beh" where
  "db_do env h cmd (Set_path p) d = Returns (setPath env p d)"
| "db_do env h cmd (Void_request q) d = requestVoid env q d"
| "db_do env h cmd (Text_request q) d = bind_beh (requestText env h cmd q [] d) (\<lambda>(b, v, e). Returns (b, e))"
| "db_do env h cmd (Int_request q) d = bind_beh (requestInt env h cmd q [] d) (\<lambda>(b, v, e). Returns (b, e))"

text \<open>The answers of a sequence of calls: whether each returned true.\<close>

fun db_run :: "sqlite_env \<Rightarrow> nat option \<Rightarrow> string \<Rightarrow> db_call list \<Rightarrow> database \<Rightarrow> (bool list \<times> database) beh" where
  "db_run env h cmd [] d = Returns ([], d)"
| "db_run env h cmd (c # cs) d = bind_beh (db_do env h cmd c d)
     (\<lambda>(b, d1). bind_beh (db_run env h cmd cs d1) (\<lambda>(bs, d2). Returns (b # bs, d2)))"

fun is_query :: "db_call \<Rightarrow> bool" where
  "is_query (Text_request q) = True"
| "is_query (Int_request q) = True"
| "is_query c = False"

fun expected_answer :: "sqlite_env \<Rightarrow> db_call \<Rightarrow> bool" where
  "expected_answer env (Set_path p) = (fst (sq_open env p) = 0)"
| "expected_answer env (Void_request q) = False"
| "expected_answer env (Text_request q) = True"
| "expected_answer env (Int_request q) = True"

lemma db_do_returns:
  "db_do env h cmd c d = Returns (b, e) \<Longrightarrow>
   b = expected_answer env c \<and> db_statements e = db_statements d + (if is_query c then 1 else 0)"
  by (cases c) (auto simp: setPath_def requestVoid_def requestText_def requestInt_def Let_def
      split: option.splits prod.splits if_splits)


definition sample_sqlite :: sqlite_env where
  "sample_sqlite = \<lparr>sq_opendir = (\<lambda>_. True), sq_open = (\<lambda>p. (if p = [] then 14 else 0, Some 1)),
     sq_exec = (\<lambda>h q. if q = ''bad'' then Some (Some ''syntax'') else None),
     sq_prepare = (\<lambda>h q. Some [(Some ''x'', 7), (None, 0)])\<rparr>"


text \<open>A query before a database was opened, and every query that fails, is undefined.\<close>

lemma failed_query_undefined:
  "sq_prepare env h (c_str cmd) = None \<Longrightarrow> requestText env h cmd q v d = UB \<and> requestInt env h cmd q w d = UB"
  by (simp add: requestText_def requestInt_def)

end
