(* ===== verification/Http_Client_Calls.thy ===== *)
theory Http_Client_Calls
  imports Http_Client
begin

text \<open>
  The HTTP client as its users see it (\<^verbatim>\<open>src/HTTP/client.hpp\<close>): the public operations as a
  type of calls, and what holds of every sequence of calls, whatever the network answers.
  The operations themselves are those of \<open>Http_Client\<close>.
\<close>

subsection \<open>Calls\<close>

text \<open>The method is the raw value of the enumeration, as in \<open>Http_Client\<close>; \<open>cbk\<close> says whether a callback was given.\<close>

datatype http_call =
    Set_logging bool
  | Set_client_name string
  | Set_max_file_size u32
  | Set_host string u16
  | Request_move int Packet
  | Request_copy int Packet
  | Request_async int Packet bool
  | Interrupt
  | Download string string
  | Upload string string

definition ignore_result :: "'a beh \<times> http_client \<Rightarrow> unit beh \<times> http_client" where
  "ignore_result r = (bind_beh (fst r) (\<lambda>_. Returns ()), snd r)"

fun do_http_call :: "http_env \<Rightarrow> http_call \<Rightarrow> http_client \<Rightarrow> unit beh \<times> http_client" where
  "do_http_call env (Set_logging b) c = (Returns (), setLoggingEnabled b c)"
| "do_http_call env (Set_client_name n) c = (Returns (), setClientName n c)"
| "do_http_call env (Set_max_file_size n) c = (Returns (), setMaxFileSize n c)"
| "do_http_call env (Set_host h p) c = (Returns (), setHost h p c)"
| "do_http_call env (Request_move m pkt) c = ignore_result (request_move env m pkt c)"
| "do_http_call env (Request_copy m pkt) c = ignore_result (request_copy env m pkt c)"
| "do_http_call env (Request_async m pkt cbk) c = async_run env m pkt cbk c"
| "do_http_call env Interrupt c = (Returns (), interruptRequestProcessing c)"
| "do_http_call env (Download t f) c = ignore_result (downloadFile env t f c)"
| "do_http_call env (Upload t f) c = ignore_result (uploadFile env t f c)"

text \<open>
  A sequence of calls, each with what the environment answers to it; an exception ends
  its call only, undefined behaviour everything (\<open>None\<close>).
\<close>

fun http_calls :: "(http_env \<times> http_call) list \<Rightarrow> http_client \<Rightarrow> http_client option" where
  "http_calls [] c = Some c"
| "http_calls ((env, x) # xs) c =
     (case do_http_call env x c of (UB, d) \<Rightarrow> None | (_, d) \<Rightarrow> http_calls xs d)"

subsection \<open>What a call may do\<close>

definition wf_request :: "http_request \<Rightarrow> bool" where
  "wf_request r \<longleftrightarrow> rq_version r = 11 \<and> rq_verb r \<in> {V_get, V_put, V_post, V_delete} \<and>
     rq_content_type r \<in> insert None (Some ` range Packet_toString) \<and>
     rq_accept r \<in> insert None (Some ` range Packet_toString)"

text \<open>
  An operation on the network that is right for a client: requests are well-formed and name
  its host and its name, only its host is resolved, and TLS is used by TLS clients only.
\<close>

fun net_op_ok :: "bool \<Rightarrow> string \<Rightarrow> string \<Rightarrow> string \<Rightarrow> net_op \<Rightarrow> bool" where
  "net_op_ok sec host port name (Op_write r) = (wf_request r \<and> rq_host r = host \<and> rq_user_agent r = name)"
| "net_op_ok sec host port name (Op_resolve h p) = (h = host \<and> p = port)"
| "net_op_ok sec host port name (Op_sni h) = (sec \<and> h = host)"
| "net_op_ok sec host port name Op_handshake = sec"
| "net_op_ok sec host port name Op_ssl_shutdown = sec"
| "net_op_ok sec host port name _ = True"

definition extends :: "http_client \<Rightarrow> http_client \<Rightarrow> bool" where
  "extends c d \<longleftrightarrow> hc_secure d = hc_secure c \<and> hc_host d = hc_host c \<and> hc_port d = hc_port c \<and>
     hc_clientName d = hc_clientName c \<and> hc_isLoggingEnabled d = hc_isLoggingEnabled c \<and>
     hc_maxFileSize d = hc_maxFileSize c \<and>
     hc_log d = (if hc_isLoggingEnabled c then hc_log d else hc_log c) \<and>
     (\<exists>ys. hc_ops d = hc_ops c @ ys \<and> list_all (net_op_ok (hc_secure c) (hc_host c) (hc_port c) (hc_clientName c)) ys)"

lemma extends_refl [simp, intro]: "extends c c"
  by (simp add: extends_def)

lemma extends_op [intro!]:
  "extends c d \<Longrightarrow> net_op_ok (hc_secure c) (hc_host c) (hc_port c) (hc_clientName c) x \<Longrightarrow> extends c (op x d)"
  by (auto simp: extends_def op_def)

lemma extends_log [intro!]: "extends c d \<Longrightarrow> extends c (log_line lv m d)"
  by (auto simp: extends_def log_line_def)

lemma extends_call_back [intro!]: "extends c d \<Longrightarrow> extends c (call_back ao v d)"
  by (auto simp: extends_def call_back_def)

lemma extends_received [intro!]: "extends c d \<Longrightarrow> extends c (received n d)"
  by (auto simp: received_def)

lemma extends_unknown [intro!]: "extends c d \<Longrightarrow> extends c (unknown_method m d)"
  by (auto simp: unknown_method_def)

lemma extends_fields:
  "extends c d \<Longrightarrow> hc_secure d = hc_secure c \<and> hc_host d = hc_host c \<and> hc_port d = hc_port c \<and>
     hc_clientName d = hc_clientName c"
  by (simp add: extends_def)

lemma extends_isConnected: "extends c d \<Longrightarrow> extends c (snd (isConnected env d))"
  by (auto simp: isConnected_def Let_def)

lemma extends_fill_packet: "extends c d \<Longrightarrow> extends c (snd (fill_packet env lv pre res p d))"
  by (auto simp: fill_packet_def Let_def split: option.split)

lemma extends_connectToHost:
  assumes "extends c d"
  shows "extends c (snd (connectToHost env d))"
proof -
  obtain b c1 where b: "isConnected env d = (b, c1)" by fastforce
  have c1: "extends c c1" using extends_isConnected[OF assms, of env] b by simp
  note f = extends_fields[OF c1]
  show ?thesis using c1 f
    by (cases b; cases "e_resolve env"; cases "e_sni env")
      (auto simp: connectToHost_def b Let_def split: list.split)
qed

lemma extends_write_read:
  assumes "extends c d" and "wf_request r" and "rq_host r = hc_host c" and "rq_user_agent r = hc_clientName c"
  shows "extends c (snd (write_read env r d))"
  using assms by (auto simp: write_read_def Let_def)

lemma wf_build_request [simp]: "wf_request (build_request c m pkt)"
  by (cases m) (simp_all add: wf_request_def build_request_def)

lemma build_request_names [simp]:
  "rq_host (build_request c m pkt) = hc_host c" "rq_user_agent (build_request c m pkt) = hc_clientName c"
  by (simp_all add: build_request_def)
subsection \<open>Every operation keeps to it\<close>

lemma extends_fill: "fill_packet env lv pre res p d = (q, e) \<Longrightarrow> extends c d \<Longrightarrow> extends c e"
  using extends_fill_packet[of c d env lv pre res p] by simp

lemma extends_connect: "connectToHost env d = (r, e) \<Longrightarrow> extends c d \<Longrightarrow> extends c e"
  using extends_connectToHost[of c d env] by simp

lemma extends_wr:
  "write_read env q d = (r, e) \<Longrightarrow> extends c d \<Longrightarrow> wf_request q \<Longrightarrow> rq_host q = hc_host c \<Longrightarrow>
   rq_user_agent q = hc_clientName c \<Longrightarrow> extends c e"
  using extends_write_read[of c d q env] by simp

lemma request_move_extends: "extends c (snd (request_move env m pkt c))"
proof (cases "method_of m")
  case (Some mt)
  obtain r c1 where r: "connectToHost env c = (r, c1)" by fastforce
  have c1: "extends c c1" by (rule extends_connect[OF r extends_refl])
  show ?thesis using c1 Some
    by (cases r) (auto simp: request_move_def r Let_def split: prod.split bool.split intro: extends_fill)
qed (auto simp: request_move_def)

lemma request_copy_extends: "extends c (snd (request_copy env m pkt c))"
proof (cases "method_of m")
  case (Some mt)
  obtain r c1 where r: "connectToHost env c = (r, c1)" by fastforce
  have c1: "extends c c1" by (rule extends_connect[OF r extends_refl])
  let ?l = "log_line Info [''Request:'', Method_toString mt, rq_target (build_request c mt pkt)] c1"
  obtain w c2 where w: "write_read env (build_request c mt pkt) ?l = (w, c2)" by fastforce
  have "extends c c2" by (rule extends_wr[OF w]) (use c1 in auto)
  then show ?thesis using c1 Some w
    by (cases r; cases w) (auto simp: request_copy_def r Let_def split: prod.split bool.split intro: extends_fill)
qed (auto simp: request_copy_def)

lemma async_run_extends: "extends c (snd (async_run env m pkt cbk c))"
proof (cases "method_of m")
  case (Some mt)
  obtain r c1 where r: "connectToHost env c = (r, c1)" by fastforce
  have c1: "extends c c1" by (rule extends_connect[OF r extends_refl])
  have read: "extends c (on_async_read env ao d)" if "extends c d" for ao d
    using that by (auto simp: on_async_read_def Let_def split: prod.split intro: extends_fill)
  show ?thesis using c1 Some
    by (cases r) (auto simp: async_run_def requestAsync_def on_async_write_def r Let_def split: bool.split intro!: read)
qed (auto simp: async_run_def requestAsync_def)

lemma bytes_type [simp]: "Some ''application/octet-stream'' \<in> Some ` range Packet_toString"
  using rangeI[of Packet_toString Bytes] by simp

lemma downloadFile_extends: "extends c (snd (downloadFile env t f c))"
proof -
  let ?d = "log_line Info [''Downloading file: URL'', t, ''--->'', f] c"
  let ?q = "\<lparr>rq_verb = V_get, rq_target = t, rq_version = 11, rq_user_agent = hc_clientName ?d,
    rq_host = hc_host ?d, rq_content_type = None, rq_accept = Some (Packet_toString Bytes), rq_body = []\<rparr>"
  have d: "extends c ?d" by blast
  obtain r c1 where r: "connectToHost env ?d = (r, c1)" by fastforce
  have c1: "extends c c1" by (rule extends_connect[OF r d])
  obtain w c2 where w: "write_read env ?q c1 = (w, c2)" by fastforce
  have "extends c c2"
    by (rule extends_wr[OF w c1]) (use extends_fields[OF d] in \<open>auto simp: wf_request_def\<close>)
  then show ?thesis using c1 w r
    by (cases r; cases w) (auto simp: downloadFile_def Let_def split: prod.split bool.split intro: extends_fill)
qed

lemma uploadFile_extends: "extends c (snd (uploadFile env t f c))"
proof (cases "e_file env")
  case (Inr content)
  let ?d = "log_line Info [''Uploading file:'', f, ''---> URL'', t] c"
  let ?q = "\<lparr>rq_verb = V_post, rq_target = t, rq_version = 11, rq_user_agent = hc_clientName ?d,
    rq_host = hc_host ?d, rq_content_type = Some (Packet_toString Bytes), rq_accept = None, rq_body = content\<rparr>"
  have d: "extends c ?d" by blast
  obtain r c1 where r: "connectToHost env ?d = (r, c1)" by fastforce
  have c1: "extends c c1" by (rule extends_connect[OF r d])
  obtain w c2 where w: "write_read env ?q c1 = (w, c2)" by fastforce
  have "extends c c2"
    by (rule extends_wr[OF w c1]) (use extends_fields[OF d] in \<open>auto simp: wf_request_def\<close>)
  then show ?thesis using c1 w r Inr
    by (cases r; cases w) (auto simp: uploadFile_def Let_def split: bool.split)
qed (auto simp: uploadFile_def Let_def)

fun is_setter :: "http_call \<Rightarrow> bool" where
  "is_setter (Set_logging b) = True"
| "is_setter (Set_client_name n) = True"
| "is_setter (Set_max_file_size n) = True"
| "is_setter (Set_host h p) = True"
| "is_setter x = False"

lemma do_http_call_extends: "\<not> is_setter x \<Longrightarrow> extends c (snd (do_http_call env x c))"
  by (cases x) (auto simp: ignore_result_def request_move_extends request_copy_extends async_run_extends
      downloadFile_extends uploadFile_extends interruptRequestProcessing_def)
subsection \<open>The file size limit\<close>

text \<open>No operation looks at \<open>hc_maxFileSize\<close>: a change of it can be made afterwards as well.\<close>

definition sized :: "u32 \<Rightarrow> 'a \<times> http_client \<Rightarrow> 'a \<times> http_client" where
  "sized n r = (fst r, (snd r)\<lparr>hc_maxFileSize := n\<rparr>)"

lemma sized_simps [simp]: "sized n (x, c) = (x, c\<lparr>hc_maxFileSize := n\<rparr>)"
  by (simp add: sized_def)

lemma base_size [simp]:
  "op x (c\<lparr>hc_maxFileSize := n\<rparr>) = (op x c)\<lparr>hc_maxFileSize := n\<rparr>"
  "log_line lv m (c\<lparr>hc_maxFileSize := n\<rparr>) = (log_line lv m c)\<lparr>hc_maxFileSize := n\<rparr>"
  "call_back ao v (c\<lparr>hc_maxFileSize := n\<rparr>) = (call_back ao v c)\<lparr>hc_maxFileSize := n\<rparr>"
  "received k (c\<lparr>hc_maxFileSize := n\<rparr>) = (received k c)\<lparr>hc_maxFileSize := n\<rparr>"
  "unknown_method i (c\<lparr>hc_maxFileSize := n\<rparr>) = (unknown_method i c)\<lparr>hc_maxFileSize := n\<rparr>"
  "build_request (c\<lparr>hc_maxFileSize := n\<rparr>) mt p = build_request c mt p"
  by (simp_all add: op_def log_line_def call_back_def received_def unknown_method_def build_request_def)

lemma isConnected_size [simp]: "isConnected env (c\<lparr>hc_maxFileSize := n\<rparr>) = sized n (isConnected env c)"
  by (simp add: isConnected_def Let_def)

lemma connectToHost_size [simp]: "connectToHost env (c\<lparr>hc_maxFileSize := n\<rparr>) = sized n (connectToHost env c)"
proof -
  obtain b c1 where "isConnected env c = (b, c1)" by fastforce
  then show ?thesis
    by (cases b; cases "e_resolve env") (auto simp: connectToHost_def Let_def split: list.split)
qed

lemma fill_packet_size [simp]:
  "fill_packet env lv pre res p (c\<lparr>hc_maxFileSize := n\<rparr>) = sized n (fill_packet env lv pre res p c)"
  by (simp add: fill_packet_def Let_def split: option.split)

lemma write_read_size [simp]: "write_read env q (c\<lparr>hc_maxFileSize := n\<rparr>) = sized n (write_read env q c)"
  by (simp add: write_read_def Let_def)

lemma requests_size [simp]:
  "request_move env m pkt (c\<lparr>hc_maxFileSize := n\<rparr>) = sized n (request_move env m pkt c)"
  "request_copy env m pkt (c\<lparr>hc_maxFileSize := n\<rparr>) = sized n (request_copy env m pkt c)"
  "requestAsync env m pkt cbk (c\<lparr>hc_maxFileSize := n\<rparr>) = sized n (requestAsync env m pkt cbk c)"
proof -
  obtain r c1 where r: "connectToHost env c = (r, c1)" by fastforce
  show "request_move env m pkt (c\<lparr>hc_maxFileSize := n\<rparr>) = sized n (request_move env m pkt c)"
    by (cases r) (simp_all add: request_move_def r Let_def split: option.split prod.split bool.split)
  show "request_copy env m pkt (c\<lparr>hc_maxFileSize := n\<rparr>) = sized n (request_copy env m pkt c)"
    by (cases r) (simp_all add: request_copy_def r Let_def split: option.split prod.split bool.split sum.split)
  show "requestAsync env m pkt cbk (c\<lparr>hc_maxFileSize := n\<rparr>) = sized n (requestAsync env m pkt cbk c)"
    by (cases r) (simp_all add: requestAsync_def r Let_def split: option.split bool.split)
qed

lemma async_steps_size [simp]:
  "on_async_write env ao (c\<lparr>hc_maxFileSize := n\<rparr>) = sized n (on_async_write env ao c)"
  "on_async_read env ao (c\<lparr>hc_maxFileSize := n\<rparr>) = (on_async_read env ao c)\<lparr>hc_maxFileSize := n\<rparr>"
  by (simp_all add: on_async_write_def on_async_read_def Let_def split: prod.split)

lemma async_run_size [simp]: "async_run env m pkt cbk (c\<lparr>hc_maxFileSize := n\<rparr>) = sized n (async_run env m pkt cbk c)"
proof -
  obtain r c1 where r: "requestAsync env m pkt cbk c = (r, c1)" by fastforce
  show ?thesis
  proof (cases r)
    case (Returns ao)
    obtain ok c2 where "on_async_write env (the ao) c1 = (ok, c2)" by fastforce
    then show ?thesis using r Returns by (cases ao; cases ok) (simp_all add: async_run_def)
  qed (simp_all add: async_run_def r)
qed

lemma files_size [simp]:
  "downloadFile env t f (c\<lparr>hc_maxFileSize := n\<rparr>) = sized n (downloadFile env t f c)"
  "uploadFile env t f (c\<lparr>hc_maxFileSize := n\<rparr>) = sized n (uploadFile env t f c)"
proof -
  obtain r c1 where r: "connectToHost env (log_line Info [''Downloading file: URL'', t, ''--->'', f] c) = (r, c1)" by fastforce
  show "downloadFile env t f (c\<lparr>hc_maxFileSize := n\<rparr>) = sized n (downloadFile env t f c)"
    by (cases r) (auto simp: downloadFile_def r Let_def split: prod.split bool.split sum.split)
  obtain r' c1' where r': "connectToHost env (log_line Info [''Uploading file:'', f, ''---> URL'', t] c) = (r', c1')" by fastforce
  show "uploadFile env t f (c\<lparr>hc_maxFileSize := n\<rparr>) = sized n (uploadFile env t f c)"
    by (cases r') (simp_all add: uploadFile_def r' Let_def split: prod.split bool.split sum.split)
qed

lemma setters_size [simp]:
  "setLoggingEnabled b (c\<lparr>hc_maxFileSize := n\<rparr>) = (setLoggingEnabled b c)\<lparr>hc_maxFileSize := n\<rparr>"
  "setClientName s (c\<lparr>hc_maxFileSize := n\<rparr>) = (setClientName s c)\<lparr>hc_maxFileSize := n\<rparr>"
  "setHost s p (c\<lparr>hc_maxFileSize := n\<rparr>) = (setHost s p c)\<lparr>hc_maxFileSize := n\<rparr>"
  "interruptRequestProcessing (c\<lparr>hc_maxFileSize := n\<rparr>) = (interruptRequestProcessing c)\<lparr>hc_maxFileSize := n\<rparr>"
  by (simp_all add: setLoggingEnabled_def setClientName_def setHost_def interruptRequestProcessing_def)

lemma ignore_result_sized [simp]: "ignore_result (sized n r) = sized n (ignore_result r)"
  by (cases r) (simp add: ignore_result_def)

fun is_size :: "http_call \<Rightarrow> bool" where
  "is_size (Set_max_file_size n) = True"
| "is_size x = False"

lemma do_http_call_size:
  "\<not> is_size x \<Longrightarrow> do_http_call env x (c\<lparr>hc_maxFileSize := n\<rparr>) = sized n (do_http_call env x c)"
  by (cases x) simp_all

lemma http_calls_size:
  "http_calls (filter (\<lambda>(env, x). \<not> is_size x) xs) (c\<lparr>hc_maxFileSize := n\<rparr>) =
   map_option (\<lambda>d. d\<lparr>hc_maxFileSize := n\<rparr>) (http_calls xs c)"
proof (induction xs arbitrary: c)
  case (Cons a xs)
  obtain env x where a: "a = (env, x)" by fastforce
  obtain r d where d: "do_http_call env x c = (r, d)" by fastforce
  show ?case
  proof (cases "is_size x")
    case True
    then obtain k where x: "x = Set_max_file_size k" by (cases x) auto
    then have e: "d = c\<lparr>hc_maxFileSize := k\<rparr>" "r = Returns ()" using d by (auto simp: setMaxFileSize_def)
    have "http_calls (filter (\<lambda>(env, x). \<not> is_size x) xs) (d\<lparr>hc_maxFileSize := n\<rparr>) =
        http_calls (filter (\<lambda>(env, x). \<not> is_size x) (a # xs)) (c\<lparr>hc_maxFileSize := n\<rparr>)"
      by (simp add: a x e)
    then show ?thesis using Cons.IH[of d] d e(2) by (simp add: a del: do_http_call.simps)
  next
    case False
    then show ?thesis using Cons.IH[of d] do_http_call_size[OF False, where env = env and c = c and n = n] d by (cases r) (simp_all add: a)
  qed
qed simp

subsection \<open>Properties\<close>

text \<open>What the setters of a sequence of calls have set last.\<close>

definition last_host :: "(http_env \<times> http_call) list \<Rightarrow> string \<times> string" where
  "last_host xs = last (([], []) # List.map_filter (\<lambda>(e, x). case x of Set_host h p \<Rightarrow> Some (h, to_dec (unat p)) | _ \<Rightarrow> None) xs)"

definition last_client_name :: "(http_env \<times> http_call) list \<Rightarrow> string" where
  "last_client_name xs = last (''TestApp'' # List.map_filter (\<lambda>(e, x). case x of Set_client_name s \<Rightarrow> Some s | _ \<Rightarrow> None) xs)"

definition last_logging :: "(http_env \<times> http_call) list \<Rightarrow> bool" where
  "last_logging xs = last (False # List.map_filter (\<lambda>(e, x). case x of Set_logging b \<Rightarrow> Some b | _ \<Rightarrow> None) xs)"

lemma map_filter_snoc [simp]:
  "List.map_filter f (xs @ [x]) = List.map_filter f xs @ (case f x of None \<Rightarrow> [] | Some y \<Rightarrow> [y])"
  by (simp add: List.map_filter_def split: option.split)

lemma http_calls_append:
  "http_calls (xs @ ys) c = Option.bind (http_calls xs c) (http_calls ys)"
proof (induction xs arbitrary: c)
  case (Cons a xs)
  obtain env x where a: "a = (env, x)" by fastforce
  obtain r d where "do_http_call env x c = (r, d)" by fastforce
  then show ?case using Cons.IH[of d] by (cases r) (simp_all add: a)
qed simp

lemma http_calls_setters:
  "http_calls xs (new_client sec ver) = Some c \<Longrightarrow>
   hc_secure c = sec \<and> (hc_host c, hc_port c) = last_host xs \<and> hc_clientName c = last_client_name xs \<and>
   hc_isLoggingEnabled c = last_logging xs"
proof (induction xs arbitrary: c rule: rev_induct)
  case Nil
  then show ?case
    by (auto simp: new_client_def last_host_def last_client_name_def last_logging_def List.map_filter_def)
next
  case (snoc a xs)
  obtain env x where a: "a = (env, x)" by fastforce
  obtain b where b: "http_calls xs (new_client sec ver) = Some b" "http_calls [a] b = Some c"
    using snoc.prems by (auto simp: http_calls_append split: bind_splits)
  then have c: "c = snd (do_http_call env x b)" by (auto simp: a split: prod.splits beh.splits)
  note IH = snoc.IH[OF b(1)]
  show ?case
  proof (cases "is_setter x")
    case True
    then show ?thesis using IH c
      by (cases x) (auto simp: a setLoggingEnabled_def setClientName_def setMaxFileSize_def setHost_def
          last_host_def last_client_name_def last_logging_def)
  next
    case False
    then have "extends b c" using do_http_call_extends c by simp
    then show ?thesis using IH False
      by (cases x) (auto simp: a extends_def last_host_def last_client_name_def last_logging_def)
  qed
qed

text \<open>
  C37. What a call does on the network. After any sequence of calls on a new client, whatever
  the network answered, a request, download or upload adds operations in which: every
  request written is well-formed HTTP/1.1 and names the host and the client name that were
  set last; only that host and port are resolved; host names are set, handshakes made and
  TLS shut down by a TLS client only. While logging is off, as it is at first, it logs nothing.
\<close>

theorem http_call_in_line:
  assumes "http_calls xs (new_client sec ver) = Some c" and "\<not> is_setter x"
  shows "\<exists>ys. hc_ops (snd (do_http_call env x c)) = hc_ops c @ ys \<and>
    list_all (net_op_ok sec (fst (last_host xs)) (snd (last_host xs)) (last_client_name xs)) ys \<and>
    hc_log (snd (do_http_call env x c)) = (if last_logging xs then hc_log (snd (do_http_call env x c)) else hc_log c)"
proof -
  have "extends c (snd (do_http_call env x c))" by (rule do_http_call_extends[OF assms(2)])
  moreover have "hc_secure c = sec" "hc_host c = fst (last_host xs)" "hc_port c = snd (last_host xs)"
      "hc_clientName c = last_client_name xs" "hc_isLoggingEnabled c = last_logging xs"
    using http_calls_setters[OF assms(1)] by (metis fst_conv snd_conv)+
  ultimately show ?thesis unfolding extends_def by simp
qed

lemma http_call_in_line_witness:
  "\<exists>c ys. http_calls [(sample_env, Set_host ''h'' 80)] (new_client False False) = Some c \<and>
     hc_ops (snd (do_http_call sample_env (Download ''/d'' ''f'') c)) = ys \<and>
     list_all (net_op_ok False ''h'' (to_dec 80) ''TestApp'') ys"
proof -
  have c: "http_calls [(sample_env, Set_host ''h'' 80)] (new_client False False) =
      Some (setHost ''h'' 80 (new_client False False))" by simp
  have l: "last_host [(sample_env, Set_host ''h'' 80)] = (''h'', to_dec 80)"
    "last_client_name [(sample_env, Set_host ''h'' 80)] = ''TestApp''"
    by (simp_all add: last_host_def last_client_name_def List.map_filter_def)
  have o: "hc_ops (setHost ''h'' 80 (new_client False False)) = []" by (simp add: setHost_def new_client_def)
  show ?thesis using http_call_in_line[OF c, of "Download ''/d'' ''f''" sample_env] c l o by auto
qed

text \<open>
  C38. The limit of the file size is not enforced. Leaving all calls of \<open>setMaxFileSize\<close> out
  of any sequence of calls changes nothing but the stored limit: neither what is sent and
  received, nor what is written to files, logged or called back.
\<close>

theorem max_file_size_ignored:
  "map_option (\<lambda>d. d\<lparr>hc_maxFileSize := n\<rparr>) (http_calls xs c) =
   map_option (\<lambda>d. d\<lparr>hc_maxFileSize := n\<rparr>) (http_calls (filter (\<lambda>(env, x). \<not> is_size x) xs) c)"
proof -
  have "filter (\<lambda>(env, x). \<not> is_size x) (filter (\<lambda>(env, x). \<not> is_size x) xs) = filter (\<lambda>(env, x). \<not> is_size x) xs"
    by simp
  then show ?thesis
    using http_calls_size[where xs = xs and c = c and n = n]
      http_calls_size[where xs = "filter (\<lambda>(env, x). \<not> is_size x) xs" and c = c and n = n] by metis
qed

end
